(* ===== verification/Prelude.thy ===== *)
theory Prelude
  imports Main "HOL-Library.Word"
begin

text \<open>
  Shared vocabulary of the development: bytes, Rust strings, panics, the early-return
  combinators that stand for Rust's \<open>?\<close> operator, decimal formatting, and the generic
  list lemmas that several components use.

  A Rust \<open>str\<close> is modelled by its UTF-8 bytes, one HOL \<open>char\<close> per byte, so
  \<open>str::len\<close> is \<open>length\<close> and byte slicing is \<open>take\<close>/\<open>drop\<close>. A Rust
  \<open>char\<close> is modelled by the bytes of its UTF-8 encoding: \<open>chars_of\<close> splits a string
  before every byte that is not a continuation byte, which is what \<open>str::chars\<close> does on
  valid UTF-8. A \<open>Vec<u8>\<close> is a list of 8-bit words.
\<close>

unbundle bit_operations_syntax

type_synonym byte = "8 word"
type_synonym bytes = "byte list"

named_theorems open_defs \<open>the statements of opening and migrating a database, unfolded together\<close>
named_theorems store_effects \<open>what a store call does to a working database, exactly\<close>
named_theorems demo_facts \<open>how the demonstration library and server evaluate\<close>

section \<open>Panics\<close>

text \<open>
  A Rust computation that may panic. \<open>Ret\<close> is an ordinary return, \<open>Panic\<close> an
  unwinding panic (an index out of range, a slice off a character boundary, an
  \<open>expect\<close> or \<open>unwrap\<close> on a failure).
\<close>

datatype 'a outcome = Ret 'a | Panic

fun outcome_bind :: "'a outcome \<Rightarrow> ('a \<Rightarrow> 'b outcome) \<Rightarrow> 'b outcome" where
  "outcome_bind Panic f = Panic"
| "outcome_bind (Ret a) f = f a"

text \<open>The \<open>?\<close> operator inside a function that may also panic.\<close>

fun try_bind :: "('e + 'a) outcome \<Rightarrow> ('a \<Rightarrow> ('e + 'b) outcome) \<Rightarrow> ('e + 'b) outcome" where
  "try_bind Panic f = Panic"
| "try_bind (Ret (Inl e)) f = Ret (Inl e)"
| "try_bind (Ret (Inr a)) f = f a"

lemma try_bind_Inr:
  "try_bind m f = Ret (Inr b) \<longleftrightarrow> (\<exists>a. m = Ret (Inr a) \<and> f a = Ret (Inr b))"
  by (cases "(m, f)" rule: try_bind.cases) auto

lemma try_bind_Panic:
  "try_bind m f = Panic \<longleftrightarrow> m = Panic \<or> (\<exists>a. m = Ret (Inr a) \<and> f a = Panic)"
  by (cases "(m, f)" rule: try_bind.cases) auto

lemma try_bind_Inl:
  "try_bind m f = Ret (Inl e) \<longleftrightarrow>
     m = Ret (Inl e) \<or> (\<exists>a. m = Ret (Inr a) \<and> f a = Ret (Inl e))"
  by (cases "(m, f)" rule: try_bind.cases) auto

text \<open>\<open>Result::ok\<close>.\<close>

fun ok :: "'e + 'a \<Rightarrow> 'a option" where
  "ok (Inl e) = None"
| "ok (Inr a) = Some a"

lemma ok_eq_Some [simp]: "ok r = Some a \<longleftrightarrow> r = Inr a"
  by (cases r) auto

lemma ok_eq_None [simp]: "ok r = None \<longleftrightarrow> (\<exists>e. r = Inl e)"
  by (cases r) auto

section \<open>Rust strings\<close>

definition byte_of_char :: "char \<Rightarrow> byte" where
  "byte_of_char c = of_nat (of_char c)"

definition char_of_byte :: "byte \<Rightarrow> char" where
  "char_of_byte b = char_of (unat b)"

lemma unat_byte_of_char: "unat (byte_of_char c) = of_char c"
proof -
  have "(of_char c :: nat) < 256"
    by simp
  then show ?thesis
    by (simp add: byte_of_char_def unat_of_nat)
qed

lemma char_of_byte_of_char [simp]: "char_of_byte (byte_of_char c) = c"
  by (simp add: char_of_byte_def unat_byte_of_char)

text \<open>A UTF-8 continuation byte, \<open>10xxxxxx\<close>.\<close>

definition is_cont :: "char \<Rightarrow> bool" where
  "is_cont c \<longleftrightarrow> 128 \<le> (of_char c :: nat) \<and> (of_char c :: nat) < 192"

text \<open>\<open>str::chars\<close>: each Rust \<open>char\<close> as its UTF-8 bytes.\<close>

lemma length_dropWhile_Suc [termination_simp]: "length (dropWhile P xs) < Suc (length xs)"
  by (simp add: le_imp_less_Suc length_dropWhile_le)

fun chars_of :: "string \<Rightarrow> string list" where
  "chars_of [] = []"
| "chars_of (b # bs) = (b # takeWhile is_cont bs) # chars_of (dropWhile is_cont bs)"

lemma concat_chars_of [simp]: "concat (chars_of s) = s"
  by (induction s rule: chars_of.induct) auto

lemma chars_of_nonempty: "c \<in> set (chars_of s) \<Longrightarrow> c \<noteq> []"
  by (induction s rule: chars_of.induct) auto

text \<open>\<open>str::is_char_boundary\<close>.\<close>

definition is_char_boundary :: "string \<Rightarrow> nat \<Rightarrow> bool" where
  "is_char_boundary s i \<longleftrightarrow>
     i = 0 \<or> i = length s \<or> (i < length s \<and> \<not> is_cont (s ! i))"

text \<open>\<open>&s[i..j]\<close>: panics out of range and off a character boundary.\<close>

definition str_slice :: "string \<Rightarrow> nat \<Rightarrow> nat \<Rightarrow> string outcome" where
  "str_slice s i j =
     (if i \<le> j \<and> j \<le> length s \<and> is_char_boundary s i \<and> is_char_boundary s j
      then Ret (take (j - i) (drop i s)) else Panic)"

text \<open>\<open>String::from_utf8\<close>: well-formed byte sequences, Table 3-7 of the Unicode standard.\<close>

definition cont_byte :: "byte \<Rightarrow> bool" where
  "cont_byte b \<longleftrightarrow> 128 \<le> unat b \<and> unat b < 192"

fun valid_utf8 :: "bytes \<Rightarrow> bool" where
  "valid_utf8 [] = True"
| "valid_utf8 (a # bs) =
     (if unat a < 128 then valid_utf8 bs
      else if 194 \<le> unat a \<and> unat a \<le> 223 then
        (case bs of b # bs' \<Rightarrow> cont_byte b \<and> valid_utf8 bs' | _ \<Rightarrow> False)
      else if 224 \<le> unat a \<and> unat a \<le> 239 then
        (case bs of b # c # bs' \<Rightarrow>
           (if unat a = 224 then 160 \<le> unat b else True)
           \<and> (if unat a = 237 then unat b < 160 else True)
           \<and> cont_byte b \<and> cont_byte c \<and> valid_utf8 bs' | _ \<Rightarrow> False)
      else if 240 \<le> unat a \<and> unat a \<le> 244 then
        (case bs of b # c # d # bs' \<Rightarrow>
           (if unat a = 240 then 144 \<le> unat b else True)
           \<and> (if unat a = 244 then unat b < 144 else True)
           \<and> cont_byte b \<and> cont_byte c \<and> cont_byte d \<and> valid_utf8 bs' | _ \<Rightarrow> False)
      else False)"

definition string_from_utf8 :: "bytes \<Rightarrow> string option" where
  "string_from_utf8 bs = (if valid_utf8 bs then Some (map char_of_byte bs) else None)"

lemma valid_utf8_ascii: "\<forall>b \<in> set bs. unat b < 128 \<Longrightarrow> valid_utf8 bs"
  by (induction bs) auto

section \<open>The operating system's random source\<close>

text \<open>
  \<open>getrandom::fill\<close>: an endless tape of bytes, the position reached on it, and whether the
  source can be read at all. Filling a buffer of \<open>n\<close> bytes takes the next \<open>n\<close> bytes;
  the callers turn a failure into a panic with \<open>expect\<close>.
\<close>

record os_random =
  tape :: "nat \<Rightarrow> byte"
  pos :: nat
  csprng_up :: bool

definition getrandom_fill :: "nat \<Rightarrow> os_random \<Rightarrow> bytes outcome \<times> os_random" where
  "getrandom_fill n r =
     (if csprng_up r
      then (Ret (map (tape r) [pos r ..< pos r + n]), r\<lparr>pos := pos r + n\<rparr>)
      else (Panic, r))"

lemma getrandom_fill_length: "getrandom_fill n r = (Ret b, r') \<Longrightarrow> length b = n"
  by (auto simp: getrandom_fill_def split: if_splits)

section \<open>Decimal formatting\<close>

definition digit_char :: "nat \<Rightarrow> char" where
  "digit_char d = char_of (48 + d)"

fun show_nat :: "nat \<Rightarrow> string" where
  "show_nat n =
     (if n < 10 then [digit_char n] else show_nat (n div 10) @ [digit_char (n mod 10)])"

declare show_nat.simps [simp del]

definition show_int :: "int \<Rightarrow> string" where
  "show_int i = (if i < 0 then ''-'' @ show_nat (nat (- i)) else show_nat (nat i))"

lemma unat_of_nat_byte: "n < 256 \<Longrightarrow> unat (of_nat n :: byte) = n"
  by (simp add: unat_of_nat)

section \<open>Generic list lemmas\<close>

lemma find_map_distinct_key:
  assumes "distinct (map key xs)" and "x \<in> set xs"
  shows "find (\<lambda>y. key y = key x) xs = Some x"
  using assms by (induction xs) (auto simp: image_iff)

lemma find_eq_Some_distinct:
  assumes "distinct (map key xs)"
  shows "find (\<lambda>y. key y = k) xs = Some x \<longleftrightarrow> x \<in> set xs \<and> key x = k"
  using find_map_distinct_key [OF assms, of x]
  by (auto simp: find_Some_iff in_set_conv_nth)

lemma strictly_sorted_snoc:
  fixes xs :: "'a :: linorder list"
  shows "sorted_wrt (<) (xs @ [x]) \<longleftrightarrow> sorted_wrt (<) xs \<and> (\<forall>y \<in> set xs. y < x)"
  by (auto simp: sorted_wrt_append)

lemma strictly_sorted_distinct:
  fixes xs :: "'a :: linorder list"
  shows "sorted_wrt (<) xs \<Longrightarrow> distinct xs"
  by (simp add: strict_sorted_iff)

lemma sort_key_id:
  "sorted_wrt (<) (map key xs) \<Longrightarrow> sort_key key xs = xs"
  by (rule sort_key_id_if_sorted) (simp add: strict_sorted_iff)

end
