(* ===== verification/Wire.thy ===== *)
theory Wire
  imports Prelude
begin

text \<open>
  \<open>crates/smdp/src/es9/wire.rs\<close>: the encodings of the ES9+ JSON binding. The
  hexadecimal codec is modelled completely, with its panicking index reads; the base64 engine
  is a third-party crate and is a parameter, \<open>b64_engine\<close>. The two serde adapters
  (\<open>hex_field\<close>, \<open>b64_field\<close>) turn a field into a JSON value and back, and the locale
  \<open>field_codec\<close> is the contract serde's \<open>with\<close> attribute relies on.
\<close>

section \<open>Upper-case hexadecimal\<close>

datatype wire_error = OddLength nat | NotHex string

definition hex_digit_upper :: "nat \<Rightarrow> char" where
  "hex_digit_upper d = (if d < 10 then char_of (48 + d) else char_of (55 + d))"

definition hex_byte_upper :: "byte \<Rightarrow> string" where
  "hex_byte_upper x = [hex_digit_upper (unat x div 16), hex_digit_upper (unat x mod 16)]"

definition to_hex_upper :: "bytes \<Rightarrow> string" where
  "to_hex_upper b = concat (map hex_byte_upper b)"

text \<open>\<open>char::to_digit(16)\<close> on an ASCII character.\<close>

definition ascii_digit16 :: "char \<Rightarrow> nat option" where
  "ascii_digit16 c =
     (let n = (of_char c :: nat) in
      if 48 \<le> n \<and> n \<le> 57 then Some (n - 48)
      else if 65 \<le> n \<and> n \<le> 70 then Some (n - 55)
      else if 97 \<le> n \<and> n \<le> 102 then Some (n - 87)
      else None)"

text \<open>A Rust \<open>char\<close> is given by its UTF-8 bytes; only a one-byte one is a digit.\<close>

definition to_digit16 :: "string \<Rightarrow> nat option" where
  "to_digit16 c = (case c of [x] \<Rightarrow> ascii_digit16 x | _ \<Rightarrow> None)"

definition hex_nibble :: "string \<Rightarrow> wire_error + byte" where
  "hex_nibble c = (case to_digit16 c of Some v \<Rightarrow> Inr (of_nat v) | None \<Rightarrow> Inl (NotHex c))"

text \<open>\<open>slice::chunks(2)\<close>: the last chunk is short when the length is odd.\<close>

fun chunks2 :: "'a list \<Rightarrow> 'a list list" where
  "chunks2 [] = []"
| "chunks2 [x] = [[x]]"
| "chunks2 (x # y # zs) = [x, y] # chunks2 zs"

text \<open>
  The closure over one chunk \<open>p\<close>: \<open>p[0]\<close> and \<open>p[1]\<close> panic when the chunk is too
  short, and \<open>p[1]\<close> is read only after \<open>d(p[0])?\<close> went through.
\<close>

fun hex_chunk :: "string list \<Rightarrow> (wire_error + byte) outcome" where
  "hex_chunk [] = Panic"
| "hex_chunk (c0 # rest) =
     try_bind (Ret (hex_nibble c0)) (\<lambda>h.
       case rest of
         [] \<Rightarrow> Panic
       | c1 # _ \<Rightarrow> try_bind (Ret (hex_nibble c1)) (\<lambda>l. Ret (Inr (push_bit 4 h OR l))))"

text \<open>\<open>map(..).collect::<Result<Vec<u8>, _>>()\<close> stops at the first error.\<close>

fun collect_chunks :: "string list list \<Rightarrow> (wire_error + bytes) outcome" where
  "collect_chunks [] = Ret (Inr [])"
| "collect_chunks (p # ps) =
     try_bind (hex_chunk p) (\<lambda>b. try_bind (collect_chunks ps) (\<lambda>bs. Ret (Inr (b # bs))))"

definition from_hex :: "string \<Rightarrow> (wire_error + bytes) outcome" where
  "from_hex s =
     (if odd (length s) then Ret (Inl (OddLength (length s)))
      else collect_chunks (chunks2 (chars_of s)))"

section \<open>JSON values and the serde field adapters\<close>

datatype json =
    JNull
  | JBool bool
  | JNum int
  | JStr string
  | JArr "json list"
  | JObj "(string \<times> json) list"

datatype de_error =
    InvalidType
  | CustomHex wire_error
  | CustomB64 string

definition hex_serialize :: "bytes \<Rightarrow> json" where
  "hex_serialize v = JStr (to_hex_upper v)"

definition hex_deserialize :: "json \<Rightarrow> (de_error + bytes) outcome" where
  "hex_deserialize d =
     (case d of
        JStr s \<Rightarrow>
          (case from_hex s of
             Panic \<Rightarrow> Panic
           | Ret (Inl e) \<Rightarrow> Ret (Inl (CustomHex e))
           | Ret (Inr b) \<Rightarrow> Ret (Inr b))
      | _ \<Rightarrow> Ret (Inl InvalidType))"

text \<open>
  The engine \<open>base64::engine::general_purpose::STANDARD\<close>. What the code relies on is
  that it decodes what it encodes.
\<close>

record b64_engine =
  b64_encode :: "bytes \<Rightarrow> string"
  b64_decode :: "string \<Rightarrow> string + bytes"

definition b64_lawful :: "b64_engine \<Rightarrow> bool" where
  "b64_lawful B \<longleftrightarrow> (\<forall>v. b64_decode B (b64_encode B v) = Inr v)"

definition b64_serialize :: "b64_engine \<Rightarrow> bytes \<Rightarrow> json" where
  "b64_serialize B v = JStr (b64_encode B v)"

definition b64_deserialize :: "b64_engine \<Rightarrow> json \<Rightarrow> (de_error + bytes) outcome" where
  "b64_deserialize B d =
     (case d of
        JStr s \<Rightarrow>
          (case b64_decode B s of
             Inl e \<Rightarrow> Ret (Inl (CustomB64 e))
           | Inr b \<Rightarrow> Ret (Inr b))
      | _ \<Rightarrow> Ret (Inl InvalidType))"

text \<open>
  One required field of an object, as serde's derived \<open>visit_map\<close> reads it: a missing or a
  repeated key is an error, every other key is ignored. \<open>None\<close> stands for any serde error;
  which one is reported is up to the library.
\<close>

definition field_values :: "string \<Rightarrow> (string \<times> json) list \<Rightarrow> json list" where
  "field_values k obj = map snd (filter (\<lambda>kv. fst kv = k) obj)"

definition required_field ::
  "(json \<Rightarrow> (de_error + 'a) outcome) \<Rightarrow> string \<Rightarrow> (string \<times> json) list \<Rightarrow> 'a option outcome"
where
  "required_field de k obj =
     (case field_values k obj of
        [v] \<Rightarrow> outcome_bind (de v) (\<lambda>r. Ret (ok r))
      | _ \<Rightarrow> Ret None)"

text \<open>Continue with a field's value, or stop at the first field that did not decode.\<close>

fun with_field :: "'a option outcome \<Rightarrow> ('a \<Rightarrow> 'b option outcome) \<Rightarrow> 'b option outcome" where
  "with_field Panic f = Panic"
| "with_field (Ret None) f = Ret None"
| "with_field (Ret (Some a)) f = f a"

definition string_serialize :: "string \<Rightarrow> json" where
  "string_serialize s = JStr s"

definition string_deserialize :: "json \<Rightarrow> (de_error + string) outcome" where
  "string_deserialize d = (case d of JStr s \<Rightarrow> Ret (Inr s) | _ \<Rightarrow> Ret (Inl InvalidType))"


section \<open>The hexadecimal codec is correct\<close>

lemma unat_byte_div16 [simp]: "unat (x :: byte) div 16 < 16"
proof -
  have "unat x < 2 ^ LENGTH(8)" by (rule unsigned_less)
  then show ?thesis by (simp add: less_mult_imp_div_less)
qed

lemma nibbles_recombine:
  "push_bit 4 (of_nat (unat x div 16)) OR of_nat (unat x mod 16) = (x :: byte)"
proof -
  have "unat x div 16 < 256"
    using unat_byte_div16 [of x] by linarith
  then have hi: "(of_nat (unat x div 16) :: byte) = drop_bit 4 x"
    by (simp add: word_unat_eq_iff unat_of_nat drop_bit_eq_div unat_div_distrib)
  have lo: "(of_nat (unat x mod 16) :: byte) = take_bit 4 x"
    by (simp add: word_unat_eq_iff unat_of_nat unat_mod_distrib take_bit_eq_mod)
  show ?thesis
    unfolding hi lo by (rule bit_word_eqI) (auto simp: bit_simps)
qed

lemma nibbles_value:
  assumes "h < 16" and "l < 16"
  shows "push_bit 4 (of_nat h) OR of_nat l = (of_nat (16 * h + l) :: byte)"
proof -
  let ?x = "of_nat (16 * h + l) :: byte"
  have "unat ?x = 16 * h + l"
    using assms by (intro unat_of_nat_byte) simp
  then have "unat ?x div 16 = h" and "unat ?x mod 16 = l"
    using assms by auto
  then show ?thesis
    using nibbles_recombine [of ?x] by simp
qed

text \<open>The letters \<open>a\<close> to \<open>f\<close> in upper case, every other character as it is.\<close>

definition hex_upper :: "char \<Rightarrow> char" where
  "hex_upper c =
     (let n = (of_char c :: nat) in if 97 \<le> n \<and> n \<le> 102 then char_of (n - 32) else c)"

lemma ascii_digit16_bound: "ascii_digit16 c = Some v \<Longrightarrow> v < 16"
  by (auto simp: ascii_digit16_def Let_def split: if_splits)

lemma hex_digit_upper_of_digit:
  "ascii_digit16 c = Some v \<Longrightarrow> hex_digit_upper v = hex_upper c"
  by (auto simp: ascii_digit16_def hex_digit_upper_def hex_upper_def Let_def char_of_eq_iff
      take_bit_eq_mod split: if_splits)

lemma of_char_hex_digit_upper:
  "d < 16 \<Longrightarrow> (of_char (hex_digit_upper d) :: nat) = (if d < 10 then 48 + d else 55 + d)"
  by (simp add: hex_digit_upper_def)

lemma ascii_digit16_hex_digit_upper [simp]:
  "d < 16 \<Longrightarrow> ascii_digit16 (hex_digit_upper d) = Some d"
  by (simp add: ascii_digit16_def Let_def of_char_hex_digit_upper)

lemma to_digit16_Some: "to_digit16 c = Some v \<longleftrightarrow> (\<exists>x. c = [x] \<and> ascii_digit16 x = Some v)"
  by (auto simp: to_digit16_def split: list.splits)

lemma hex_nibble_simps:
  "to_digit16 c = Some v \<Longrightarrow> hex_nibble c = Inr (of_nat v)"
  "to_digit16 c = None \<Longrightarrow> hex_nibble c = Inl (NotHex c)"
  by (simp_all add: hex_nibble_def)

text \<open>The reference decoder: one byte for every two digits of the text.\<close>

fun hex_value :: "string \<Rightarrow> bytes" where
  "hex_value (x # y # zs) =
     of_nat (16 * the (ascii_digit16 x) + the (ascii_digit16 y)) # hex_value zs"
| "hex_value _ = []"

text \<open>
  What \<open>collect\<close> yields, by the first character that is no digit; a chunk that is one
  short panics only when every character is a digit.
\<close>

lemma collect_chunks_bad:
  "find (\<lambda>c. to_digit16 c = None) cs = Some c \<Longrightarrow>
     collect_chunks (chunks2 cs) = Ret (Inl (NotHex c))"
proof (induction cs rule: chunks2.induct)
  case (3 x y zs)
  show ?case
  proof (cases "to_digit16 x")
    case None
    with "3.prems" show ?thesis by (simp add: hex_nibble_simps)
  next
    case (Some v)
    with 3 show ?thesis
      by (cases "to_digit16 y") (simp_all add: hex_nibble_simps)
  qed
qed (auto simp: hex_nibble_simps split: if_splits)

lemma collect_chunks_good:
  "\<forall>x \<in> set s. ascii_digit16 x \<noteq> None \<Longrightarrow> even (length s) \<Longrightarrow>
     collect_chunks (chunks2 (map (\<lambda>x. [x]) s)) = Ret (Inr (hex_value s))"
proof (induction s rule: hex_value.induct)
  case (1 x y zs)
  then obtain h l where h: "ascii_digit16 x = Some h" and l: "ascii_digit16 y = Some l"
    by auto
  then have "to_digit16 [x] = Some h" and "to_digit16 [y] = Some l"
    by (simp_all add: to_digit16_def)
  with 1 h l show ?case
    by (simp add: hex_nibble_simps nibbles_value ascii_digit16_bound)
qed auto

lemma digits_are_single:
  "\<forall>c \<in> set cs. to_digit16 c \<noteq> None \<Longrightarrow> cs = map (\<lambda>x. [x]) (concat cs)"
  by (induction cs) (auto simp: to_digit16_Some)

lemma digits_of_text:
  assumes "find (\<lambda>c. to_digit16 c = None) (chars_of s) = None"
  shows "chars_of s = map (\<lambda>x. [x]) s" and "\<forall>x \<in> set s. ascii_digit16 x \<noteq> None"
proof -
  have all: "\<forall>c \<in> set (chars_of s). to_digit16 c \<noteq> None"
    using assms by (auto simp: find_None_iff)
  then show eq: "chars_of s = map (\<lambda>x. [x]) s"
    using digits_are_single [OF all] by simp
  show "\<forall>x \<in> set s. ascii_digit16 x \<noteq> None"
    using all unfolding eq by (auto simp: to_digit16_def)
qed

lemma find_none_all: "find P xs = None \<longleftrightarrow> (\<forall>x \<in> set xs. \<not> P x)"
  by (auto simp: find_None_iff)

lemma from_hex_eq:
  "from_hex s =
     Ret (if odd (length s) then Inl (OddLength (length s))
          else case find (\<lambda>c. to_digit16 c = None) (chars_of s) of
                 Some c \<Rightarrow> Inl (NotHex c)
               | None \<Rightarrow> Inr (hex_value s))"
proof (cases "odd (length s)")
  case True
  then show ?thesis by (simp add: from_hex_def)
next
  case even: False
  show ?thesis
  proof (cases "find (\<lambda>c. to_digit16 c = None) (chars_of s)")
    case None
    note digits = digits_of_text [OF None]
    have "collect_chunks (chunks2 (chars_of s)) = Ret (Inr (hex_value s))"
      using collect_chunks_good [OF digits(2)] even unfolding digits(1) by simp
    with even None show ?thesis by (simp add: from_hex_def)
  next
    case (Some c)
    with even show ?thesis
      by (simp add: from_hex_def collect_chunks_bad)
  qed
qed

lemma from_hex_not_Panic [simp]: "from_hex s \<noteq> Panic"
  by (simp add: from_hex_eq)

definition is_hex :: "char \<Rightarrow> bool" where
  "is_hex c \<longleftrightarrow> ascii_digit16 c \<noteq> None"

lemma digit_not_cont: "is_hex c \<Longrightarrow> \<not> is_cont c"
  by (auto simp: is_hex_def ascii_digit16_def is_cont_def Let_def split: if_splits)

lemma chars_of_digits:
  "list_all is_hex s \<Longrightarrow> chars_of s = map (\<lambda>x. [x]) s"
proof (induction s)
  case (Cons x xs)
  then have "takeWhile is_cont xs = []" and "dropWhile is_cont xs = xs"
    by (cases xs; simp add: digit_not_cont)+
  with Cons show ?case by simp
qed simp

lemma from_hex_digits:
  assumes "even (length s)" and "list_all is_hex s"
  shows "from_hex s = Ret (Inr (hex_value s))"
proof -
  have "find (\<lambda>c. to_digit16 c = None) (chars_of s) = None"
    using assms(2) by (auto simp: chars_of_digits find_none_all to_digit16_def list_all_iff is_hex_def)
  with assms(1) show ?thesis by (simp add: from_hex_eq)
qed

lemma from_hex_InrD:
  assumes "from_hex s = Ret (Inr b)"
  shows "even (length s)" and "list_all is_hex s" and "b = hex_value s"
proof -
  from assms have ev: "even (length s)"
    and none: "find (\<lambda>c. to_digit16 c = None) (chars_of s) = None" and b: "b = hex_value s"
    by (auto simp: from_hex_eq split: if_splits option.splits)
  show "even (length s)" and "b = hex_value s" by fact+
  show "list_all is_hex s"
    using digits_of_text(2) [OF none] by (simp add: list_all_iff is_hex_def)
qed

lemma hex_byte_upper_of_nibbles:
  assumes "ascii_digit16 x = Some h" and "ascii_digit16 y = Some l"
  shows "hex_byte_upper (of_nat (16 * h + l)) = [hex_upper x, hex_upper y]"
proof -
  have "h < 16" and "l < 16"
    using assms by (auto dest: ascii_digit16_bound)
  then have "unat (of_nat (16 * h + l) :: byte) = 16 * h + l"
    by (intro unat_of_nat_byte) simp
  with \<open>l < 16\<close> assms show ?thesis
    by (simp add: hex_byte_upper_def hex_digit_upper_of_digit)
qed

lemma to_hex_upper_hex_value:
  "list_all is_hex s \<Longrightarrow> even (length s) \<Longrightarrow>
     to_hex_upper (hex_value s) = map hex_upper s"
  by (induction s rule: hex_value.induct)
    (auto simp: to_hex_upper_def is_hex_def hex_byte_upper_of_nibbles
      simp del: of_nat_add of_nat_mult)

lemma to_hex_upper_digits: "list_all is_hex (to_hex_upper b)"
  by (induction b) (auto simp: to_hex_upper_def hex_byte_upper_def is_hex_def)

lemma length_to_hex_upper [simp]: "length (to_hex_upper b) = 2 * length b"
  by (induction b) (auto simp: to_hex_upper_def hex_byte_upper_def)

lemma hex_value_to_hex_upper [simp]: "hex_value (to_hex_upper b) = b"
proof (induction b)
  case (Cons x xs)
  have "(of_nat (16 * (unat x div 16) + unat x mod 16) :: byte) = x"
    by simp
  with Cons show ?case by (simp add: to_hex_upper_def hex_byte_upper_def)
qed (simp add: to_hex_upper_def)

lemma from_hex_to_hex_upper [simp]: "from_hex (to_hex_upper b) = Ret (Inr b)"
  by (simp add: from_hex_digits to_hex_upper_digits)

lemma is_hex_hex_upper [simp]: "is_hex (hex_upper c) = is_hex c"
  by (auto simp: is_hex_def ascii_digit16_def hex_upper_def Let_def)

lemma hex_upper_idem [simp]: "d < 16 \<Longrightarrow> hex_upper (hex_digit_upper d) = hex_digit_upper d"
  by (simp add: hex_upper_def Let_def of_char_hex_digit_upper)

lemma map_hex_upper_to_hex_upper [simp]: "map hex_upper (to_hex_upper b) = to_hex_upper b"
  by (induction b) (auto simp: to_hex_upper_def hex_byte_upper_def)

section \<open>The contract of a field adapter\<close>

text \<open>
  serde's \<open>#[serde(with = "..")]\<close> takes a pair of functions; a struct survives its trip
  through JSON when every pair it uses decodes what it encodes.
\<close>

locale field_codec =
  fixes ser :: "'a \<Rightarrow> json" and de :: "json \<Rightarrow> (de_error + 'a) outcome"
  assumes round_trip: "de (ser v) = Ret (Inr v)"
begin

lemma required_field_found:
  "field_values k obj = [ser v] \<Longrightarrow> required_field de k obj = Ret (Some v)"
  by (simp add: required_field_def round_trip)

lemma ser_inj: "ser v = ser w \<Longrightarrow> v = w"
  by (metis outcome.inject round_trip sum.inject(2))

end

interpretation hex_codec: field_codec hex_serialize hex_deserialize
  by unfold_locales (simp add: hex_serialize_def hex_deserialize_def)

interpretation str_codec: field_codec string_serialize string_deserialize
  by unfold_locales (simp add: string_serialize_def string_deserialize_def)

lemma b64_field_codec:
  "b64_lawful B \<Longrightarrow> field_codec (b64_serialize B) (b64_deserialize B)"
  by unfold_locales (simp add: b64_lawful_def b64_serialize_def b64_deserialize_def)

lemmas b64_required_field_found = field_codec.required_field_found [OF b64_field_codec]

lemma hex_deserialize_not_Panic [simp]: "hex_deserialize v \<noteq> Panic"
  by (auto simp: hex_deserialize_def from_hex_eq split: json.splits sum.splits)

lemma b64_deserialize_not_Panic [simp]: "b64_deserialize B v \<noteq> Panic"
  by (auto simp: b64_deserialize_def split: json.splits sum.splits)

lemma string_deserialize_not_Panic [simp]: "string_deserialize v \<noteq> Panic"
  by (auto simp: string_deserialize_def split: json.splits)

lemma required_field_not_Panic:
  assumes "\<And>v. de v \<noteq> Panic"
  shows "required_field de k obj \<noteq> Panic"
proof -
  have "outcome_bind (de v) (\<lambda>r. Ret (ok r)) \<noteq> Panic" for v
    using assms [of v] by (cases "de v") auto
  then show ?thesis
    by (simp add: required_field_def split: list.splits)
qed

lemma with_field_not_Panic:
  "m \<noteq> Panic \<Longrightarrow> (\<And>a. f a \<noteq> Panic) \<Longrightarrow> with_field m f \<noteq> Panic"
  by (cases "(m, f)" rule: with_field.cases) auto

section \<open>Properties\<close>

text \<open>
  C28: the hexadecimal decoder equals its reference. An odd number of bytes is refused with
  that number, the first Rust character that is no digit is the one reported, and otherwise
  the result is one byte per two digits; no input, multi-byte characters included, makes the
  chunk indexing panic.
\<close>

theorem from_hex_reference:
  "from_hex s =
     Ret (if odd (length s) then Inl (OddLength (length s))
          else case find (\<lambda>c. to_digit16 c = None) (chars_of s) of
                 Some c \<Rightarrow> Inl (NotHex c)
               | None \<Rightarrow> Inr (hex_value s))"
  by (rule from_hex_eq)

text \<open>
  The decoder accepts exactly the case variants of the encoder's output: a text decodes
  to the bytes \<open>b\<close> if and only if putting its letters in upper case gives the encoding of
  \<open>b\<close>. In particular every encoding decodes to what was encoded.
\<close>

theorem hex_round_trip:
  "from_hex (to_hex_upper b) = Ret (Inr b)
   \<and> (from_hex s = Ret (Inr b) \<longleftrightarrow> map hex_upper s = to_hex_upper b)"
proof (intro conjI iffI)
  show "from_hex (to_hex_upper b) = Ret (Inr b)" by simp
  show "map hex_upper s = to_hex_upper b" if "from_hex s = Ret (Inr b)"
    using from_hex_InrD [OF that] by (simp add: to_hex_upper_hex_value)
  show "from_hex s = Ret (Inr b)" if up: "map hex_upper s = to_hex_upper b"
  proof -
    have "list_all is_hex (map hex_upper s)"
      using to_hex_upper_digits [of b] up by simp
    then have digits: "list_all is_hex s"
      by (simp add: list.pred_map o_def)
    have "even (length s)"
      using arg_cong [OF up, of length] by simp
    with digits have "from_hex s = Ret (Inr (hex_value s))"
      and "to_hex_upper (hex_value s) = to_hex_upper b"
      using up by (simp_all add: from_hex_digits to_hex_upper_hex_value)
    then show ?thesis
      using hex_value_to_hex_upper by metis
  qed
qed

end
