(* ===== verification/Es9.thy ===== *)
theory Es9
  imports Wire
begin

text \<open>
  \<open>crates/smdp/src/es9/mod.rs\<close>: the bodies of the ES9+ JSON binding. Each struct is a
  record with the source's fields in the source's order; \<open>*_to_json\<close> is what the derived
  \<open>Serialize\<close> writes under the struct's serde attributes (\<open>rename_all\<close>,
  \<open>rename\<close>, \<open>with\<close>, \<open>skip_serializing_if\<close>), \<open>*_of_json\<close> what the
  derived \<open>Deserialize\<close> reads from the members of a JSON object. A \<open>None\<close> result of
  a reader is a serde error, for which axum rejects the request before any handler runs.
\<close>

section \<open>Status header\<close>

definition ADMIN_PROTOCOL :: string where
  "ADMIN_PROTOCOL = ''gsma/rsp/v2.6.0''"

datatype execution_status = ExecutedSuccess | ExecutedWithWarning | Failed_status | Expired

fun execution_status_to_json :: "execution_status \<Rightarrow> json" where
  "execution_status_to_json ExecutedSuccess = JStr ''Executed-Success''"
| "execution_status_to_json ExecutedWithWarning = JStr ''Executed-WithWarning''"
| "execution_status_to_json Failed_status = JStr ''Failed''"
| "execution_status_to_json Expired = JStr ''Expired''"

record status_code_data =
  subject_code :: string
  reason_code :: string
  subject_identifier :: "string option"
  message :: "string option"

text \<open>\<open>skip_serializing_if = "Option::is_none"\<close> leaves the member out.\<close>

definition optional_member :: "string \<Rightarrow> ('a \<Rightarrow> json) \<Rightarrow> 'a option \<Rightarrow> (string \<times> json) list" where
  "optional_member k ser v = (case v of None \<Rightarrow> [] | Some a \<Rightarrow> [(k, ser a)])"

definition status_code_data_to_json :: "status_code_data \<Rightarrow> json" where
  "status_code_data_to_json d = JObj (
     [(''subjectCode'', JStr (subject_code d)), (''reasonCode'', JStr (reason_code d))]
     @ optional_member ''subjectIdentifier'' JStr (subject_identifier d)
     @ optional_member ''message'' JStr (message d))"

record function_execution_status =
  fes_status :: execution_status
  fes_status_code_data :: "status_code_data option"

definition function_execution_status_to_json :: "function_execution_status \<Rightarrow> json" where
  "function_execution_status_to_json s = JObj (
     [(''status'', execution_status_to_json (fes_status s))]
     @ optional_member ''statusCodeData'' status_code_data_to_json (fes_status_code_data s))"

record response_header =
  function_execution_status :: function_execution_status

definition response_header_to_json :: "response_header \<Rightarrow> json" where
  "response_header_to_json h = JObj
     [(''functionExecutionStatus'',
       function_execution_status_to_json (function_execution_status h))]"

definition header_success :: response_header where
  "header_success = \<lparr> function_execution_status =
     \<lparr> fes_status = ExecutedSuccess, fes_status_code_data = None \<rparr> \<rparr>"

definition header_failed :: "string \<Rightarrow> string \<Rightarrow> string \<Rightarrow> response_header" where
  "header_failed subject reason msg = \<lparr> function_execution_status =
     \<lparr> fes_status = Failed_status,
       fes_status_code_data = Some
         \<lparr> subject_code = subject, reason_code = reason,
           subject_identifier = None, message = Some msg \<rparr> \<rparr> \<rparr>"

section \<open>Responses\<close>

record failure_response =
  fr_header :: response_header

definition failure_response_to_json :: "failure_response \<Rightarrow> json" where
  "failure_response_to_json r = JObj [(''header'', response_header_to_json (fr_header r))]"

record initiate_authentication_response =
  iar_header :: response_header
  iar_transaction_id :: bytes
  iar_server_signed1 :: bytes
  iar_server_signature1 :: bytes
  iar_euicc_ci_pkid_to_be_used :: bytes
  iar_server_certificate :: bytes

definition initiate_response_to_json ::
  "b64_engine \<Rightarrow> initiate_authentication_response \<Rightarrow> json" where
  "initiate_response_to_json B r = JObj
     [(''header'', response_header_to_json (iar_header r)),
      (''transactionId'', hex_serialize (iar_transaction_id r)),
      (''serverSigned1'', b64_serialize B (iar_server_signed1 r)),
      (''serverSignature1'', b64_serialize B (iar_server_signature1 r)),
      (''euiccCiPKIdToBeUsed'', b64_serialize B (iar_euicc_ci_pkid_to_be_used r)),
      (''serverCertificate'', b64_serialize B (iar_server_certificate r))]"

record authenticate_client_response =
  acr_header :: response_header
  acr_transaction_id :: bytes
  acr_profile_metadata :: bytes
  acr_smdp_signed2 :: bytes
  acr_smdp_signature2 :: bytes
  acr_smdp_certificate :: bytes

definition authenticate_response_to_json ::
  "b64_engine \<Rightarrow> authenticate_client_response \<Rightarrow> json" where
  "authenticate_response_to_json B r = JObj
     [(''header'', response_header_to_json (acr_header r)),
      (''transactionId'', hex_serialize (acr_transaction_id r)),
      (''profileMetadata'', b64_serialize B (acr_profile_metadata r)),
      (''smdpSigned2'', b64_serialize B (acr_smdp_signed2 r)),
      (''smdpSignature2'', b64_serialize B (acr_smdp_signature2 r)),
      (''smdpCertificate'', b64_serialize B (acr_smdp_certificate r))]"

record get_bound_profile_package_response =
  gbr_header :: response_header
  gbr_transaction_id :: bytes
  gbr_bound_profile_package :: bytes

definition bound_package_response_to_json ::
  "b64_engine \<Rightarrow> get_bound_profile_package_response \<Rightarrow> json" where
  "bound_package_response_to_json B r = JObj
     [(''header'', response_header_to_json (gbr_header r)),
      (''transactionId'', hex_serialize (gbr_transaction_id r)),
      (''boundProfilePackage'', b64_serialize B (gbr_bound_profile_package r))]"

section \<open>Requests\<close>

record initiate_authentication_request =
  irq_euicc_challenge :: bytes
  irq_euicc_info1 :: bytes
  irq_smdp_address :: string

definition initiate_request_to_json ::
  "b64_engine \<Rightarrow> initiate_authentication_request \<Rightarrow> json" where
  "initiate_request_to_json B r = JObj
     [(''euiccChallenge'', b64_serialize B (irq_euicc_challenge r)),
      (''euiccInfo1'', b64_serialize B (irq_euicc_info1 r)),
      (''smdpAddress'', string_serialize (irq_smdp_address r))]"

definition initiate_request_of_json ::
  "b64_engine \<Rightarrow> (string \<times> json) list \<Rightarrow> initiate_authentication_request option outcome" where
  "initiate_request_of_json B obj =
     with_field (required_field (b64_deserialize B) ''euiccChallenge'' obj) (\<lambda>c.
     with_field (required_field (b64_deserialize B) ''euiccInfo1'' obj) (\<lambda>i.
     with_field (required_field string_deserialize ''smdpAddress'' obj) (\<lambda>a.
       Ret (Some \<lparr> irq_euicc_challenge = c, irq_euicc_info1 = i, irq_smdp_address = a \<rparr>))))"

record authenticate_client_request =
  arq_transaction_id :: bytes
  arq_authenticate_server_response :: bytes
  arq_use_matching_id_for_acr :: "bool option"

definition authenticate_request_to_json ::
  "b64_engine \<Rightarrow> authenticate_client_request \<Rightarrow> json" where
  "authenticate_request_to_json B r = JObj (
     [(''transactionId'', hex_serialize (arq_transaction_id r)),
      (''authenticateServerResponse'', b64_serialize B (arq_authenticate_server_response r))]
     @ optional_member ''useMatchingIdForAcr'' JBool (arq_use_matching_id_for_acr r))"

text \<open>\<open>#[serde(default)] Option<bool>\<close>: absent and \<open>null\<close> both read as \<open>None\<close>.\<close>

definition optional_bool_field :: "string \<Rightarrow> (string \<times> json) list \<Rightarrow> bool option option outcome" where
  "optional_bool_field k obj =
     (case field_values k obj of
        [] \<Rightarrow> Ret (Some None)
      | [JNull] \<Rightarrow> Ret (Some None)
      | [JBool b] \<Rightarrow> Ret (Some (Some b))
      | _ \<Rightarrow> Ret None)"

definition authenticate_request_of_json ::
  "b64_engine \<Rightarrow> (string \<times> json) list \<Rightarrow> authenticate_client_request option outcome" where
  "authenticate_request_of_json B obj =
     with_field (required_field hex_deserialize ''transactionId'' obj) (\<lambda>t.
     with_field (required_field (b64_deserialize B) ''authenticateServerResponse'' obj) (\<lambda>a.
     with_field (optional_bool_field ''useMatchingIdForAcr'' obj) (\<lambda>u.
       Ret (Some \<lparr> arq_transaction_id = t, arq_authenticate_server_response = a,
                  arq_use_matching_id_for_acr = u \<rparr>))))"

record get_bound_profile_package_request =
  grq_transaction_id :: bytes
  grq_prepare_download_response :: bytes

definition bound_package_request_to_json ::
  "b64_engine \<Rightarrow> get_bound_profile_package_request \<Rightarrow> json" where
  "bound_package_request_to_json B r = JObj
     [(''transactionId'', hex_serialize (grq_transaction_id r)),
      (''prepareDownloadResponse'', b64_serialize B (grq_prepare_download_response r))]"

definition bound_package_request_of_json ::
  "b64_engine \<Rightarrow> (string \<times> json) list \<Rightarrow> get_bound_profile_package_request option outcome" where
  "bound_package_request_of_json B obj =
     with_field (required_field hex_deserialize ''transactionId'' obj) (\<lambda>t.
     with_field (required_field (b64_deserialize B) ''prepareDownloadResponse'' obj) (\<lambda>p.
       Ret (Some \<lparr> grq_transaction_id = t, grq_prepare_download_response = p \<rparr>)))"

record handle_notification_request =
  hrq_pending_notification :: bytes

definition notification_request_to_json ::
  "b64_engine \<Rightarrow> handle_notification_request \<Rightarrow> json" where
  "notification_request_to_json B r = JObj
     [(''pendingNotification'', b64_serialize B (hrq_pending_notification r))]"

definition notification_request_of_json ::
  "b64_engine \<Rightarrow> (string \<times> json) list \<Rightarrow> handle_notification_request option outcome" where
  "notification_request_of_json B obj =
     with_field (required_field (b64_deserialize B) ''pendingNotification'' obj) (\<lambda>p.
       Ret (Some \<lparr> hrq_pending_notification = p \<rparr>))"

section \<open>Reading requests back\<close>

lemma field_values_Cons:
  "field_values k ((k', v) # obj) = (if k' = k then v # field_values k obj else field_values k obj)"
  by (simp add: field_values_def)

lemma field_values_Nil [simp]: "field_values k [] = []"
  by (simp add: field_values_def)

lemmas read_fields =
  field_values_Cons b64_required_field_found hex_codec.required_field_found
  str_codec.required_field_found

lemma initiate_request_round_trip:
  assumes "b64_lawful B" and "initiate_request_to_json B r = JObj obj"
  shows "initiate_request_of_json B obj = Ret (Some r)"
  using assms by (cases r)
    (auto simp: initiate_request_to_json_def initiate_request_of_json_def read_fields)

lemma authenticate_request_round_trip:
  assumes "b64_lawful B" and "authenticate_request_to_json B r = JObj obj"
  shows "authenticate_request_of_json B obj = Ret (Some r)"
  using assms by (cases r; cases "arq_use_matching_id_for_acr r")
    (auto simp: authenticate_request_to_json_def authenticate_request_of_json_def read_fields
      optional_member_def optional_bool_field_def)

lemma bound_package_request_round_trip:
  assumes "b64_lawful B" and "bound_package_request_to_json B r = JObj obj"
  shows "bound_package_request_of_json B obj = Ret (Some r)"
  using assms by (cases r)
    (auto simp: bound_package_request_to_json_def bound_package_request_of_json_def read_fields)

lemma notification_request_round_trip:
  assumes "b64_lawful B" and "notification_request_to_json B r = JObj obj"
  shows "notification_request_of_json B obj = Ret (Some r)"
  using assms by (cases r)
    (auto simp: notification_request_to_json_def notification_request_of_json_def read_fields)

text \<open>No body makes a reader panic: the only indexing is in the hexadecimal decoder.\<close>

lemma optional_bool_field_not_Panic [simp]: "optional_bool_field k obj \<noteq> Panic"
  by (simp add: optional_bool_field_def split: list.split json.split)

lemmas readers_not_Panic =
  required_field_not_Panic [OF hex_deserialize_not_Panic]
  required_field_not_Panic [OF b64_deserialize_not_Panic]
  required_field_not_Panic [OF string_deserialize_not_Panic]

lemma initiate_request_not_Panic [simp]: "initiate_request_of_json B obj \<noteq> Panic"
  unfolding initiate_request_of_json_def
  by (intro with_field_not_Panic readers_not_Panic) simp

lemma authenticate_request_not_Panic [simp]: "authenticate_request_of_json B obj \<noteq> Panic"
  unfolding authenticate_request_of_json_def
  by (intro with_field_not_Panic readers_not_Panic) simp_all

lemma bound_package_request_not_Panic [simp]: "bound_package_request_of_json B obj \<noteq> Panic"
  unfolding bound_package_request_of_json_def
  by (intro with_field_not_Panic readers_not_Panic) simp

lemma notification_request_not_Panic [simp]: "notification_request_of_json B obj \<noteq> Panic"
  unfolding notification_request_of_json_def
  by (intro with_field_not_Panic readers_not_Panic) simp

text \<open>The members of an object; a value of another kind has none.\<close>

fun json_members :: "json \<Rightarrow> (string \<times> json) list option" where
  "json_members (JObj obj) = Some obj"
| "json_members _ = None"

section \<open>Properties\<close>

text \<open>
  C29: what an LPA serializes, the server reads back unchanged, for each of the four ES9+
  requests: the transactionId through hexadecimal, every other payload through base64, and the
  optional \<open>useMatchingIdForAcr\<close> whether it is present or left out. The base64 engine is
  only assumed to decode what it encodes.
\<close>

theorem requests_survive_json:
  assumes "b64_lawful B"
  shows "map_option (initiate_request_of_json B) (json_members (initiate_request_to_json B i))
           = Some (Ret (Some i))
       \<and> map_option (authenticate_request_of_json B) (json_members (authenticate_request_to_json B a))
           = Some (Ret (Some a))
       \<and> map_option (bound_package_request_of_json B) (json_members (bound_package_request_to_json B g))
           = Some (Ret (Some g))
       \<and> map_option (notification_request_of_json B) (json_members (notification_request_to_json B n))
           = Some (Ret (Some n))"
proof (intro conjI)
  show "map_option (initiate_request_of_json B) (json_members (initiate_request_to_json B i))
      = Some (Ret (Some i))"
    using initiate_request_round_trip [OF assms] by (simp add: initiate_request_to_json_def)
  show "map_option (authenticate_request_of_json B) (json_members (authenticate_request_to_json B a))
      = Some (Ret (Some a))"
    using authenticate_request_round_trip [OF assms] by (simp add: authenticate_request_to_json_def)
  show "map_option (bound_package_request_of_json B) (json_members (bound_package_request_to_json B g))
      = Some (Ret (Some g))"
    using bound_package_request_round_trip [OF assms] by (simp add: bound_package_request_to_json_def)
  show "map_option (notification_request_of_json B) (json_members (notification_request_to_json B n))
      = Some (Ret (Some n))"
    using notification_request_round_trip [OF assms] by (simp add: notification_request_to_json_def)
qed

text \<open>An engine that obeys the law: hexadecimal in the place of base64.\<close>

definition hex_engine :: b64_engine where
  "hex_engine =
     \<lparr> b64_encode = to_hex_upper,
       b64_decode = (\<lambda>s. case from_hex s of Ret (Inr b) \<Rightarrow> Inr b | _ \<Rightarrow> Inl ''no'') \<rparr>"

lemma hex_engine_lawful: "b64_lawful hex_engine"
  by (simp add: b64_lawful_def hex_engine_def)

theorem requests_survive_json_witness:
  "b64_lawful hex_engine
   \<and> map_option (notification_request_of_json hex_engine)
       (json_members (notification_request_to_json hex_engine
          \<lparr> hrq_pending_notification = [0xbf, 0x37] \<rparr>))
     = Some (Ret (Some \<lparr> hrq_pending_notification = [0xbf, 0x37] \<rparr>))"
  using hex_engine_lawful
    requests_survive_json [OF hex_engine_lawful, where n = "\<lparr> hrq_pending_notification = [0xbf, 0x37] \<rparr>"]
  by blast

end
