(* ===== verification/Store.thy ===== *)
theory Store
  imports Prelude
begin

text \<open>
  \<open>crates/smdp/src/store/mod.rs\<close>: orders, notifications, errors and the \<open>Store\<close>
  trait. A trait object \<open>dyn Store\<close> is a record of its methods over a store state
  \<open>'st\<close>, and the locale \<open>lawful_store\<close> is the contract its clients (the service, the
  handlers, the command line) rely on: what every method does to the list of orders and the
  list of notifications, whatever errors the provider may report.
\<close>

section \<open>Order states\<close>

datatype order_state = Available | Bound | Downloaded | Failed

fun as_str :: "order_state \<Rightarrow> string" where
  "as_str Available = ''available''"
| "as_str Bound = ''bound''"
| "as_str Downloaded = ''downloaded''"
| "as_str Failed = ''failed''"

text \<open>The derived \<open>Debug\<close> output, which the order listing prints.\<close>

fun debug_order_state :: "order_state \<Rightarrow> string" where
  "debug_order_state Available = ''Available''"
| "debug_order_state Bound = ''Bound''"
| "debug_order_state Downloaded = ''Downloaded''"
| "debug_order_state Failed = ''Failed''"

text \<open>
  The states in the order a download passes through them; the class instance lets the
  library's \<open>linorder\<close> facts apply to them.
\<close>

fun order_state_rank :: "order_state \<Rightarrow> nat" where
  "order_state_rank Available = 0"
| "order_state_rank Bound = 1"
| "order_state_rank Downloaded = 2"
| "order_state_rank Failed = 3"

instantiation order_state :: linorder
begin

definition less_eq_order_state :: "order_state \<Rightarrow> order_state \<Rightarrow> bool" where
  "less_eq_order_state s t \<longleftrightarrow> order_state_rank s \<le> order_state_rank t"

definition less_order_state :: "order_state \<Rightarrow> order_state \<Rightarrow> bool" where
  "less_order_state s t \<longleftrightarrow> order_state_rank s < order_state_rank t"

instance
proof
  fix s t :: order_state
  show "s \<le> t \<Longrightarrow> t \<le> s \<Longrightarrow> s = t"
    by (cases s; cases t) (auto simp: less_eq_order_state_def)
qed (auto simp: less_eq_order_state_def less_order_state_def)

end

section \<open>Errors\<close>

text \<open>
  \<open>rusqlite::Error\<close>: the one code the store tells apart, and every other error by its
  text.
\<close>

datatype db_error = ConstraintViolation | OtherError string

fun display_db_error :: "db_error \<Rightarrow> string" where
  "display_db_error ConstraintViolation = ''constraint failed''"
| "display_db_error (OtherError t) = t"

datatype store_error =
    Db db_error
  | DuplicateMatchingId string
  | UnknownState string
  | SchemaTooNew int
  | MalformedIccid nat

fun display_store_error :: "store_error \<Rightarrow> string" where
  "display_store_error (Db e) = ''database: '' @ display_db_error e"
| "display_store_error (DuplicateMatchingId m) = ''MatchingID already exists: '' @ m"
| "display_store_error (UnknownState s) = ''unknown order state: '' @ s"
| "display_store_error (SchemaTooNew v) =
     ''this database has schema version '' @ show_int v @ ''; this server understands 2''"
| "display_store_error (MalformedIccid n) =
     ''stored ICCID is '' @ show_nat n @ '' bytes, expected 10''"

definition parse_order_state :: "string \<Rightarrow> store_error + order_state" where
  "parse_order_state s =
     (if s = ''available'' then Inr Available
      else if s = ''bound'' then Inr Bound
      else if s = ''downloaded'' then Inr Downloaded
      else if s = ''failed'' then Inr Failed
      else Inl (UnknownState s))"

lemma parse_as_str [simp]: "parse_order_state (as_str s) = Inr s"
  by (cases s) (simp_all add: parse_order_state_def)

lemma parse_order_state_Inr: "parse_order_state t = Inr s \<longleftrightarrow> t = as_str s"
  by (cases s) (auto simp: parse_order_state_def)

lemma range_as_str: "range as_str = {''available'', ''bound'', ''downloaded'', ''failed''}"
proof
  show "range as_str \<subseteq> {''available'', ''bound'', ''downloaded'', ''failed''}"
  proof
    fix t assume "t \<in> range as_str"
    then obtain s where "t = as_str s" by blast
    then show "t \<in> {''available'', ''bound'', ''downloaded'', ''failed''}"
      by (cases s) simp_all
  qed
  show "{''available'', ''bound'', ''downloaded'', ''failed''} \<subseteq> range as_str"
    using rangeI [of as_str Available] rangeI [of as_str Bound]
      rangeI [of as_str Downloaded] rangeI [of as_str Failed] by simp
qed

lemma parse_order_state_Inl:
  "parse_order_state t = Inl e \<longleftrightarrow> e = UnknownState t \<and> t \<notin> range as_str"
  by (auto simp: parse_order_state_def range_as_str)

section \<open>Orders and notifications\<close>

text \<open>An ICCID is a \<open>[u8; 10]\<close>; row identifiers are SQLite's 64-bit row ids.\<close>

record order_t =
  ord_id :: int
  ord_matching_id :: string
  ord_iccid :: bytes
  ord_upp :: bytes
  ord_metadata :: bytes
  ord_state :: order_state
  ord_eid :: "string option"
  ord_euicc_cert :: "bytes option"

record new_order =
  no_matching_id :: string
  no_iccid :: bytes
  no_upp :: bytes
  no_metadata :: bytes

record new_notification =
  nn_verified :: bool
  nn_order_id :: "int option"
  nn_seq_number :: int
  nn_operation :: int
  nn_iccid :: "bytes option"
  nn_installed :: "bool option"
  nn_raw :: bytes

record stored_notification =
  sn_id :: int
  sn_verified :: bool
  sn_order_id :: "int option"
  sn_seq_number :: int
  sn_operation :: int
  sn_installed :: "bool option"
  sn_raw :: bytes

section \<open>The Store trait\<close>

record 'st store_ops =
  add_order :: "'st \<Rightarrow> new_order \<Rightarrow> 'st \<times> (store_error + order_t)"
  list_orders :: "'st \<Rightarrow> store_error + order_t list"
  order_by_matching_id :: "'st \<Rightarrow> string \<Rightarrow> store_error + order_t option"
  order_by_iccid :: "'st \<Rightarrow> bytes \<Rightarrow> store_error + order_t option"
  bind_euicc :: "'st \<Rightarrow> int \<Rightarrow> string \<Rightarrow> bytes \<Rightarrow> 'st \<times> (store_error + unit)"
  set_state :: "'st \<Rightarrow> int \<Rightarrow> order_state \<Rightarrow> 'st \<times> (store_error + unit)"
  record_notification :: "'st \<Rightarrow> new_notification \<Rightarrow> 'st \<times> (store_error + unit)"
  notifications :: "'st \<Rightarrow> store_error + stored_notification list"

section \<open>The abstract store\<close>

text \<open>
  What the trait promises, stated over plain lists: the orders in the order they were added
  and the notifications in the order they arrived. A method that reports an error has done
  nothing.
\<close>

definition fresh_id :: "int list \<Rightarrow> int" where
  "fresh_id is = (if is = [] then 1 else Max (set is) + 1)"

definition new_order_at :: "int \<Rightarrow> new_order \<Rightarrow> order_t" where
  "new_order_at i n =
     \<lparr> ord_id = i, ord_matching_id = no_matching_id n, ord_iccid = no_iccid n,
       ord_upp = no_upp n, ord_metadata = no_metadata n, ord_state = Available,
       ord_eid = None, ord_euicc_cert = None \<rparr>"

definition update_order :: "int \<Rightarrow> (order_t \<Rightarrow> order_t) \<Rightarrow> order_t list \<Rightarrow> order_t list" where
  "update_order i f os = map (\<lambda>x. if ord_id x = i then f x else x) os"

definition stored_at :: "int \<Rightarrow> new_notification \<Rightarrow> stored_notification" where
  "stored_at i n =
     \<lparr> sn_id = i, sn_verified = nn_verified n, sn_order_id = nn_order_id n,
       sn_seq_number = nn_seq_number n, sn_operation = nn_operation n,
       sn_installed = nn_installed n, sn_raw = nn_raw n \<rparr>"

lemma fresh_id_greater: "i \<in> set is \<Longrightarrow> i < fresh_id is"
  by (auto simp: fresh_id_def zle_add1_eq_le)

lemma ids_update_order [simp]:
  "(\<And>x. ord_id (f x) = ord_id x) \<Longrightarrow> map ord_id (update_order i f os) = map ord_id os"
  by (induction os) (auto simp: update_order_def)

text \<open>The contract of a provider, with every method's effect on the two lists.\<close>

locale lawful_store =
  fixes S :: "'st store_ops"
    and inv :: "'st \<Rightarrow> bool"
    and orders_of :: "'st \<Rightarrow> order_t list"
    and notifs_of :: "'st \<Rightarrow> stored_notification list"
  assumes ids_distinct: "inv st \<Longrightarrow> distinct (map ord_id (orders_of st))"
    and matching_ids_distinct: "inv st \<Longrightarrow> distinct (map ord_matching_id (orders_of st))"
    and list_orders_Inr: "inv st \<Longrightarrow> list_orders S st = Inr xs \<Longrightarrow> xs = orders_of st"
    and by_matching_id_Inr:
      "inv st \<Longrightarrow> order_by_matching_id S st m = Inr r \<Longrightarrow>
         r = find (\<lambda>x. ord_matching_id x = m) (orders_of st)"
    and by_iccid_Inr:
      "inv st \<Longrightarrow> order_by_iccid S st ic = Inr r \<Longrightarrow>
         r = find (\<lambda>x. ord_iccid x = ic) (orders_of st)"
    and notifications_Inr: "inv st \<Longrightarrow> notifications S st = Inr ns \<Longrightarrow> ns = notifs_of st"
    and add_order_Inl:
      "inv st \<Longrightarrow> add_order S st n = (st', Inl e) \<Longrightarrow>
         inv st' \<and> orders_of st' = orders_of st \<and> notifs_of st' = notifs_of st"
    and add_order_Inr:
      "inv st \<Longrightarrow> length (no_iccid n) = 10 \<Longrightarrow> add_order S st n = (st', Inr x) \<Longrightarrow>
         inv st' \<and> notifs_of st' = notifs_of st \<and> orders_of st' = orders_of st @ [x]
         \<and> no_matching_id n \<notin> set (map ord_matching_id (orders_of st))
         \<and> (\<exists>i. i \<notin> set (map ord_id (orders_of st)) \<and> x = new_order_at i n)"
    and bind_euicc_effect:
      "inv st \<Longrightarrow> bind_euicc S st k eid cert = (st', u) \<Longrightarrow>
         inv st' \<and> notifs_of st' = notifs_of st
         \<and> orders_of st' =
             (case u of
                Inl _ \<Rightarrow> orders_of st
              | Inr _ \<Rightarrow> update_order k (\<lambda>x. x\<lparr>ord_eid := Some eid, ord_euicc_cert := Some cert\<rparr>)
                          (orders_of st))"
    and set_state_effect:
      "inv st \<Longrightarrow> set_state S st k s = (st', u) \<Longrightarrow>
         inv st' \<and> notifs_of st' = notifs_of st
         \<and> orders_of st' =
             (case u of
                Inl _ \<Rightarrow> orders_of st
              | Inr _ \<Rightarrow> update_order k (\<lambda>x. x\<lparr>ord_state := s\<rparr>) (orders_of st))"
    and record_notification_effect:
      "inv st \<Longrightarrow> record_notification S st nt = (st', u) \<Longrightarrow>
         inv st' \<and> orders_of st' = orders_of st
         \<and> (case u of
              Inl _ \<Rightarrow> notifs_of st' = notifs_of st
            | Inr _ \<Rightarrow> (\<exists>i. i \<notin> set (map sn_id (notifs_of st))
                          \<and> notifs_of st' = notifs_of st @ [stored_at i nt]))"

end
