(* ===== verification/Sqlite.thy ===== *)
theory Sqlite
  imports Store
begin

text \<open>
  \<open>crates/smdp/src/store/sqlite.rs\<close>: the SQLite provider of the \<open>Store\<close> trait and
  the schema migration. A connection is the database file as the code sees it: the schema
  version, the two tables (absent or present, the notifications table with or without its
  \<open>verified\<close> column), and which statement the database currently fails with which error.
  A statement that fails changes nothing; every statement of the source is one definition with
  the meaning SQL gives it, and rows are kept in row-id order. Columns hold values of the types
  this code writes, so a column read fails only together with its statement.
\<close>

section \<open>Tables and connections\<close>

record order_row =
  r_id :: int
  r_matching_id :: string
  r_iccid :: bytes
  r_upp :: bytes
  r_metadata :: bytes
  r_state :: string
  r_eid :: "string option"
  r_euicc_cert :: "bytes option"

record notification_row =
  q_id :: int
  q_order_id :: "int option"
  q_seq_number :: int
  q_operation :: int
  q_iccid :: "bytes option"
  q_installed :: "int option"
  q_verified :: int
  q_raw :: bytes

record notification_table =
  has_verified :: bool
  q_rows :: "notification_row list"

datatype sql_stmt =
    OpenConnection
  | ReadVersion | CountNotificationTables
  | CreateOrders | CreateIndex | CreateNotifications
  | AlterNotifications | StampVersion
  | InsertOrder | SelectOrders | SelectOneOrder
  | UpdateEuicc | UpdateState
  | InsertNotification | SelectNotifications

record conn =
  user_version :: int
  orders_tab :: "order_row list option"
  notifications_tab :: "notification_table option"
  faults :: "sql_stmt \<Rightarrow> string option"

definition SCHEMA_VERSION :: int where
  "SCHEMA_VERSION = 2"

text \<open>A file that does not exist yet, or \<open>open_in_memory\<close>.\<close>

definition empty_conn :: "(sql_stmt \<Rightarrow> string option) \<Rightarrow> conn" where
  "empty_conn f =
     \<lparr> user_version = 0, orders_tab = None, notifications_tab = None, faults = f \<rparr>"

text \<open>Run a statement unless the database fails it now.\<close>

definition run_stmt :: "conn \<Rightarrow> sql_stmt \<Rightarrow> (conn \<Rightarrow> conn \<times> (db_error + 'a)) \<Rightarrow> conn \<times> (db_error + 'a)" where
  "run_stmt c s body = (case faults c s of Some t \<Rightarrow> (c, Inl (OtherError t)) | None \<Rightarrow> body c)"

definition read_stmt :: "conn \<Rightarrow> sql_stmt \<Rightarrow> (db_error + 'a) \<Rightarrow> db_error + 'a" where
  "read_stmt c s body = (case faults c s of Some t \<Rightarrow> Inl (OtherError t) | None \<Rightarrow> body)"

text \<open>\<open>map_err(StoreError::Db)?\<close> in a function that changes the connection.\<close>

fun db_then ::
  "conn \<times> (db_error + 'a) \<Rightarrow> ('a \<Rightarrow> conn \<Rightarrow> conn \<times> (store_error + 'b)) \<Rightarrow> conn \<times> (store_error + 'b)"
where
  "db_then (c, Inl e) k = (c, Inl (Db e))"
| "db_then (c, Inr a) k = k a c"

section \<open>Schema and migration\<close>

definition create_orders :: "conn \<Rightarrow> conn \<times> (db_error + unit)" where
  "create_orders c = run_stmt c CreateOrders (\<lambda>c.
     (case orders_tab c of
        None \<Rightarrow> (c\<lparr>orders_tab := Some []\<rparr>, Inr ())
      | Some _ \<Rightarrow> (c, Inr ())))"

definition create_index :: "conn \<Rightarrow> conn \<times> (db_error + unit)" where
  "create_index c = run_stmt c CreateIndex (\<lambda>c.
     (case orders_tab c of
        None \<Rightarrow> (c, Inl (OtherError ''no such table: main.orders''))
      | Some _ \<Rightarrow> (c, Inr ())))"

definition create_notifications :: "conn \<Rightarrow> conn \<times> (db_error + unit)" where
  "create_notifications c = run_stmt c CreateNotifications (\<lambda>c.
     (case notifications_tab c of
        None \<Rightarrow> (c\<lparr>notifications_tab := Some \<lparr> has_verified = True, q_rows = [] \<rparr>\<rparr>, Inr ())
      | Some _ \<Rightarrow> (c, Inr ())))"

text \<open>\<open>execute_batch(SCHEMA)\<close>: statement by statement, stopping at the first error.\<close>

definition exec_schema :: "conn \<Rightarrow> conn \<times> (db_error + unit)" where
  "exec_schema c =
     (case create_orders c of
        (c1, Inl e) \<Rightarrow> (c1, Inl e)
      | (c1, Inr _) \<Rightarrow>
          (case create_index c1 of
             (c2, Inl e) \<Rightarrow> (c2, Inl e)
           | (c2, Inr _) \<Rightarrow> create_notifications c2))"

text \<open>\<open>ADD COLUMN verified INTEGER NOT NULL DEFAULT 1\<close>: every row there is gets 1.\<close>

definition alter_notifications :: "conn \<Rightarrow> conn \<times> (db_error + unit)" where
  "alter_notifications c = run_stmt c AlterNotifications (\<lambda>c.
     (case notifications_tab c of
        None \<Rightarrow> (c, Inl (OtherError ''no such table: notifications''))
      | Some t \<Rightarrow>
          if has_verified t then (c, Inl (OtherError ''duplicate column name: verified''))
          else (c\<lparr>notifications_tab := Some
                    \<lparr> has_verified = True,
                      q_rows = map (\<lambda>r. r\<lparr>q_verified := 1\<rparr>) (q_rows t) \<rparr>\<rparr>, Inr ())))"

definition stamp_version :: "conn \<Rightarrow> conn \<times> (db_error + unit)" where
  "stamp_version c = run_stmt c StampVersion (\<lambda>c. (c\<lparr>user_version := SCHEMA_VERSION\<rparr>, Inr ()))"

definition read_version :: "conn \<Rightarrow> db_error + int" where
  "read_version c = read_stmt c ReadVersion (Inr (user_version c))"

definition count_notification_tables :: "conn \<Rightarrow> db_error + int" where
  "count_notification_tables c = read_stmt c CountNotificationTables
     (Inr (if notifications_tab c = None then 0 else 1))"

definition migrate :: "conn \<Rightarrow> conn \<times> (store_error + unit)" where
  "migrate c =
     db_then (c, read_version c) (\<lambda>version c.
       if version = 0 then
         db_then (c, count_notification_tables c) (\<lambda>existing c.
           db_then (if existing = 0 then exec_schema c else alter_notifications c) (\<lambda>_ c.
             db_then (stamp_version c) (\<lambda>_ c. (c, Inr ()))))
       else if version > SCHEMA_VERSION then (c, Inl (SchemaTooNew version))
       else db_then (stamp_version c) (\<lambda>_ c. (c, Inr ())))"

text \<open>
  \<open>SqliteStore::open\<close> and \<open>in_memory\<close>, which both end in \<open>prepare\<close>. The store is
  the connection behind a mutex; no statement panics, so that mutex is never poisoned.
\<close>

definition sqlite_open :: "conn \<Rightarrow> conn \<times> (store_error + unit)" where
  "sqlite_open c = db_then (run_stmt c OpenConnection (\<lambda>c. (c, Inr ()))) (\<lambda>_ c. migrate c)"

section \<open>Rows to orders\<close>

definition row_to_order :: "order_row \<Rightarrow> store_error + order_t" where
  "row_to_order row =
     (if length (r_iccid row) \<noteq> 10 then Inl (MalformedIccid (length (r_iccid row)))
      else (case parse_order_state (r_state row) of
              Inl e \<Rightarrow> Inl e
            | Inr s \<Rightarrow> Inr \<lparr> ord_id = r_id row, ord_matching_id = r_matching_id row,
                            ord_iccid = r_iccid row, ord_upp = r_upp row,
                            ord_metadata = r_metadata row, ord_state = s,
                            ord_eid = r_eid row, ord_euicc_cert = r_euicc_cert row \<rparr>))"

fun collect_orders :: "order_row list \<Rightarrow> store_error + order_t list" where
  "collect_orders [] = Inr []"
| "collect_orders (r # rs) =
     (case row_to_order r of
        Inl e \<Rightarrow> Inl e
      | Inr x \<Rightarrow> (case collect_orders rs of Inl e \<Rightarrow> Inl e | Inr xs \<Rightarrow> Inr (x # xs)))"

definition order_rows :: "conn \<Rightarrow> db_error + order_row list" where
  "order_rows c =
     (case orders_tab c of
        None \<Rightarrow> Inl (OtherError ''no such table: orders'')
      | Some rows \<Rightarrow> Inr (sort_key r_id rows))"

text \<open>
  \<open>SqliteStore::one\<close>: \<open>query_row\<close> takes the first row. SQL leaves open which that is
  when several match; SQLite walks the table or the ICCID index in row-id order.
\<close>

definition one :: "conn \<Rightarrow> (order_row \<Rightarrow> bool) \<Rightarrow> store_error + order_t option" where
  "one c where_clause =
     (case read_stmt c SelectOneOrder (order_rows c) of
        Inl e \<Rightarrow> Inl (Db e)
      | Inr rows \<Rightarrow>
          (case find where_clause rows of
             None \<Rightarrow> Inr None
           | Some r \<Rightarrow> (case row_to_order r of Inl e \<Rightarrow> Inl e | Inr x \<Rightarrow> Inr (Some x))))"

section \<open>The Store methods\<close>

definition order_row_of :: "int \<Rightarrow> new_order \<Rightarrow> order_row" where
  "order_row_of i n =
     \<lparr> r_id = i, r_matching_id = no_matching_id n, r_iccid = no_iccid n, r_upp = no_upp n,
       r_metadata = no_metadata n, r_state = as_str Available, r_eid = None,
       r_euicc_cert = None \<rparr>"

definition insert_order :: "conn \<Rightarrow> new_order \<Rightarrow> conn \<times> (db_error + int)" where
  "insert_order c n = run_stmt c InsertOrder (\<lambda>c.
     (case orders_tab c of
        None \<Rightarrow> (c, Inl (OtherError ''no such table: orders''))
      | Some rows \<Rightarrow>
          if no_matching_id n \<in> set (map r_matching_id rows) then (c, Inl ConstraintViolation)
          else (let i = fresh_id (map r_id rows) in
                (c\<lparr>orders_tab := Some (rows @ [order_row_of i n])\<rparr>, Inr i))))"

definition sqlite_add_order :: "conn \<Rightarrow> new_order \<Rightarrow> conn \<times> (store_error + order_t)" where
  "sqlite_add_order c new =
     (case insert_order c new of
        (c', Inl ConstraintViolation) \<Rightarrow> (c', Inl (DuplicateMatchingId (no_matching_id new)))
      | (c', Inl e) \<Rightarrow> (c', Inl (Db e))
      | (c', Inr last_insert_rowid) \<Rightarrow>
          (c', Inr \<lparr> ord_id = last_insert_rowid, ord_matching_id = no_matching_id new,
                     ord_iccid = no_iccid new, ord_upp = no_upp new,
                     ord_metadata = no_metadata new, ord_state = Available,
                     ord_eid = None, ord_euicc_cert = None \<rparr>))"

definition sqlite_list_orders :: "conn \<Rightarrow> store_error + order_t list" where
  "sqlite_list_orders c =
     (case read_stmt c SelectOrders (order_rows c) of
        Inl e \<Rightarrow> Inl (Db e)
      | Inr rows \<Rightarrow> collect_orders rows)"

definition sqlite_order_by_matching_id :: "conn \<Rightarrow> string \<Rightarrow> store_error + order_t option" where
  "sqlite_order_by_matching_id c i = one c (\<lambda>r. r_matching_id r = i)"

definition sqlite_order_by_iccid :: "conn \<Rightarrow> bytes \<Rightarrow> store_error + order_t option" where
  "sqlite_order_by_iccid c iccid = one c (\<lambda>r. r_iccid r = iccid)"

definition update_rows :: "conn \<Rightarrow> sql_stmt \<Rightarrow> int \<Rightarrow> (order_row \<Rightarrow> order_row) \<Rightarrow> conn \<times> (db_error + unit)" where
  "update_rows c s i f = run_stmt c s (\<lambda>c.
     (case orders_tab c of
        None \<Rightarrow> (c, Inl (OtherError ''no such table: orders''))
      | Some rows \<Rightarrow>
          (c\<lparr>orders_tab := Some (map (\<lambda>r. if r_id r = i then f r else r) rows)\<rparr>, Inr ())))"

definition sqlite_bind_euicc ::
  "conn \<Rightarrow> int \<Rightarrow> string \<Rightarrow> bytes \<Rightarrow> conn \<times> (store_error + unit)"
where
  "sqlite_bind_euicc c order eid euicc_cert =
     db_then (update_rows c UpdateEuicc order
               (\<lambda>r. r\<lparr>r_eid := Some eid, r_euicc_cert := Some euicc_cert\<rparr>))
       (\<lambda>_ c. (c, Inr ()))"

definition sqlite_set_state :: "conn \<Rightarrow> int \<Rightarrow> order_state \<Rightarrow> conn \<times> (store_error + unit)" where
  "sqlite_set_state c order state =
     db_then (update_rows c UpdateState order (\<lambda>r. r\<lparr>r_state := as_str state\<rparr>))
       (\<lambda>_ c. (c, Inr ()))"

definition i64_of_bool :: "bool \<Rightarrow> int" where
  "i64_of_bool b = (if b then 1 else 0)"

definition notification_row_of :: "int \<Rightarrow> new_notification \<Rightarrow> notification_row" where
  "notification_row_of i n =
     \<lparr> q_id = i, q_order_id = nn_order_id n, q_seq_number = nn_seq_number n,
       q_operation = nn_operation n, q_iccid = nn_iccid n,
       q_installed = map_option i64_of_bool (nn_installed n),
       q_verified = i64_of_bool (nn_verified n), q_raw = nn_raw n \<rparr>"

definition sqlite_record_notification ::
  "conn \<Rightarrow> new_notification \<Rightarrow> conn \<times> (store_error + unit)"
where
  "sqlite_record_notification c n =
     db_then (run_stmt c InsertNotification (\<lambda>c.
       (case notifications_tab c of
          None \<Rightarrow> (c, Inl (OtherError ''no such table: notifications''))
        | Some t \<Rightarrow>
            if \<not> has_verified t
            then (c, Inl (OtherError ''table notifications has no column named verified''))
            else (let i = fresh_id (map q_id (q_rows t)) in
                  (c\<lparr>notifications_tab :=
                       Some (t\<lparr>q_rows := q_rows t @ [notification_row_of i n]\<rparr>)\<rparr>, Inr ())))))
       (\<lambda>_ c. (c, Inr ()))"

definition row_to_notification :: "notification_row \<Rightarrow> stored_notification" where
  "row_to_notification r =
     \<lparr> sn_id = q_id r, sn_verified = (q_verified r \<noteq> 0), sn_order_id = q_order_id r,
       sn_seq_number = q_seq_number r, sn_operation = q_operation r,
       sn_installed = map_option (\<lambda>v. v \<noteq> 0) (q_installed r), sn_raw = q_raw r \<rparr>"

definition sqlite_notifications :: "conn \<Rightarrow> store_error + stored_notification list" where
  "sqlite_notifications c =
     (case read_stmt c SelectNotifications
             (case notifications_tab c of
                None \<Rightarrow> Inl (OtherError ''no such table: notifications'')
              | Some t \<Rightarrow>
                  if has_verified t then Inr (sort_key q_id (q_rows t))
                  else Inl (OtherError ''no such column: verified'')) of
        Inl e \<Rightarrow> Inl (Db e)
      | Inr rows \<Rightarrow> Inr (map row_to_notification rows))"

definition sqlite_store :: "conn store_ops" where
  "sqlite_store =
     \<lparr> add_order = sqlite_add_order, list_orders = sqlite_list_orders,
       order_by_matching_id = sqlite_order_by_matching_id,
       order_by_iccid = sqlite_order_by_iccid, bind_euicc = sqlite_bind_euicc,
       set_state = sqlite_set_state, record_notification = sqlite_record_notification,
       notifications = sqlite_notifications \<rparr>"

section \<open>The invariant and the abstraction\<close>

definition row_ok :: "order_row \<Rightarrow> bool" where
  "row_ok r \<longleftrightarrow> length (r_iccid r) = 10 \<and> ok (parse_order_state (r_state r)) \<noteq> None"

definition order_of_row :: "order_row \<Rightarrow> order_t" where
  "order_of_row r =
     \<lparr> ord_id = r_id r, ord_matching_id = r_matching_id r, ord_iccid = r_iccid r,
       ord_upp = r_upp r, ord_metadata = r_metadata r,
       ord_state = the (ok (parse_order_state (r_state r))),
       ord_eid = r_eid r, ord_euicc_cert = r_euicc_cert r \<rparr>"

definition db_rows :: "conn \<Rightarrow> order_row list" where
  "db_rows c = (case orders_tab c of None \<Rightarrow> [] | Some rows \<Rightarrow> rows)"

definition db_qrows :: "conn \<Rightarrow> notification_row list" where
  "db_qrows c = (case notifications_tab c of None \<Rightarrow> [] | Some t \<Rightarrow> q_rows t)"

text \<open>
  A database this version of the code can work with: both tables in their current form, rows
  in strictly increasing row-id order, MatchingIDs unique, every order row readable.
\<close>

definition db_inv :: "conn \<Rightarrow> bool" where
  "db_inv c \<longleftrightarrow>
     user_version c = SCHEMA_VERSION \<and> orders_tab c \<noteq> None
     \<and> (case notifications_tab c of None \<Rightarrow> False | Some t \<Rightarrow> has_verified t)
     \<and> sorted_wrt (<) (map r_id (db_rows c)) \<and> distinct (map r_matching_id (db_rows c))
     \<and> list_all row_ok (db_rows c) \<and> sorted_wrt (<) (map q_id (db_qrows c))"

definition db_orders :: "conn \<Rightarrow> order_t list" where
  "db_orders c = map order_of_row (db_rows c)"

definition db_notifications :: "conn \<Rightarrow> stored_notification list" where
  "db_notifications c = map row_to_notification (db_qrows c)"

lemma row_to_order_ok: "row_ok r \<Longrightarrow> row_to_order r = Inr (order_of_row r)"
  by (cases "parse_order_state (r_state r)")
    (simp_all add: row_to_order_def row_ok_def order_of_row_def)

lemma row_to_order_Inl:
  "row_to_order r = Inl e \<longleftrightarrow>
     (length (r_iccid r) \<noteq> 10 \<and> e = MalformedIccid (length (r_iccid r)))
     \<or> (length (r_iccid r) = 10 \<and> r_state r \<notin> range as_str \<and> e = UnknownState (r_state r))"
proof (cases "parse_order_state (r_state r)")
  case (Inl e')
  then have "e' = UnknownState (r_state r)" and "r_state r \<notin> range as_str"
    by (auto simp only: parse_order_state_Inl)
  with Inl show ?thesis by (auto simp: row_to_order_def)
next
  case (Inr s)
  then have "r_state r \<in> range as_str"
    by (auto simp only: parse_order_state_Inr)
  with Inr show ?thesis by (auto simp: row_to_order_def)
qed

lemma collect_orders_ok: "list_all row_ok rs \<Longrightarrow> collect_orders rs = Inr (map order_of_row rs)"
  by (induction rs) (simp_all add: row_to_order_ok)

lemma order_of_row_simps [simp]:
  "ord_id (order_of_row r) = r_id r"
  "ord_matching_id (order_of_row r) = r_matching_id r"
  "ord_iccid (order_of_row r) = r_iccid r"
  "ord_upp (order_of_row r) = r_upp r"
  "ord_metadata (order_of_row r) = r_metadata r"
  "ord_eid (order_of_row r) = r_eid r"
  "ord_euicc_cert (order_of_row r) = r_euicc_cert r"
  by (simp_all add: order_of_row_def)

lemma ids_db_orders [simp]: "map ord_id (db_orders c) = map r_id (db_rows c)"
  by (simp add: db_orders_def)

lemma matching_ids_db_orders [simp]:
  "map ord_matching_id (db_orders c) = map r_matching_id (db_rows c)"
  by (simp add: db_orders_def)

lemma db_inv_rows:
  assumes "db_inv c"
  shows "orders_tab c = Some (db_rows c)" and "sort_key r_id (db_rows c) = db_rows c"
    and "list_all row_ok (db_rows c)"
  using assms by (auto simp: db_inv_def db_rows_def sort_key_id)

lemma db_inv_notifications:
  assumes "db_inv c"
  obtains t where "notifications_tab c = Some t" and "has_verified t"
    and "q_rows t = db_qrows c" and "sort_key q_id (q_rows t) = q_rows t"
  using assms by (auto simp: db_inv_def db_qrows_def sort_key_id split: option.splits)

lemma order_rows_ok: "db_inv c \<Longrightarrow> order_rows c = Inr (db_rows c)"
  by (simp add: order_rows_def db_inv_rows)

lemma find_map_order_of_row:
  "(\<And>r. P (order_of_row r) = Q r) \<Longrightarrow>
     find P (map order_of_row rs) = map_option order_of_row (find Q rs)"
  by (induction rs) auto

lemma one_Inr:
  assumes "db_inv c" and "one c Q = Inr res" and "\<And>r. P (order_of_row r) = Q r"
  shows "res = find P (db_orders c)"
proof -
  have *: "find P (db_orders c) = map_option order_of_row (find Q (db_rows c))"
    unfolding db_orders_def by (rule find_map_order_of_row) (rule assms(3))
  have ok: "row_ok r" if "find Q (db_rows c) = Some r" for r
    using that db_inv_rows(3) [OF assms(1)]
    by (metis find_Some_iff list_all_length)
  show ?thesis
    using assms(1,2) unfolding *
    by (auto simp: one_def read_stmt_def order_rows_ok row_to_order_ok ok
        split: option.splits sum.splits)
qed

section \<open>Every statement keeps the invariant\<close>

lemma db_inv_set_rows:
  assumes "db_inv c" and "sorted_wrt (<) (map r_id rows)"
    and "distinct (map r_matching_id rows)" and "list_all row_ok rows"
  shows "db_inv (c\<lparr>orders_tab := Some rows\<rparr>)"
  using assms by (simp add: db_inv_def db_rows_def db_qrows_def)

lemma db_views_set_rows [simp]:
  "db_rows (c\<lparr>orders_tab := Some rows\<rparr>) = rows"
  "db_orders (c\<lparr>orders_tab := Some rows\<rparr>) = map order_of_row rows"
  "db_notifications (c\<lparr>orders_tab := Some rows\<rparr>) = db_notifications c"
  by (simp_all add: db_rows_def db_orders_def db_notifications_def db_qrows_def)

lemma update_rows_effect:
  assumes inv: "db_inv c"
    and id: "\<And>r. r_id (f r) = r_id r" and mid: "\<And>r. r_matching_id (f r) = r_matching_id r"
    and good: "\<And>r. row_ok r \<Longrightarrow> row_ok (f r)"
    and abs: "\<And>r. order_of_row (f r) = g (order_of_row r)"
    and run: "update_rows c s i f = (c', u)"
  shows "db_inv c' \<and> db_notifications c' = db_notifications c
    \<and> db_orders c' = (case u of Inl _ \<Rightarrow> db_orders c | Inr _ \<Rightarrow> update_order i g (db_orders c))"
proof (cases "faults c s")
  case (Some t)
  with run inv show ?thesis by (auto simp: update_rows_def run_stmt_def)
next
  case None
  let ?rows = "map (\<lambda>r. if r_id r = i then f r else r) (db_rows c)"
  have c': "c' = c\<lparr>orders_tab := Some ?rows\<rparr>" and u: "u = Inr ()"
    using run None by (simp_all add: update_rows_def run_stmt_def db_inv_rows(1) [OF inv])
  have "list_all row_ok ?rows"
    using db_inv_rows(3) [OF inv] good by (auto simp: list_all_iff)
  moreover have "map r_id ?rows = map r_id (db_rows c)"
    and "map r_matching_id ?rows = map r_matching_id (db_rows c)"
    by (auto simp: id mid)
  moreover have "sorted_wrt (<) (map r_id (db_rows c))"
    and "distinct (map r_matching_id (db_rows c))"
    using inv by (simp_all add: db_inv_def)
  ultimately have "db_inv c'"
    using inv unfolding c' by (intro db_inv_set_rows) (simp_all only:)
  moreover have "map order_of_row ?rows = update_order i g (db_orders c)"
    by (simp add: update_order_def db_orders_def abs)
  ultimately show ?thesis
    unfolding c' u by simp
qed

lemma db_then_Inr [simp]:
  "db_then p (\<lambda>_ c. (c, Inr ())) =
     (fst p, case snd p of Inl e \<Rightarrow> Inl (Db e) | Inr _ \<Rightarrow> Inr ())"
  by (cases p; cases "snd p") auto

lemma sqlite_bind_euicc_effect:
  assumes "db_inv c" and "sqlite_bind_euicc c k e cert = (c', u)"
  shows "db_inv c' \<and> db_notifications c' = db_notifications c
    \<and> db_orders c' = (case u of Inl _ \<Rightarrow> db_orders c
        | Inr _ \<Rightarrow> update_order k (\<lambda>x. x\<lparr>ord_eid := Some e, ord_euicc_cert := Some cert\<rparr>)
                     (db_orders c))"
proof -
  let ?f = "\<lambda>r. r\<lparr>r_eid := Some e, r_euicc_cert := Some cert\<rparr>"
  obtain c1 u1 where run: "update_rows c UpdateEuicc k ?f = (c1, u1)" by force
  then have "c' = c1" and "u = (case u1 of Inl e \<Rightarrow> Inl (Db e) | Inr _ \<Rightarrow> Inr ())"
    using assms(2) by (auto simp: sqlite_bind_euicc_def)
  moreover note update_rows_effect [OF assms(1) _ _ _ _ run,
      of "\<lambda>x. x\<lparr>ord_eid := Some e, ord_euicc_cert := Some cert\<rparr>"]
  ultimately show ?thesis
    by (auto simp: order_of_row_def row_ok_def split: sum.splits)
qed

lemma sqlite_set_state_effect:
  assumes "db_inv c" and "sqlite_set_state c k s = (c', u)"
  shows "db_inv c' \<and> db_notifications c' = db_notifications c
    \<and> db_orders c' = (case u of Inl _ \<Rightarrow> db_orders c
        | Inr _ \<Rightarrow> update_order k (\<lambda>x. x\<lparr>ord_state := s\<rparr>) (db_orders c))"
proof -
  let ?f = "\<lambda>r. r\<lparr>r_state := as_str s\<rparr>"
  obtain c1 u1 where run: "update_rows c UpdateState k ?f = (c1, u1)" by force
  then have "c' = c1" and "u = (case u1 of Inl e \<Rightarrow> Inl (Db e) | Inr _ \<Rightarrow> Inr ())"
    using assms(2) by (auto simp: sqlite_set_state_def)
  moreover note update_rows_effect [OF assms(1) _ _ _ _ run, of "\<lambda>x. x\<lparr>ord_state := s\<rparr>"]
  ultimately show ?thesis
    by (auto simp: order_of_row_def row_ok_def split: sum.splits)
qed

lemma order_of_row_of [simp]: "order_of_row (order_row_of i n) = new_order_at i n"
  by (simp add: order_of_row_def order_row_of_def new_order_at_def
      del: as_str.simps)

lemma sqlite_add_order_eq:
  assumes "db_inv c"
  shows "sqlite_add_order c n =
    (case faults c InsertOrder of
       Some t \<Rightarrow> (c, Inl (Db (OtherError t)))
     | None \<Rightarrow>
         if no_matching_id n \<in> set (map ord_matching_id (db_orders c))
         then (c, Inl (DuplicateMatchingId (no_matching_id n)))
         else (let i = fresh_id (map ord_id (db_orders c)) in
               (c\<lparr>orders_tab := Some (db_rows c @ [order_row_of i n])\<rparr>,
                Inr (new_order_at i n))))"
  by (simp add: sqlite_add_order_def insert_order_def run_stmt_def db_inv_rows(1) [OF assms]
      new_order_at_def Let_def split: option.splits)

lemma sqlite_add_order_effect:
  assumes inv: "db_inv c" and len: "length (no_iccid n) = 10"
    and run: "sqlite_add_order c n = (c', Inr x)"
  shows "db_inv c' \<and> db_notifications c' = db_notifications c
    \<and> db_orders c' = db_orders c @ [x]
    \<and> no_matching_id n \<notin> set (map ord_matching_id (db_orders c))
    \<and> (\<exists>i. i \<notin> set (map ord_id (db_orders c)) \<and> x = new_order_at i n)"
proof -
  let ?ids = "map r_id (db_rows c)"
  let ?i = "fresh_id ?ids"
  let ?rows = "db_rows c @ [order_row_of ?i n]"
  have c': "c' = c\<lparr>orders_tab := Some ?rows\<rparr>" and x: "x = new_order_at ?i n"
    and new: "no_matching_id n \<notin> set (map r_matching_id (db_rows c))"
    using run unfolding sqlite_add_order_eq [OF inv]
    by (auto simp: Let_def split: option.splits if_splits)
  have below: "\<forall>j \<in> set ?ids. j < ?i"
    using fresh_id_greater by blast
  have fields: "r_id (order_row_of ?i n) = ?i"
      "r_matching_id (order_row_of ?i n) = no_matching_id n" "row_ok (order_row_of ?i n)"
    using len by (simp_all add: order_row_of_def row_ok_def del: as_str.simps)
  have "db_inv c'"
    unfolding c'
  proof (rule db_inv_set_rows [OF inv])
    show "sorted_wrt (<) (map r_id ?rows)"
      using inv below by (simp add: db_inv_def fields strictly_sorted_snoc)
    show "distinct (map r_matching_id ?rows)"
      using inv new by (simp add: db_inv_def fields)
    show "list_all row_ok ?rows"
      using inv by (simp add: db_inv_def fields)
  qed
  moreover have "?i \<notin> set ?ids"
    using below by blast
  ultimately show ?thesis
    using new unfolding x by (auto simp: c' db_orders_def)
qed

lemma sqlite_add_order_Inl:
  assumes "db_inv c" and "sqlite_add_order c n = (c', Inl e)"
  shows "c' = c"
  using assms(2) unfolding sqlite_add_order_eq [OF assms(1)]
  by (auto simp: Let_def split: option.splits if_splits)

lemma i64_of_bool_nonzero [simp]: "(i64_of_bool b \<noteq> 0) = b"
  by (simp add: i64_of_bool_def)

lemma row_to_notification_of [simp]: "row_to_notification (notification_row_of i n) = stored_at i n"
  by (simp add: row_to_notification_def notification_row_of_def stored_at_def
      option.map_comp o_def option.map_ident)

lemma sqlite_record_notification_effect:
  assumes inv: "db_inv c" and run: "sqlite_record_notification c n = (c', u)"
  shows "db_inv c' \<and> db_orders c' = db_orders c
    \<and> (case u of
         Inl _ \<Rightarrow> db_notifications c' = db_notifications c
       | Inr _ \<Rightarrow> (\<exists>i. i \<notin> set (map sn_id (db_notifications c))
                     \<and> db_notifications c' = db_notifications c @ [stored_at i n]))"
proof (cases "faults c InsertNotification")
  case (Some t)
  with inv run show ?thesis
    by (auto simp: sqlite_record_notification_def run_stmt_def)
next
  case None
  obtain t where t: "notifications_tab c = Some t" "has_verified t" "q_rows t = db_qrows c"
    using db_inv_notifications [OF inv] by metis
  let ?ids = "map q_id (db_qrows c)"
  let ?i = "fresh_id ?ids"
  let ?rows = "db_qrows c @ [notification_row_of ?i n]"
  have c': "c' = c\<lparr>notifications_tab := Some (t\<lparr>q_rows := ?rows\<rparr>)\<rparr>" and u: "u = Inr ()"
    using run None t by (simp_all add: sqlite_record_notification_def run_stmt_def Let_def)
  have below: "\<forall>j \<in> set ?ids. j < ?i"
    using fresh_id_greater by blast
  have rows: "db_qrows c' = ?rows" and orders: "db_rows c' = db_rows c"
    unfolding c' by (simp_all add: db_qrows_def db_rows_def)
  have "q_id (notification_row_of ?i n) = ?i"
    by (simp add: notification_row_of_def)
  then have "sorted_wrt (<) (map q_id (db_qrows c'))"
    using inv below by (simp add: db_inv_def rows strictly_sorted_snoc)
  then have "db_inv c'"
    using inv t unfolding db_inv_def orders by (simp add: c')
  moreover have "db_notifications c' = db_notifications c @ [stored_at ?i n]"
    by (simp add: db_notifications_def rows)
  moreover have "?i \<notin> set (map sn_id (db_notifications c))"
    using below by (auto simp: db_notifications_def row_to_notification_def)
  ultimately show ?thesis
    unfolding u using orders by (auto simp: db_orders_def)
qed

section \<open>The provider keeps the contract of the trait\<close>

lemma sqlite_store_simps [simp]:
  "add_order sqlite_store = sqlite_add_order"
  "list_orders sqlite_store = sqlite_list_orders"
  "order_by_matching_id sqlite_store = sqlite_order_by_matching_id"
  "order_by_iccid sqlite_store = sqlite_order_by_iccid"
  "bind_euicc sqlite_store = sqlite_bind_euicc"
  "set_state sqlite_store = sqlite_set_state"
  "record_notification sqlite_store = sqlite_record_notification"
  "notifications sqlite_store = sqlite_notifications"
  by (simp_all add: sqlite_store_def)

lemma sqlite_list_orders_eq:
  "db_inv c \<Longrightarrow> sqlite_list_orders c =
     (case faults c SelectOrders of
        Some t \<Rightarrow> Inl (Db (OtherError t)) | None \<Rightarrow> Inr (db_orders c))"
  by (simp add: sqlite_list_orders_def read_stmt_def order_rows_ok collect_orders_ok
      db_inv_rows db_orders_def split: option.split)

lemma sqlite_notifications_eq:
  assumes "db_inv c"
  shows "sqlite_notifications c =
     (case faults c SelectNotifications of
        Some t \<Rightarrow> Inl (Db (OtherError t)) | None \<Rightarrow> Inr (db_notifications c))"
proof -
  obtain t where "notifications_tab c = Some t" "has_verified t" "q_rows t = db_qrows c"
    "sort_key q_id (q_rows t) = q_rows t"
    using db_inv_notifications [OF assms] .
  then show ?thesis
    by (simp add: sqlite_notifications_def read_stmt_def db_notifications_def
        split: option.split)
qed

interpretation sqlite: lawful_store sqlite_store db_inv db_orders db_notifications
proof (unfold_locales, goal_cases)
  case (1 st)
  then show ?case by (auto simp: db_inv_def strictly_sorted_distinct)
next
  case (2 st)
  then show ?case by (simp add: db_inv_def)
next
  case (3 st xs)
  then show ?case by (auto simp: sqlite_list_orders_eq split: option.splits)
next
  case (4 st m r)
  then show ?case
    by (auto simp: sqlite_order_by_matching_id_def intro!: one_Inr)
next
  case (5 st ic r)
  then show ?case
    by (auto simp: sqlite_order_by_iccid_def intro!: one_Inr)
next
  case (6 st ns)
  then show ?case by (auto simp: sqlite_notifications_eq split: option.splits)
next
  case (7 st n st' e)
  then have "st' = st" using sqlite_add_order_Inl [of st n st' e] by simp
  with 7 show ?case by simp
next
  case (8 st n st' x)
  then show ?case using sqlite_add_order_effect [of st n st' x] by simp
next
  case (9 st k eid cert st' u)
  then show ?case using sqlite_bind_euicc_effect [of st k eid cert st' u] by simp
next
  case (10 st k s st' u)
  then show ?case using sqlite_set_state_effect [of st k s st' u] by simp
next
  case (11 st nt st' u)
  then show ?case using sqlite_record_notification_effect [of st nt st' u] by simp
qed

section \<open>Opening a database\<close>

lemma stamp_current: "user_version c = SCHEMA_VERSION \<Longrightarrow> fst (stamp_version c) = c"
  by (simp add: stamp_version_def run_stmt_def split: option.split)

lemma migrate_current: "user_version c = SCHEMA_VERSION \<Longrightarrow> fst (migrate c) = c"
  using stamp_current [of c]
  by (auto simp: migrate_def read_version_def read_stmt_def SCHEMA_VERSION_def
      split: option.split sum.split)

lemma sqlite_open_current:
  assumes "db_inv c"
  shows "fst (sqlite_open c) = c"
  using migrate_current [of c] assms
  by (auto simp: sqlite_open_def run_stmt_def db_inv_def split: option.split)

lemma db_inv_faults [simp]: "db_inv (c\<lparr>faults := f\<rparr>) = db_inv c"
  by (simp add: db_inv_def db_rows_def db_qrows_def)

lemma db_orders_faults [simp]: "db_orders (c\<lparr>faults := f\<rparr>) = db_orders c"
  by (simp add: db_orders_def db_rows_def)

lemma db_notifications_faults [simp]: "db_notifications (c\<lparr>faults := f\<rparr>) = db_notifications c"
  by (simp add: db_notifications_def db_qrows_def)

end
