(* ===== verification/Rsp.thy ===== *)
theory Rsp
  imports Prelude
begin

text \<open>
  \<open>crates/smdp/src/rsp/\<close>: the safe wrapper around the C library euicc-rsp. The library
  itself is a git submodule that is not part of the sources, so each \<open>rsp_dp_*\<close> function
  the wrapper calls is a field of the parameter \<open>rsp_lib\<close>: a function from the arguments
  the wrapper passes to the return code and the out-parameters. What is modelled is what the
  Rust code does around the calls: the NUL check, the mapping of return codes, the buffers and
  slices, and which result is handed on.

  A session is owned by exactly one \<open>DpSession\<close>, so the C state behind its pointer is a
  value of type \<open>'s\<close> that a call replaces. Allocation and freeing are in \<open>Ownership\<close>.
\<close>

section \<open>Errors\<close>

datatype rsp_error = Refused string | NotReached string

definition display_rsp_error :: "rsp_error \<Rightarrow> string" where
  "display_rsp_error e =
     (case e of
        Refused w \<Rightarrow> w @ '': refused''
      | NotReached w \<Rightarrow> w @ '': could not be attempted'')"

text \<open>Return codes are C \<open>int\<close>s; nothing is computed with them.\<close>

definition from_code :: "int \<Rightarrow> string \<Rightarrow> rsp_error" where
  "from_code code what = (if code = -1 then Refused what else NotReached what)"

section \<open>Buffers and slices\<close>

text \<open>
  \<open>OwnedDer\<close>: the memory behind the pointer and the length that came with it.
  \<open>slice::from_raw_parts\<close> reads that many bytes.
\<close>

record owned_der =
  der_ptr :: bytes
  der_len :: nat

definition from_raw :: "bytes \<Rightarrow> nat \<Rightarrow> owned_der" where
  "from_raw ptr len = \<lparr> der_ptr = ptr, der_len = len \<rparr>"

definition as_slice :: "owned_der \<Rightarrow> bytes" where
  "as_slice d = take (der_len d) (der_ptr d)"

text \<open>\<open>Debug\<close> of a buffer and of a session: the length of the one, nothing of the other.\<close>

definition debug_owned_der :: "owned_der \<Rightarrow> string" where
  "debug_owned_der d = ''OwnedDer('' @ show_nat (der_len d) @ '' bytes)''"

text \<open>\<open>CString::new\<close> fails on an interior NUL.\<close>

definition cstring_new :: "string \<Rightarrow> string option" where
  "cstring_new s = (if CHR 0x00 \<in> set s then None else Some s)"

text \<open>
  A borrowed view into a response: offset and length. \<open>from_raw_parts\<close> of such a pair is
  the slice of the response it points at.
\<close>

type_synonym view = "nat \<times> nat"

definition view_in :: "bytes \<Rightarrow> view \<Rightarrow> bytes" where
  "view_in resp v = take (snd v) (drop (fst v) resp)"

section \<open>The C library\<close>

record c_initiate_fields =
  ci_transaction_id :: view
  ci_server_signed1 :: view
  ci_server_signature1 :: view
  ci_euicc_ci_pkid :: view
  ci_server_certificate :: view

record c_authenticate_fields =
  ca_transaction_id :: view
  ca_profile_metadata :: view
  ca_smdp_signed2 :: view
  ca_smdp_signature2 :: view
  ca_smdp_certificate :: view

record c_notification =
  cn_is_installation_result :: int
  cn_seq_number :: int
  cn_operation :: int
  cn_have_iccid :: int
  cn_iccid :: bytes
  cn_installed :: int

text \<open>
  The functions of \<open>include/rsp.h\<close> the wrapper calls. Each returns its code first. A
  buffer out-parameter is the memory and its length; the out-parameters mean something only
  when the code is 0. A function on a session returns the session's state afterwards, whatever
  the code.
\<close>

record 's rsp_lib =
  c_initiate_authentication ::
    "bytes \<Rightarrow> bytes \<Rightarrow> bytes \<Rightarrow> bytes \<Rightarrow> string \<Rightarrow> string option \<Rightarrow> int \<times> 's \<times> bytes \<times> nat"
  c_authenticate_client :: "'s \<Rightarrow> bytes \<Rightarrow> bytes \<Rightarrow> 's \<times> int \<times> bytes \<times> nat"
  c_get_bound_profile_package :: "'s \<Rightarrow> bytes \<Rightarrow> bytes \<Rightarrow> bytes \<Rightarrow> 's \<times> int \<times> bytes \<times> nat"
  c_session_euicc_cert :: "'s \<Rightarrow> int \<times> bytes \<times> nat"
  c_session_eid :: "'s \<Rightarrow> bytes \<Rightarrow> int \<times> bytes \<times> nat"
  c_initiate_fields :: "bytes \<Rightarrow> int \<times> c_initiate_fields"
  c_authenticate_fields :: "bytes \<Rightarrow> int \<times> c_authenticate_fields"
  c_notification_metadata :: "bytes \<Rightarrow> int \<times> c_notification"
  c_verify_notification :: "bytes option \<Rightarrow> bytes \<Rightarrow> int \<times> c_notification"

section \<open>Sessions\<close>

record 's dp_session =
  dp_raw :: 's

definition debug_dp_session :: "'s dp_session \<Rightarrow> string" where
  "debug_dp_session s = ''DpSession(..)''"

text \<open>The array parameters are \<open>&[u8; N]\<close>; their lengths are the type's.\<close>

definition initiate ::
  "'s rsp_lib \<Rightarrow> bytes \<Rightarrow> bytes \<Rightarrow> bytes \<Rightarrow> bytes \<Rightarrow> string \<Rightarrow> string option \<Rightarrow>
     rsp_error + ('s dp_session \<times> owned_der)"
where
  "initiate L euicc_challenge euicc_info1 transaction_id server_challenge
      server_address requested_address =
     (let what = ''InitiateAuthentication'' in
      case cstring_new server_address of
        None \<Rightarrow> Inl (NotReached what)
      | Some own \<Rightarrow>
          (case (case requested_address of
                   None \<Rightarrow> Some None
                 | Some a \<Rightarrow> map_option Some (cstring_new a)) of
             None \<Rightarrow> Inl (NotReached what)
           | Some req \<Rightarrow>
               (let (rc, sess, resp, resp_len) =
                  c_initiate_authentication L euicc_challenge euicc_info1 transaction_id
                    server_challenge own req in
                if rc \<noteq> 0 then Inl (from_code rc what)
                else Inr (\<lparr> dp_raw = sess \<rparr>, from_raw resp resp_len))))"

definition dp_authenticate_client ::
  "'s rsp_lib \<Rightarrow> 's dp_session \<Rightarrow> bytes \<Rightarrow> bytes \<Rightarrow> 's dp_session \<times> (rsp_error + owned_der)"
where
  "dp_authenticate_client L self auth_server_resp metadata =
     (let (sess, rc, out, out_len) =
        c_authenticate_client L (dp_raw self) auth_server_resp metadata in
      (self\<lparr>dp_raw := sess\<rparr>,
       if rc \<noteq> 0 then Inl (from_code rc ''AuthenticateClient'')
       else Inr (from_raw out out_len)))"

definition dp_get_bound_profile_package ::
  "'s rsp_lib \<Rightarrow> 's dp_session \<Rightarrow> bytes \<Rightarrow> bytes \<Rightarrow> bytes \<Rightarrow>
     's dp_session \<times> (rsp_error + owned_der)"
where
  "dp_get_bound_profile_package L self prepare_download_resp upp otsk_dp =
     (let (sess, rc, bpp, bpp_len) =
        c_get_bound_profile_package L (dp_raw self) prepare_download_resp upp otsk_dp in
      (self\<lparr>dp_raw := sess\<rparr>,
       if rc \<noteq> 0 then Inl (from_code rc ''GetBoundProfilePackage'')
       else Inr (from_raw bpp bpp_len)))"

definition euicc_cert :: "'s rsp_lib \<Rightarrow> 's dp_session \<Rightarrow> rsp_error + bytes" where
  "euicc_cert L self =
     (let (rc, der, len) = c_session_euicc_cert L (dp_raw self) in
      if rc \<noteq> 0 then Inl (from_code rc ''session eUICC certificate'')
      else Inr (take len der))"

text \<open>
  The EID goes through a fixed 64-byte buffer. \<open>buf[..len]\<close> panics when the library reports
  more than the buffer holds.
\<close>

definition eid :: "'s rsp_lib \<Rightarrow> 's dp_session \<Rightarrow> (rsp_error + string) outcome" where
  "eid L self =
     (let what = ''session EID'';
          buf0 = replicate 64 0;
          (rc, buf, len) = c_session_eid L (dp_raw self) buf0 in
      if rc \<noteq> 0 then Ret (Inl (from_code rc what))
      else if len > length buf0 then Panic
      else (case string_from_utf8 (take len buf) of
              None \<Rightarrow> Ret (Inl (NotReached what))
            | Some s \<Rightarrow> Ret (Inr s)))"

section \<open>Cutting responses into fields\<close>

record initiate_fields_t =
  if_transaction_id :: bytes
  if_server_signed1 :: bytes
  if_server_signature1 :: bytes
  if_euicc_ci_pkid :: bytes
  if_server_certificate :: bytes

record authenticate_fields_t =
  af_transaction_id :: bytes
  af_profile_metadata :: bytes
  af_smdp_signed2 :: bytes
  af_smdp_signature2 :: bytes
  af_smdp_certificate :: bytes

definition initiate_fields :: "'s rsp_lib \<Rightarrow> bytes \<Rightarrow> rsp_error + initiate_fields_t" where
  "initiate_fields L resp =
     (let (rc, f) = c_initiate_fields L resp in
      if rc \<noteq> 0 then Inl (from_code rc ''InitiateAuthentication fields'')
      else Inr \<lparr> if_transaction_id = view_in resp (ci_transaction_id f),
                 if_server_signed1 = view_in resp (ci_server_signed1 f),
                 if_server_signature1 = view_in resp (ci_server_signature1 f),
                 if_euicc_ci_pkid = view_in resp (ci_euicc_ci_pkid f),
                 if_server_certificate = view_in resp (ci_server_certificate f) \<rparr>)"

definition authenticate_fields :: "'s rsp_lib \<Rightarrow> bytes \<Rightarrow> rsp_error + authenticate_fields_t" where
  "authenticate_fields L resp =
     (let (rc, g) = c_authenticate_fields L resp in
      if rc \<noteq> 0 then Inl (from_code rc ''AuthenticateClient fields'')
      else Inr \<lparr> af_transaction_id = view_in resp (ca_transaction_id g),
                 af_profile_metadata = view_in resp (ca_profile_metadata g),
                 af_smdp_signed2 = view_in resp (ca_smdp_signed2 g),
                 af_smdp_signature2 = view_in resp (ca_smdp_signature2 g),
                 af_smdp_certificate = view_in resp (ca_smdp_certificate g) \<rparr>)"

section \<open>Notifications\<close>

record notification =
  is_installation_result :: bool
  nt_seq_number :: int
  nt_operation :: int
  nt_iccid :: "bytes option"
  nt_installed :: bool

definition notification_metadata :: "'s rsp_lib \<Rightarrow> bytes \<Rightarrow> rsp_error + notification" where
  "notification_metadata L notification =
     (let (rc, v) = c_notification_metadata L notification in
      if rc \<noteq> 0 then Inl (from_code rc ''notification metadata'')
      else Inr \<lparr> is_installation_result = (cn_is_installation_result v \<noteq> 0),
                 nt_seq_number = cn_seq_number v,
                 nt_operation = cn_operation v,
                 nt_iccid = (if cn_have_iccid v \<noteq> 0 then Some (cn_iccid v) else None),
                 nt_installed = False \<rparr>)"

definition verify_notification ::
  "'s rsp_lib \<Rightarrow> bytes option \<Rightarrow> bytes \<Rightarrow> rsp_error + notification"
where
  "verify_notification L cert_euicc notification =
     (let (rc, v) = c_verify_notification L cert_euicc notification in
      if rc \<noteq> 0 then Inl (from_code rc ''HandleNotification'')
      else Inr \<lparr> is_installation_result = (cn_is_installation_result v \<noteq> 0),
                 nt_seq_number = cn_seq_number v,
                 nt_operation = cn_operation v,
                 nt_iccid = (if cn_have_iccid v \<noteq> 0 then Some (cn_iccid v) else None),
                 nt_installed = (cn_installed v \<noteq> 0) \<rparr>)"

text \<open>
  What the header promises about buffers: the EID accessor writes into the buffer it is given
  and never reports more than that buffer holds.
\<close>

definition eid_in_bounds :: "'s rsp_lib \<Rightarrow> bool" where
  "eid_in_bounds L \<longleftrightarrow>
     (\<forall>s buf. case c_session_eid L s buf of (rc, buf', len) \<Rightarrow> rc = 0 \<longrightarrow> len \<le> length buf)"

lemma eid_not_Panic:
  assumes "eid_in_bounds L"
  shows "eid L s \<noteq> Panic"
proof -
  obtain rc buf len where call: "c_session_eid L (dp_raw s) (replicate 64 0) = (rc, buf, len)"
    by (cases "c_session_eid L (dp_raw s) (replicate 64 0)") auto
  have "case c_session_eid L (dp_raw s) (replicate 64 0) of
      (rc, buf', len) \<Rightarrow> rc = 0 \<longrightarrow> len \<le> length (replicate 64 (0 :: byte))"
    using assms unfolding eid_in_bounds_def by (elim allE)
  then have "rc = 0 \<longrightarrow> len \<le> 64"
    unfolding call by simp
  then show ?thesis
    by (auto simp: eid_def Let_def call split: option.split)
qed

end
