(* ===== verification/Sessions.thy ===== *)
theory Sessions
  imports Rsp
begin

text \<open>
  \<open>crates/smdp/src/server/sessions.rs\<close>: the RSP sessions in memory, keyed by
  transactionId. An \<open>Instant\<close> is a number of nanoseconds; \<open>duration_since\<close> saturates
  at zero, as subtraction on \<open>nat\<close> does. \<open>get_mut\<close> hands out a mutable reference, so
  it is modelled by the lookup together with \<open>put_entry\<close>, the write through the reference.
  The two reads of the clock in \<open>insert\<close>, one in its sweep and one for the new entry, are one
  instant.
\<close>

type_synonym instant = nat

definition MAX_AGE :: nat where
  "MAX_AGE = 600 * 10 ^ 9"

record 's entry =
  session :: "'s dp_session"
  entry_order_id :: "int option"
  born :: instant

record 's sessions =
  by_transaction :: "bytes \<Rightarrow> 's entry option"

definition sessions_default :: "'s sessions" where
  "sessions_default = \<lparr> by_transaction = (\<lambda>_. None) \<rparr>"

definition sweep :: "instant \<Rightarrow> 's sessions \<Rightarrow> 's sessions" where
  "sweep now t =
     t\<lparr>by_transaction := (\<lambda>k. case by_transaction t k of
          None \<Rightarrow> None
        | Some e \<Rightarrow> if now - born e < MAX_AGE then Some e else None)\<rparr>"

definition insert_session :: "instant \<Rightarrow> bytes \<Rightarrow> 's dp_session \<Rightarrow> 's sessions \<Rightarrow> 's sessions" where
  "insert_session now transaction_id sess t =
     (let t1 = sweep now t in
      t1\<lparr>by_transaction := (by_transaction t1)(transaction_id \<mapsto>
           \<lparr> session = sess, entry_order_id = None, born = now \<rparr>)\<rparr>)"

definition get_session :: "bytes \<Rightarrow> 's sessions \<Rightarrow> 's entry option" where
  "get_session transaction_id t = by_transaction t transaction_id"

definition put_entry :: "bytes \<Rightarrow> 's entry \<Rightarrow> 's sessions \<Rightarrow> 's sessions" where
  "put_entry transaction_id e t =
     t\<lparr>by_transaction := (by_transaction t)(transaction_id \<mapsto> e)\<rparr>"

definition remove_session :: "bytes \<Rightarrow> 's sessions \<Rightarrow> 's sessions" where
  "remove_session transaction_id t =
     t\<lparr>by_transaction := (by_transaction t)(transaction_id := None)\<rparr>"

section \<open>The table as its clients see it\<close>

locale session_table =
  fixes empty :: 't
    and ins :: "nat \<Rightarrow> bytes \<Rightarrow> 'v \<Rightarrow> 't \<Rightarrow> 't"
    and get :: "bytes \<Rightarrow> 't \<Rightarrow> 'e option"
    and put :: "bytes \<Rightarrow> 'e \<Rightarrow> 't \<Rightarrow> 't"
    and del :: "bytes \<Rightarrow> 't \<Rightarrow> 't"
    and fresh :: "nat \<Rightarrow> 'v \<Rightarrow> 'e"
    and young :: "nat \<Rightarrow> 'e \<Rightarrow> bool"
  assumes get_empty: "get k empty = None"
    and get_ins: "get k' (ins now k v t) =
      (if k' = k then Some (fresh now v)
       else case get k' t of None \<Rightarrow> None | Some e \<Rightarrow> if young now e then Some e else None)"
    and get_put: "get k' (put k e t) = (if k' = k then Some e else get k' t)"
    and get_del: "get k' (del k t) = (if k' = k then None else get k' t)"
    and fresh_young: "young now (fresh now v)"
begin

lemma ins_only_young: "get k' (ins now k v t) = Some e \<Longrightarrow> young now e"
  by (auto simp: get_ins fresh_young split: if_splits option.splits)

lemma ins_keeps_young:
  "get k' t = Some e \<Longrightarrow> young now e \<Longrightarrow> k' \<noteq> k \<Longrightarrow> get k' (ins now k v t) = Some e"
  by (simp add: get_ins)

lemma ins_only_old_or_new:
  "get k' (ins now k v t) = Some e \<Longrightarrow> k' \<noteq> k \<Longrightarrow> get k' t = Some e"
  by (auto simp: get_ins split: if_splits option.splits)

end

interpretation sess_tab: session_table sessions_default insert_session get_session put_entry
  remove_session "\<lambda>now s. \<lparr> session = s, entry_order_id = None, born = now \<rparr>"
  "\<lambda>now e. now - born e < MAX_AGE"
  by unfold_locales
    (auto simp: sessions_default_def insert_session_def get_session_def put_entry_def
      remove_session_def sweep_def MAX_AGE_def Let_def split: option.splits)

end
