(* ===== verification/Server.thy ===== *)
theory Server
  imports Es9 Sqlite Sessions
begin

text \<open>
  \<open>crates/smdp/src/server/mod.rs\<close> and \<open>crates/smdp/src/server/es9.rs\<close>: the server's
  state, its source of nonces, the route table and one handler per ES9+ function. A handler is a
  function from the request's environment (the clock and the random source while it runs), the
  server state and the decoded request to the response, or a panic, and the state afterwards.
  No handler awaits anything and the runtime of \<open>serve\<close> is single-threaded, so a request is
  one step. A panic while the session mutex is held poisons it, and \<open>lock().unwrap()\<close> on a
  poisoned mutex panics.
\<close>

section \<open>Nonces\<close>

record nonces =
  nonce_transaction_id :: "os_random \<Rightarrow> bytes outcome \<times> os_random"
  nonce_server_challenge :: "os_random \<Rightarrow> bytes outcome \<times> os_random"
  nonce_otsk_dp :: "os_random \<Rightarrow> bytes outcome \<times> os_random"

definition os_nonces_fill :: "nat \<Rightarrow> os_random \<Rightarrow> bytes outcome \<times> os_random" where
  "os_nonces_fill n r = getrandom_fill n r"

definition os_nonces :: nonces where
  "os_nonces =
     \<lparr> nonce_transaction_id = os_nonces_fill 16, nonce_server_challenge = os_nonces_fill 16,
       nonce_otsk_dp = os_nonces_fill 32 \<rparr>"

section \<open>Server state\<close>

record server_config =
  server_address :: string
  cfg_nonces :: nonces

definition server_config_new :: "string \<Rightarrow> server_config" where
  "server_config_new addr = \<lparr> server_address = addr, cfg_nonces = os_nonces \<rparr>"

record 'a mutex =
  guarded :: 'a
  poisoned :: bool

record ('st, 's) app_state =
  app_store :: 'st
  app_sessions :: "'s sessions mutex"
  app_config :: server_config

record env =
  now :: instant
  rng :: os_random

definition router_state :: "'st \<Rightarrow> server_config \<Rightarrow> ('st, 's) app_state" where
  "router_state st cfg =
     \<lparr> app_store = st, app_sessions = \<lparr> guarded = sessions_default, poisoned = False \<rparr>,
       app_config = cfg \<rparr>"

definition sessions_of :: "('st, 's) app_state \<Rightarrow> 's sessions" where
  "sessions_of st = guarded (app_sessions st)"

definition with_sessions :: "'s sessions \<Rightarrow> ('st, 's) app_state \<Rightarrow> ('st, 's) app_state" where
  "with_sessions t st = st\<lparr>app_sessions := (app_sessions st)\<lparr>guarded := t\<rparr>\<rparr>"

definition poison :: "('st, 's) app_state \<Rightarrow> ('st, 's) app_state" where
  "poison st = st\<lparr>app_sessions := (app_sessions st)\<lparr>poisoned := True\<rparr>\<rparr>"

section \<open>Responses\<close>

datatype body =
    EmptyBody
  | FailureBody failure_response
  | InitiateBody initiate_authentication_response
  | AuthenticateBody authenticate_client_response
  | BoundPackageBody get_bound_profile_package_response

fun body_to_json :: "b64_engine \<Rightarrow> body \<Rightarrow> json option" where
  "body_to_json B EmptyBody = None"
| "body_to_json B (FailureBody r) = Some (failure_response_to_json r)"
| "body_to_json B (InitiateBody r) = Some (initiate_response_to_json B r)"
| "body_to_json B (AuthenticateBody r) = Some (authenticate_response_to_json B r)"
| "body_to_json B (BoundPackageBody r) = Some (bound_package_response_to_json B r)"

record response =
  resp_status :: nat
  resp_headers :: "(string \<times> string) list"
  resp_body :: body

definition ok_json :: "body \<Rightarrow> response" where
  "ok_json b =
     \<lparr> resp_status = 200,
       resp_headers = [(''X-Admin-Protocol'', ADMIN_PROTOCOL),
                       (''Content-Type'', ''application/json'')],
       resp_body = b \<rparr>"

definition failed :: "string \<Rightarrow> string \<Rightarrow> string \<Rightarrow> response" where
  "failed subject reason msg =
     ok_json (FailureBody \<lparr> fr_header = header_failed subject reason msg \<rparr>)"

definition SMDP_ADDRESS :: string where "SMDP_ADDRESS = ''8.1.1''"
definition TRANSACTION_ID :: string where "TRANSACTION_ID = ''8.10.1''"
definition PROFILE :: string where "PROFILE = ''8.2.5''"
definition REFUSED :: string where "REFUSED = ''3.8''"
definition UNKNOWN :: string where "UNKNOWN = ''3.9''"
definition EXECUTION :: string where "EXECUTION = ''4.2''"

definition from_rsp_error :: "rsp_error \<Rightarrow> string \<Rightarrow> response" where
  "from_rsp_error e subject =
     (case e of
        Refused what \<Rightarrow> failed subject REFUSED (what @ '': refused'')
      | NotReached what \<Rightarrow> failed subject EXECUTION (what @ '': could not be attempted''))"

section \<open>The handlers\<close>

definition initiate_authentication ::
  "'s rsp_lib \<Rightarrow> env \<Rightarrow> ('st, 's) app_state \<Rightarrow> initiate_authentication_request \<Rightarrow>
     response outcome \<times> ('st, 's) app_state"
where
  "initiate_authentication L env st req =
     (if length (irq_euicc_challenge req) \<noteq> 16
      then (Ret (failed EXECUTION EXECUTION ''euiccChallenge is not 16 bytes''), st)
      else
        (case nonce_transaction_id (cfg_nonces (app_config st)) (rng env) of
           (Panic, _) \<Rightarrow> (Panic, st)
         | (Ret transaction_id, rng1) \<Rightarrow>
             (case nonce_server_challenge (cfg_nonces (app_config st)) rng1 of
                (Panic, _) \<Rightarrow> (Panic, st)
              | (Ret server_challenge, _) \<Rightarrow>
                  (case initiate L (irq_euicc_challenge req) (irq_euicc_info1 req)
                          transaction_id server_challenge (server_address (app_config st))
                          (Some (irq_smdp_address req)) of
                     Inl e \<Rightarrow> (Ret (from_rsp_error e SMDP_ADDRESS), st)
                   | Inr (sess, resp) \<Rightarrow>
                       (case initiate_fields L (as_slice resp) of
                          Inl e \<Rightarrow> (Ret (from_rsp_error e EXECUTION), st)
                        | Inr f \<Rightarrow>
                            if poisoned (app_sessions st) then (Panic, st)
                            else
                              (Ret (ok_json (InitiateBody
                                 \<lparr> iar_header = header_success,
                                   iar_transaction_id = transaction_id,
                                   iar_server_signed1 = if_server_signed1 f,
                                   iar_server_signature1 = if_server_signature1 f,
                                   iar_euicc_ci_pkid_to_be_used = if_euicc_ci_pkid f,
                                   iar_server_certificate = if_server_certificate f \<rparr>)),
                               with_sessions
                                 (insert_session (now env) transaction_id sess
                                   (sessions_of st)) st))))))"

definition offered :: "order_t \<Rightarrow> bool" where
  "offered x \<longleftrightarrow> ord_state x = Available \<or> ord_state x = Bound"

text \<open>
  What AuthenticateClient writes once it has succeeded: the eUICC when both its EID and its
  certificate are known, then the state. Errors of either write are dropped (\<open>let _ =\<close>).
\<close>

definition remember_euicc ::
  "'st store_ops \<Rightarrow> 'st \<Rightarrow> int \<Rightarrow> string option \<Rightarrow> bytes option \<Rightarrow> 'st"
where
  "remember_euicc S store i the_eid the_cert =
     (let store1 =
        (case (the_eid, the_cert) of
           (Some e, Some c) \<Rightarrow> fst (bind_euicc S store i e c)
         | _ \<Rightarrow> store) in
      fst (set_state S store1 i Bound))"

text \<open>The part of AuthenticateClient after the one offered order is known.\<close>

definition authenticate_order ::
  "'st store_ops \<Rightarrow> 's rsp_lib \<Rightarrow> ('st, 's) app_state \<Rightarrow> authenticate_client_request \<Rightarrow> order_t \<Rightarrow>
     response outcome \<times> ('st, 's) app_state"
where
  "authenticate_order S L st req ord =
     (let tid = arq_transaction_id req in
      if poisoned (app_sessions st) then (Panic, st)
      else
        (case get_session tid (sessions_of st) of
           None \<Rightarrow> (Ret (failed TRANSACTION_ID UNKNOWN ''no session with this transactionId''), st)
         | Some ent \<Rightarrow>
             (let (sess, r) = dp_authenticate_client L (session ent)
                                (arq_authenticate_server_response req) (ord_metadata ord);
                  ent1 = ent\<lparr>session := sess\<rparr>;
                  st1 = with_sessions (put_entry tid ent1 (sessions_of st)) st in
              case r of
                Inl e \<Rightarrow> (Ret (from_rsp_error e TRANSACTION_ID), st1)
              | Inr resp \<Rightarrow>
                  (case eid L sess of
                     Panic \<Rightarrow> (Panic, poison st1)
                   | Ret eid_result \<Rightarrow>
                       (let cert_result = euicc_cert L sess;
                            ent2 = ent1\<lparr>entry_order_id := Some (ord_id ord)\<rparr>;
                            st2 = with_sessions (put_entry tid ent2 (sessions_of st1)) st1 in
                        case authenticate_fields L (as_slice resp) of
                          Inl e \<Rightarrow> (Ret (from_rsp_error e EXECUTION), st2)
                        | Inr g \<Rightarrow>
                            (Ret (ok_json (AuthenticateBody
                               \<lparr> acr_header = header_success,
                                 acr_transaction_id = tid,
                                 acr_profile_metadata = af_profile_metadata g,
                                 acr_smdp_signed2 = af_smdp_signed2 g,
                                 acr_smdp_signature2 = af_smdp_signature2 g,
                                 acr_smdp_certificate = af_smdp_certificate g \<rparr>)),
                             st2\<lparr>app_store :=
                                   remember_euicc S (app_store st2) (ord_id ord)
                                     (ok eid_result) (ok cert_result)\<rparr>))))))"

definition authenticate_client ::
  "'st store_ops \<Rightarrow> 's rsp_lib \<Rightarrow> ('st, 's) app_state \<Rightarrow> authenticate_client_request \<Rightarrow>
     response outcome \<times> ('st, 's) app_state"
where
  "authenticate_client S L st req =
     (case list_orders S (app_store st) of
        Inl e \<Rightarrow> (Ret (failed PROFILE EXECUTION (display_store_error e)), st)
      | Inr orders \<Rightarrow>
          (case filter offered orders of
             [ord] \<Rightarrow> authenticate_order S L st req ord
           | [] \<Rightarrow>
               (Ret (failed PROFILE UNKNOWN
                  (''no order is available -- add one, or reset one that has ''
                   @ ''already been downloaded (smdp order list shows their state)'')), st)
           | available \<Rightarrow>
               (Ret (failed PROFILE UNKNOWN
                  (show_nat (length available)
                   @ '' orders are available and the MatchingID is not read from ctxParams1 yet, ''
                   @ ''so this server cannot tell which is wanted'')), st)))"

definition find_upp :: "'st store_ops \<Rightarrow> 'st \<Rightarrow> int option \<Rightarrow> bytes option" where
  "find_upp S store order_id =
     (case order_id of
        None \<Rightarrow> None
      | Some i \<Rightarrow>
          (case ok (list_orders S store) of
             None \<Rightarrow> None
           | Some orders \<Rightarrow> map_option ord_upp (find (\<lambda>x. ord_id x = i) orders)))"

definition get_bound_profile_package ::
  "'st store_ops \<Rightarrow> 's rsp_lib \<Rightarrow> env \<Rightarrow> ('st, 's) app_state \<Rightarrow>
     get_bound_profile_package_request \<Rightarrow> response outcome \<times> ('st, 's) app_state"
where
  "get_bound_profile_package S L env st req =
     (let tid = grq_transaction_id req in
      case fst (nonce_otsk_dp (cfg_nonces (app_config st)) (rng env)) of
        Panic \<Rightarrow> (Panic, st)
      | Ret otsk_dp \<Rightarrow>
          if poisoned (app_sessions st) then (Panic, st)
          else
            (case get_session tid (sessions_of st) of
               None \<Rightarrow>
                 (Ret (failed TRANSACTION_ID UNKNOWN ''no session with this transactionId''), st)
             | Some ent \<Rightarrow>
                 (case find_upp S (app_store st) (entry_order_id ent) of
                    None \<Rightarrow>
                      (Ret (failed PROFILE UNKNOWN
                         ''this session has not authenticated against an order yet''), st)
                  | Some upp \<Rightarrow>
                      (let (sess, r) = dp_get_bound_profile_package L (session ent)
                                         (grq_prepare_download_response req) upp otsk_dp in
                       case r of
                         Inl e \<Rightarrow>
                           (Ret (from_rsp_error e TRANSACTION_ID),
                            with_sessions
                              (put_entry tid (ent\<lparr>session := sess\<rparr>) (sessions_of st)) st)
                       | Inr bpp \<Rightarrow>
                           (Ret (ok_json (BoundPackageBody
                              \<lparr> gbr_header = header_success,
                                gbr_transaction_id = tid,
                                gbr_bound_profile_package = as_slice bpp \<rparr>)),
                            (with_sessions (remove_session tid (sessions_of st)) st)
                              \<lparr>app_store :=
                                 (case entry_order_id ent of
                                    None \<Rightarrow> app_store st
                                  | Some i \<Rightarrow> fst (set_state S (app_store st) i Downloaded))\<rparr>)))))"

definition no_content :: response where
  "no_content =
     \<lparr> resp_status = 204, resp_headers = [(''X-Admin-Protocol'', ADMIN_PROTOCOL)],
       resp_body = EmptyBody \<rparr>"

text \<open>
  \<open>iccid.and_then(|i| st.store.order_by_iccid(&i).ok().flatten())\<close>: which order a
  notification names, if any.
\<close>

definition notified_order :: "'st store_ops \<Rightarrow> 's rsp_lib \<Rightarrow> 'st \<Rightarrow> bytes \<Rightarrow> order_t option" where
  "notified_order S L store raw =
     Option.bind (Option.bind (ok (notification_metadata L raw)) nt_iccid)
       (\<lambda>i. Option.bind (ok (order_by_iccid S store i)) (\<lambda>r. r))"

text \<open>The record that is kept of a notification read as \<open>m\<close>.\<close>

definition kept_notification ::
  "bool \<Rightarrow> order_t option \<Rightarrow> notification \<Rightarrow> bytes \<Rightarrow> new_notification"
where
  "kept_notification is_verified ord m raw =
     \<lparr> nn_verified = is_verified,
       nn_order_id = map_option ord_id ord,
       nn_seq_number = nt_seq_number m,
       nn_operation = nt_operation m,
       nn_iccid = nt_iccid m,
       nn_installed =
         (if is_verified \<and> is_installation_result m then Some (nt_installed m) else None),
       nn_raw = raw \<rparr>"

text \<open>Everything that can be read is kept, verified or not; a write error is dropped.\<close>

definition keep_notification ::
  "'st store_ops \<Rightarrow> 'st \<Rightarrow> order_t option \<Rightarrow> notification option \<Rightarrow> notification option \<Rightarrow> bytes \<Rightarrow>
     'st"
where
  "keep_notification S store ord verified meta raw =
     (case (case verified of Some v \<Rightarrow> Some v | None \<Rightarrow> meta) of
        None \<Rightarrow> store
      | Some m \<Rightarrow>
          fst (record_notification S store (kept_notification (verified \<noteq> None) ord m raw)))"

text \<open>Only a verified installation result moves the order.\<close>

definition move_order ::
  "'st store_ops \<Rightarrow> 'st \<Rightarrow> order_t option \<Rightarrow> notification option \<Rightarrow> 'st"
where
  "move_order S store ord verified =
     (case (verified, ord) of
        (Some v, Some x) \<Rightarrow>
          if is_installation_result v
          then fst (set_state S store (ord_id x) (if nt_installed v then Downloaded else Failed))
          else store
      | _ \<Rightarrow> store)"

definition verified_notification ::
  "'s rsp_lib \<Rightarrow> order_t option \<Rightarrow> bytes \<Rightarrow> notification option"
where
  "verified_notification L ord raw =
     ok (verify_notification L (Option.bind ord ord_euicc_cert) raw)"

definition handle_notification ::
  "'st store_ops \<Rightarrow> 's rsp_lib \<Rightarrow> ('st, 's) app_state \<Rightarrow> handle_notification_request \<Rightarrow>
     response outcome \<times> ('st, 's) app_state"
where
  "handle_notification S L st req =
     (let raw = hrq_pending_notification req;
          ord = notified_order S L (app_store st) raw;
          verified = verified_notification L ord raw;
          meta = ok (notification_metadata L raw);
          store1 = keep_notification S (app_store st) ord verified meta raw in
      (Ret no_content, st\<lparr>app_store := move_order S store1 ord verified\<rparr>))"

section \<open>The route table\<close>

datatype endpoint = Initiate | Authenticate | GetBoundPackage | HandleNotification

definition route :: "string \<Rightarrow> endpoint option" where
  "route path =
     (if path = ''/gsma/rsp2/es9plus/initiateAuthentication'' then Some Initiate
      else if path = ''/gsma/rsp2/es9plus/authenticateClient'' then Some Authenticate
      else if path = ''/gsma/rsp2/es9plus/getBoundProfilePackage'' then Some GetBoundPackage
      else if path = ''/gsma/rsp2/es9plus/handleNotification'' then Some HandleNotification
      else None)"

datatype request =
    InitiateRequest initiate_authentication_request
  | AuthenticateRequest authenticate_client_request
  | BoundPackageRequest get_bound_profile_package_request
  | NotificationRequest handle_notification_request

text \<open>The \<open>Json\<close> extractor of each endpoint's handler.\<close>

definition decode_request ::
  "b64_engine \<Rightarrow> endpoint \<Rightarrow> (string \<times> json) list \<Rightarrow> request option outcome"
where
  "decode_request B e obj =
     (case e of
        Initiate \<Rightarrow>
          with_field (initiate_request_of_json B obj) (\<lambda>r. Ret (Some (InitiateRequest r)))
      | Authenticate \<Rightarrow>
          with_field (authenticate_request_of_json B obj) (\<lambda>r. Ret (Some (AuthenticateRequest r)))
      | GetBoundPackage \<Rightarrow>
          with_field (bound_package_request_of_json B obj) (\<lambda>r. Ret (Some (BoundPackageRequest r)))
      | HandleNotification \<Rightarrow>
          with_field (notification_request_of_json B obj) (\<lambda>r. Ret (Some (NotificationRequest r))))"

fun handle ::
  "'st store_ops \<Rightarrow> 's rsp_lib \<Rightarrow> env \<Rightarrow> ('st, 's) app_state \<Rightarrow> request \<Rightarrow>
     response outcome \<times> ('st, 's) app_state"
where
  "handle S L env st (InitiateRequest r) = initiate_authentication L env st r"
| "handle S L env st (AuthenticateRequest r) = authenticate_client S L st r"
| "handle S L env st (BoundPackageRequest r) = get_bound_profile_package S L env st r"
| "handle S L env st (NotificationRequest r) = handle_notification S L st r"

text \<open>
  A POST of a JSON object. A path that is not routed and a body that does not decode are
  answered by axum, not by the server's code: \<open>Ret None\<close>.
\<close>

definition serve_post ::
  "'st store_ops \<Rightarrow> 's rsp_lib \<Rightarrow> b64_engine \<Rightarrow> env \<Rightarrow> ('st, 's) app_state \<Rightarrow> string \<Rightarrow>
     (string \<times> json) list \<Rightarrow> response option outcome \<times> ('st, 's) app_state"
where
  "serve_post S L B env st path obj =
     (case route path of
        None \<Rightarrow> (Ret None, st)
      | Some e \<Rightarrow>
          (case decode_request B e obj of
             Panic \<Rightarrow> (Panic, st)
           | Ret None \<Rightarrow> (Ret None, st)
           | Ret (Some req) \<Rightarrow>
               (case handle S L env st req of
                  (Panic, st') \<Rightarrow> (Panic, st')
                | (Ret resp, st') \<Rightarrow> (Ret (Some resp), st'))))"

section \<open>Reading the state back\<close>

lemma app_state_simps [simp]:
  "sessions_of (with_sessions t st) = t"
  "app_store (with_sessions t st) = app_store st"
  "app_config (with_sessions t st) = app_config st"
  "poisoned (app_sessions (with_sessions t st)) = poisoned (app_sessions st)"
  "sessions_of (poison st) = sessions_of st"
  "app_store (poison st) = app_store st"
  "app_config (poison st) = app_config st"
  "poisoned (app_sessions (poison st))"
  "sessions_of (st\<lparr>app_store := x\<rparr>) = sessions_of st"
  "with_sessions t' (with_sessions t st) = with_sessions t' st"
  by (simp_all add: sessions_of_def with_sessions_def poison_def)

lemma ok_json_simps [simp]:
  "resp_body (ok_json b) = b"
  "resp_status (ok_json b) = 200"
  "resp_body (failed s r m) = FailureBody \<lparr> fr_header = header_failed s r m \<rparr>"
  "resp_status (failed s r m) = 200"
  by (simp_all add: ok_json_def failed_def)

lemma from_rsp_error_failed: "\<exists>r m. from_rsp_error e subject = failed subject r m"
  by (cases e) (auto simp: from_rsp_error_def)

lemma resp_body_from_rsp_error [simp]:
  "resp_body (from_rsp_error e subject) \<noteq> AuthenticateBody a"
  "resp_body (from_rsp_error e subject) \<noteq> BoundPackageBody b"
  "resp_body (from_rsp_error e subject) \<noteq> InitiateBody i"
  by (cases e; simp add: from_rsp_error_def)+

section \<open>Nonces have the lengths their types say\<close>

text \<open>The contract of the \<open>Nonces\<close> trait: its return types are fixed-size arrays.\<close>

locale nonce_source =
  fixes N :: nonces
  assumes transaction_id_length: "nonce_transaction_id N r = (Ret b, r') \<Longrightarrow> length b = 16"
    and server_challenge_length: "nonce_server_challenge N r = (Ret b, r') \<Longrightarrow> length b = 16"
    and otsk_dp_length: "nonce_otsk_dp N r = (Ret b, r') \<Longrightarrow> length b = 32"
begin

lemma initiate_keys:
  assumes "cfg_nonces (app_config st) = N"
    and "initiate_authentication L env st req = (out, st')"
    and "get_session k (sessions_of st') = Some e"
  shows "get_session k (sessions_of st) = Some e \<or> length k = 16"
proof -
  have "\<And>r b r'. nonce_transaction_id (cfg_nonces (app_config st)) r = (Ret b, r') \<Longrightarrow> length b = 16"
    unfolding assms(1) by (rule transaction_id_length)
  with assms(2,3) show ?thesis
    by (auto simp: initiate_authentication_def with_sessions_def sessions_of_def
        sess_tab.get_ins
        split: if_splits outcome.splits prod.splits sum.splits option.splits)
qed

end

interpretation os_nonce: nonce_source os_nonces
  by unfold_locales
    (auto simp: os_nonces_def os_nonces_fill_def dest: getrandom_fill_length)

end
