(* ===== verification/Service.thy ===== *)
theory Service
  imports Sqlite
begin

text \<open>
  \<open>crates/smdp/src/service.rs\<close>: what the command line does, over any store: creating an
  order with a given or a drawn MatchingID, listing orders, reading the ICCID out of an encoded
  StoreMetadataRequest, and writing an activation code.
\<close>

datatype service_error = StoreErr store_error | NotStoreMetadata

definition display_service_error :: "service_error \<Rightarrow> string" where
  "display_service_error e =
     (case e of
        StoreErr e \<Rightarrow> display_store_error e
      | NotStoreMetadata \<Rightarrow>
          ''that is not a StoreMetadataRequest with an ICCID in it                  (euicc-tools' ''
          @ [CHR 0x60] @ ''euicc metadata'' @ [CHR 0x60] @ '' writes one)'')"

section \<open>Drawing a MatchingID\<close>

definition ALPHABET :: string where
  "ALPHABET = ''ABCDEFGHJKLMNPQRSTUVWXYZ23456789''"

definition matching_char :: "byte \<Rightarrow> char" where
  "matching_char b = ALPHABET ! unat (b AND 0x1f)"

definition generate_matching_id :: "os_random \<Rightarrow> string outcome" where
  "generate_matching_id rng =
     (case fst (getrandom_fill 22 rng) of
        Panic \<Rightarrow> Panic
      | Ret raw \<Rightarrow> Ret (map matching_char raw))"

section \<open>Orders\<close>

definition create_order ::
  "'st store_ops \<Rightarrow> os_random \<Rightarrow> 'st \<Rightarrow> bytes \<Rightarrow> bytes \<Rightarrow> bytes \<Rightarrow> string option \<Rightarrow>
     'st \<times> (service_error + order_t) outcome"
where
  "create_order S rng store iccid upp metadata matching_id =
     (case (case matching_id of Some m \<Rightarrow> Ret m | None \<Rightarrow> generate_matching_id rng) of
        Panic \<Rightarrow> (store, Panic)
      | Ret m \<Rightarrow>
          (case add_order S store
                  \<lparr> no_matching_id = m, no_iccid = iccid, no_upp = upp, no_metadata = metadata \<rparr> of
             (store', Inl e) \<Rightarrow> (store', Ret (Inl (StoreErr e)))
           | (store', Inr x) \<Rightarrow> (store', Ret (Inr x))))"

definition service_list_orders :: "'st store_ops \<Rightarrow> 'st \<Rightarrow> service_error + order_t list" where
  "service_list_orders S store =
     (case list_orders S store of Inl e \<Rightarrow> Inl (StoreErr e) | Inr xs \<Rightarrow> Inr xs)"

section \<open>The ICCID inside the metadata\<close>

text \<open>\<open>slice::get\<close> with an index and with a range.\<close>

definition get_at :: "bytes \<Rightarrow> nat \<Rightarrow> byte option" where
  "get_at xs i = (if i < length xs then Some (xs ! i) else None)"

definition get_range :: "bytes \<Rightarrow> nat \<Rightarrow> nat \<Rightarrow> bytes option" where
  "get_range xs i j = (if i \<le> j \<and> j \<le> length xs then Some (take (j - i) (drop i xs)) else None)"

definition iccid_from_metadata :: "bytes \<Rightarrow> service_error + bytes" where
  "iccid_from_metadata metadata =
     (if length metadata < 4 \<or> metadata ! 0 \<noteq> 0xbf \<or> metadata ! 1 \<noteq> 0x25
      then Inl NotStoreMetadata
      else
        (let p = 2 in
         case get_at metadata p of
           None \<Rightarrow> Inl NotStoreMetadata
         | Some first \<Rightarrow>
             (let p = p + 1;
                  n = unat (first AND 0x7f) in
              if 0x80 \<le> first \<and> (n = 0 \<or> n > 4) then Inl NotStoreMetadata
              else
                (let p = (if 0x80 \<le> first then p + n else p) in
                 if get_at metadata p \<noteq> Some 0x5a \<or> get_at metadata (p + 1) \<noteq> Some 0x0a
                 then Inl NotStoreMetadata
                 else
                   (let start = p + 2 in
                    case get_range metadata start (start + 10) of
                      None \<Rightarrow> Inl NotStoreMetadata
                    | Some i \<Rightarrow> if length i = 10 then Inr i else Inl NotStoreMetadata)))))"

section \<open>Activation codes\<close>

definition activation_code :: "string \<Rightarrow> string \<Rightarrow> string" where
  "activation_code host matching_id = ''LPA:1$'' @ host @ ''$'' @ matching_id"

section \<open>Reading the metadata\<close>

lemma get_at_Some: "get_at xs i = Some b \<longleftrightarrow> i < length xs \<and> xs ! i = b"
  by (auto simp: get_at_def)

lemma get_at_append [simp]:
  "get_at (xs @ ys) (length xs) = (case ys of [] \<Rightarrow> None | y # _ \<Rightarrow> Some y)"
  "get_at (xs @ y # ys) (Suc (length xs)) = (case ys of [] \<Rightarrow> None | z # _ \<Rightarrow> Some z)"
  by (auto simp: get_at_def nth_append split: list.split)

text \<open>Two given bytes and then \<open>n\<close> more, from position \<open>p\<close> on.\<close>

lemma window_iff:
  "get_at md p = Some a \<and> get_at md (p + 1) = Some b \<and> get_range md (p + 2) (p + 2 + n) = Some i
   \<longleftrightarrow> length i = n \<and> (\<exists>pre rest. length pre = p \<and> md = pre @ a # b # i @ rest)"
proof
  assume h: "get_at md p = Some a \<and> get_at md (p + 1) = Some b
    \<and> get_range md (p + 2) (p + 2 + n) = Some i"
  then have len: "p + 2 + n \<le> length md" and i: "i = take n (drop (p + 2) md)"
    by (auto simp: get_range_def split: if_splits)
  have "drop p md = a # b # drop (p + 2) md"
    using h len by (simp add: get_at_Some Cons_nth_drop_Suc [symmetric])
  then have "md = take p md @ a # b # i @ drop n (drop (p + 2) md)"
    using i by (metis append_take_drop_id)
  then show "length i = n \<and> (\<exists>pre rest. length pre = p \<and> md = pre @ a # b # i @ rest)"
    using len i by (intro conjI exI [of _ "take p md"] exI [of _ "drop n (drop (p + 2) md)"]) auto
next
  assume "length i = n \<and> (\<exists>pre rest. length pre = p \<and> md = pre @ a # b # i @ rest)"
  then show "get_at md p = Some a \<and> get_at md (p + 1) = Some b
    \<and> get_range md (p + 2) (p + 2 + n) = Some i"
    by (auto simp: get_at_Some get_range_def nth_append)
qed

text \<open>A definite BER length as the code accepts it: short, or one to four more octets.\<close>

definition definite_length :: "bytes \<Rightarrow> bool" where
  "definite_length l \<longleftrightarrow>
     (case l of
        [] \<Rightarrow> False
      | first # octets \<Rightarrow>
          (if first < 0x80 then octets = []
           else unat (first AND 0x7f) = length octets \<and> 1 \<le> length octets \<and> length octets \<le> 4))"

text \<open>Where the first member starts: after the tag and the length octets.\<close>

definition members_start :: "bytes \<Rightarrow> nat" where
  "members_start md = (if 0x80 \<le> md ! 2 then 3 + unat (md ! 2 AND 0x7f) else 3)"

lemma iccid_from_metadata_unfold:
  "iccid_from_metadata md = Inr i \<longleftrightarrow>
     4 \<le> length md \<and> md ! 0 = 0xbf \<and> md ! 1 = 0x25
     \<and> (if 0x80 \<le> md ! 2 then 1 \<le> unat (md ! 2 AND 0x7f) \<and> unat (md ! 2 AND 0x7f) \<le> 4 else True)
     \<and> get_at md (members_start md) = Some 0x5a \<and> get_at md (members_start md + 1) = Some 0x0a
     \<and> get_range md (members_start md + 2) (members_start md + 2 + 10) = Some i"
proof (cases "4 \<le> length md \<and> md ! 0 = 0xbf \<and> md ! 1 = 0x25")
  case True
  let ?n = "unat (md ! 2 AND 0x7f)"
  let ?q = "members_start md"
  have ten: "length j = 10" if "get_range md k (k + 10) = Some j" for k j
    using that by (auto simp: get_range_def split: if_splits)
  have "get_at md 2 = Some (md ! 2)"
    using True by (simp add: get_at_def)
  then have "iccid_from_metadata md =
      (if 0x80 \<le> md ! 2 \<and> (?n = 0 \<or> ?n > 4) then Inl NotStoreMetadata
       else if get_at md ?q \<noteq> Some 0x5a \<or> get_at md (?q + 1) \<noteq> Some 0x0a
       then Inl NotStoreMetadata
       else case get_range md (?q + 2) (?q + 2 + 10) of
              None \<Rightarrow> Inl NotStoreMetadata
            | Some i \<Rightarrow> if length i = 10 then Inr i else Inl NotStoreMetadata)"
    using True by (auto simp: iccid_from_metadata_def members_start_def Let_def)
  with True ten [of "?q + 2"] show ?thesis
    by (cases "get_range md (?q + 2) (?q + 2 + 10)") (simp_all add: not_less Suc_le_eq, blast)
qed (auto simp: iccid_from_metadata_def)

lemma metadata_prefix:
  assumes "4 \<le> length md"
  shows "md = [md ! 0, md ! 1, md ! 2] @ drop 3 md"
proof -
  have "take 3 md = [md ! 0, md ! 1, md ! 2]"
    using assms by (cases md; cases "tl md"; cases "tl (tl md)") auto
  then show ?thesis
    by (metis append_take_drop_id)
qed

lemma iccid_from_metadata_iff:
  "iccid_from_metadata md = Inr i \<longleftrightarrow>
     length i = 10
     \<and> (\<exists>l rest. definite_length l \<and> md = [0xbf, 0x25] @ l @ [0x5a, 0x0a] @ i @ rest)"
    (is "?lhs \<longleftrightarrow> ?rhs")
proof
  assume ?lhs
  then have len: "4 \<le> length md" and tag: "md ! 0 = 0xbf" "md ! 1 = 0x25"
    and long: "if 0x80 \<le> md ! 2 then 1 \<le> unat (md ! 2 AND 0x7f) \<and> unat (md ! 2 AND 0x7f) \<le> 4
      else True"
    and win: "get_at md (members_start md) = Some 0x5a
      \<and> get_at md (members_start md + 1) = Some 0x0a
      \<and> get_range md (members_start md + 2) (members_start md + 2 + 10) = Some i"
    unfolding iccid_from_metadata_unfold by blast+
  from win obtain pre rest where i: "length i = 10" and pre: "length pre = members_start md"
    and md: "md = pre @ 0x5a # 0x0a # i @ rest"
    unfolding window_iff by blast
  let ?l = "md ! 2 # drop 3 pre"
  have "3 \<le> length pre"
    by (simp add: pre members_start_def)
  then have "drop 3 md = drop 3 pre @ 0x5a # 0x0a # i @ rest"
    by (subst md) simp
  then have "md = [0xbf, 0x25] @ ?l @ [0x5a, 0x0a] @ i @ rest"
    using metadata_prefix [OF len] tag by simp
  moreover have "definite_length ?l"
    using long by (auto simp: definite_length_def pre members_start_def not_le)
  ultimately show ?rhs
    using i by blast
next
  assume ?rhs
  then obtain l rest where i: "length i = 10" and l: "definite_length l"
    and md: "md = [0xbf, 0x25] @ l @ [0x5a, 0x0a] @ i @ rest"
    by blast
  then obtain first octets where l': "l = first # octets"
    by (auto simp: definite_length_def split: list.splits)
  have start: "members_start md = 3 + length octets"
    using l by (auto simp: members_start_def md l' definite_length_def split: if_splits)
  have "get_at md (members_start md) = Some 0x5a \<and> get_at md (members_start md + 1) = Some 0x0a
      \<and> get_range md (members_start md + 2) (members_start md + 2 + 10) = Some i"
    unfolding window_iff start using i
    by (intro conjI exI [of _ "[0xbf, 0x25] @ l"] exI [of _ rest]) (simp_all add: md l')
  moreover have "4 \<le> length md \<and> md ! 0 = 0xbf \<and> md ! 1 = 0x25 \<and> md ! 2 = first"
    by (simp add: md l')
  ultimately show ?lhs
    using l unfolding iccid_from_metadata_unfold
    by (auto simp: l' definite_length_def split: if_splits)
qed

section \<open>The MatchingIDs that can be drawn\<close>

lemma alphabet_facts: "length ALPHABET = 32" "distinct ALPHABET"
  by (simp_all add: ALPHABET_def)

lemma matching_char_index: "matching_char b = ALPHABET ! (unat b mod 32)"
proof -
  have "b AND 0x1f = take_bit 5 b"
    by (simp add: take_bit_eq_mask mask_eq_exp_minus_1)
  then have "unat (b AND 0x1f) = unat b mod 32"
    by (simp add: unat_mod_distrib take_bit_eq_mod)
  then show ?thesis
    by (simp add: matching_char_def)
qed

lemma matching_char_in_alphabet: "matching_char b \<in> set ALPHABET"
  by (simp add: matching_char_index alphabet_facts)

text \<open>Every symbol stands for exactly eight bytes.\<close>

lemma card_matching_char:
  assumes "c \<in> set ALPHABET"
  shows "card {b. matching_char b = c} = 8"
proof -
  obtain k where k: "k < 32" and c: "c = ALPHABET ! k"
    using assms by (auto simp: in_set_conv_nth alphabet_facts)
  let ?f = "\<lambda>j :: nat. of_nat (32 * j + k) :: byte"
  have val: "unat (?f j) = 32 * j + k" if "j < 8" for j
    using that k by (intro unat_of_nat_byte) simp
  have "{b. matching_char b = c} = ?f ` {..<8}"
  proof
    show "?f ` {..<8} \<subseteq> {b. matching_char b = c}"
      using k by (auto simp: matching_char_index c val simp del: of_nat_add of_nat_mult)
    show "{b. matching_char b = c} \<subseteq> ?f ` {..<8}"
    proof
      fix b assume "b \<in> {b. matching_char b = c}"
      then have "unat b mod 32 = k"
        using k nth_eq_iff_index_eq [OF alphabet_facts(2), of "unat b mod 32" k]
        by (simp add: matching_char_index c alphabet_facts(1))
      then have "32 * (unat b div 32) + k = unat b"
        by (metis mult_div_mod_eq)
      then have "b = ?f (unat b div 32)"
        by (simp del: of_nat_add of_nat_mult)
      moreover have "unat b < 2 ^ LENGTH(8)"
        by (rule unsigned_less)
      then have "unat b div 32 < 8" by simp
      ultimately show "b \<in> ?f ` {..<8}"
        by blast
    qed
  qed
  moreover have "inj_on ?f {..<8}"
    by (rule inj_onI) (use val in \<open>metis lessThan_iff add_right_cancel mult_cancel_left
      zero_neq_numeral\<close>)
  ultimately show ?thesis
    by (simp add: card_image)
qed

lemma card_draws:
  "set m \<subseteq> set ALPHABET \<Longrightarrow> card {bs. map matching_char bs = m} = 8 ^ length m"
proof (induction m)
  case (Cons c m)
  have "{bs. map matching_char bs = c # m}
      = (\<lambda>(b, bs). b # bs) ` ({b. matching_char b = c} \<times> {bs. map matching_char bs = m})"
    by (auto simp: map_eq_Cons_conv image_iff)
  moreover have "inj_on (\<lambda>(b, bs). b # bs)
      ({b. matching_char b = c} \<times> {bs. map matching_char bs = m})"
    by (auto simp: inj_on_def)
  ultimately show ?case
    using Cons by (simp add: card_image card_cartesian_product card_matching_char)
qed simp

lemma generate_matching_id_eq:
  "generate_matching_id r =
     (if csprng_up r then Ret (map (\<lambda>k. matching_char (tape r (pos r + k))) [0..<22]) else Panic)"
proof -
  have "map (tape r) [pos r ..< pos r + 22] = map (\<lambda>k. tape r (pos r + k)) [0..<22]"
    by (rule nth_equalityI) simp_all
  then show ?thesis
    by (simp add: generate_matching_id_def getrandom_fill_def o_def del: upt_rec_numeral upt_conv_Cons)
qed

section \<open>Properties\<close>

text \<open>
  C27: the ICCID is read from exactly the right inputs: the reader returns \<open>i\<close> if and only if the
  metadata is \<open>BF 25\<close>, a definite length of one to five octets, \<open>5A 0A\<close>, the ten octets of
  \<open>i\<close>, and anything after that. It never reads past the end, and everything else is refused.
\<close>

theorem iccid_from_metadata_correct:
  "(iccid_from_metadata md = Inr i \<longleftrightarrow>
      length i = 10
      \<and> (\<exists>l rest. definite_length l \<and> md = [0xbf, 0x25] @ l @ [0x5a, 0x0a] @ i @ rest))
   \<and> iccid_from_metadata md \<in> insert (Inl NotStoreMetadata) (range Inr)"
  by (intro conjI iccid_from_metadata_iff)
    (auto simp: iccid_from_metadata_def Let_def split: option.split)

text \<open>
  C36: a drawn MatchingID has no bias. It has 22 characters of the alphabet, one per random byte;
  and of all the byte strings the source can deliver, exactly the same number, eight for every
  character, leads to each string over the alphabet. The draw panics only when the source is
  down.
\<close>

theorem matching_ids_are_uniform:
  assumes "set m \<subseteq> set ALPHABET"
  shows "card {bs. map matching_char bs = m} = 8 ^ length m
    \<and> generate_matching_id r =
        (if csprng_up r
         then Ret (map matching_char (map (\<lambda>k. tape r (pos r + k)) [0..<22])) else Panic)"
  using card_draws [OF assms] generate_matching_id_eq [of r] by (simp add: o_def del: upt_rec_numeral)

theorem matching_ids_are_uniform_witness:
  "card {bs. map matching_char bs = ''SMDP''} = 8 ^ 4"
  using matching_ids_are_uniform [of "''SMDP''" undefined] by (simp add: ALPHABET_def)

text \<open>
  An activation code names one host and one MatchingID: two codes for hosts without a dollar
  sign are equal only if both parts are.
\<close>

theorem activation_code_injective:
  assumes "CHR ''$'' \<notin> set h1" and "CHR ''$'' \<notin> set h2"
  shows "activation_code h1 m1 = activation_code h2 m2 \<longleftrightarrow> h1 = h2 \<and> m1 = m2"
proof
  assume "activation_code h1 m1 = activation_code h2 m2"
  then have eq: "h1 @ ''$'' @ m1 = h2 @ ''$'' @ m2"
    by (simp add: activation_code_def)
  have host: "takeWhile (\<lambda>c. c \<noteq> CHR ''$'') (h @ ''$'' @ m) = h" if "CHR ''$'' \<notin> set h" for h m
    using that by (induction h) auto
  show "h1 = h2 \<and> m1 = m2"
    using arg_cong [OF eq, of "takeWhile (\<lambda>c. c \<noteq> CHR ''$'')"] eq
    unfolding host [OF assms(1)] host [OF assms(2)] by simp
qed simp

theorem activation_code_injective_witness:
  "activation_code ''a.example'' ''M'' \<noteq> activation_code ''b.example'' ''M''"
  using activation_code_injective [of "''a.example''" "''b.example''" "''M''" "''M''"] by simp

end
