(* ===== verification/Database.thy ===== *)
theory Database
  imports Sqlite
begin

text \<open>
  What the SQLite provider of \<open>crates/smdp/src/store/sqlite.rs\<close> promises as a whole: a
  sequence of \<open>Store\<close> calls behaves as on two plain lists, whatever statements the database
  fails in between, and opening a file creates, migrates or refuses it.
\<close>

section \<open>The abstract store\<close>

datatype store_call =
    AddOrder new_order
  | ListAll
  | ByMatchingId string
  | ByIccid bytes
  | BindEuicc int string bytes
  | SetState int order_state
  | RecordNotification new_notification
  | AllNotifications

datatype store_result =
    Refused_by store_error
  | Added order_t
  | Listed "order_t list"
  | FoundOrder "order_t option"
  | Done
  | ListedNotifications "stored_notification list"

fun result_of :: "('a \<Rightarrow> store_result) \<Rightarrow> store_error + 'a \<Rightarrow> store_result" where
  "result_of f (Inl e) = Refused_by e"
| "result_of f (Inr a) = f a"

text \<open>A call on a provider, read methods leaving the state as it is.\<close>

fun call_store :: "'st store_ops \<Rightarrow> 'st \<Rightarrow> store_call \<Rightarrow> 'st \<times> store_result" where
  "call_store S st (AddOrder n) = map_prod id (result_of Added) (add_order S st n)"
| "call_store S st ListAll = (st, result_of Listed (list_orders S st))"
| "call_store S st (ByMatchingId m) = (st, result_of FoundOrder (order_by_matching_id S st m))"
| "call_store S st (ByIccid i) = (st, result_of FoundOrder (order_by_iccid S st i))"
| "call_store S st (BindEuicc k e c) = map_prod id (result_of (\<lambda>_. Done)) (bind_euicc S st k e c)"
| "call_store S st (SetState k s) = map_prod id (result_of (\<lambda>_. Done)) (set_state S st k s)"
| "call_store S st (RecordNotification n) =
     map_prod id (result_of (\<lambda>_. Done)) (record_notification S st n)"
| "call_store S st AllNotifications =
     (st, result_of ListedNotifications (notifications S st))"

text \<open>The statement a call runs.\<close>

fun stmt_of :: "store_call \<Rightarrow> sql_stmt" where
  "stmt_of (AddOrder _) = InsertOrder"
| "stmt_of ListAll = SelectOrders"
| "stmt_of (ByMatchingId _) = SelectOneOrder"
| "stmt_of (ByIccid _) = SelectOneOrder"
| "stmt_of (BindEuicc _ _ _) = UpdateEuicc"
| "stmt_of (SetState _ _) = UpdateState"
| "stmt_of (RecordNotification _) = InsertNotification"
| "stmt_of AllNotifications = SelectNotifications"

text \<open>The specification: the orders and the notifications, each in the order they came.\<close>

record store_spec =
  sp_orders :: "order_t list"
  sp_notifications :: "stored_notification list"

fun spec_call :: "store_spec \<Rightarrow> store_call \<Rightarrow> store_spec \<times> store_result" where
  "spec_call sp (AddOrder n) =
     (if no_matching_id n \<in> set (map ord_matching_id (sp_orders sp))
      then (sp, Refused_by (DuplicateMatchingId (no_matching_id n)))
      else (let x = new_order_at (fresh_id (map ord_id (sp_orders sp))) n in
            (sp\<lparr>sp_orders := sp_orders sp @ [x]\<rparr>, Added x)))"
| "spec_call sp ListAll = (sp, Listed (sp_orders sp))"
| "spec_call sp (ByMatchingId m) =
     (sp, FoundOrder (find (\<lambda>x. ord_matching_id x = m) (sp_orders sp)))"
| "spec_call sp (ByIccid i) = (sp, FoundOrder (find (\<lambda>x. ord_iccid x = i) (sp_orders sp)))"
| "spec_call sp (BindEuicc k e c) =
     (sp\<lparr>sp_orders := update_order k (\<lambda>x. x\<lparr>ord_eid := Some e, ord_euicc_cert := Some c\<rparr>)
           (sp_orders sp)\<rparr>, Done)"
| "spec_call sp (SetState k s) =
     (sp\<lparr>sp_orders := update_order k (\<lambda>x. x\<lparr>ord_state := s\<rparr>) (sp_orders sp)\<rparr>, Done)"
| "spec_call sp (RecordNotification n) =
     (sp\<lparr>sp_notifications :=
           sp_notifications sp
           @ [stored_at (fresh_id (map sn_id (sp_notifications sp))) n]\<rparr>, Done)"
| "spec_call sp AllNotifications = (sp, ListedNotifications (sp_notifications sp))"

definition spec_of :: "conn \<Rightarrow> store_spec" where
  "spec_of c = \<lparr> sp_orders = db_orders c, sp_notifications = db_notifications c \<rparr>"

text \<open>An ICCID is a \<open>[u8; 10]\<close>; a call respects that.\<close>

fun call_typed :: "store_call \<Rightarrow> bool" where
  "call_typed (AddOrder n) = (length (no_iccid n) = 10)"
| "call_typed _ = True"

text \<open>Calls one after another, each under what the database then fails with.\<close>

fun sqlite_calls ::
  "conn \<Rightarrow> ((sql_stmt \<Rightarrow> string option) \<times> store_call) list \<Rightarrow> conn \<times> store_result list"
where
  "sqlite_calls c [] = (c, [])"
| "sqlite_calls c ((f, call) # rest) =
     (let (c1, r) = call_store sqlite_store (c\<lparr>faults := f\<rparr>) call;
          (c2, rs) = sqlite_calls c1 rest in (c2, r # rs))"

fun spec_calls ::
  "store_spec \<Rightarrow> ((sql_stmt \<Rightarrow> string option) \<times> store_call) list \<Rightarrow> store_spec \<times> store_result list"
where
  "spec_calls sp [] = (sp, [])"
| "spec_calls sp ((f, call) # rest) =
     (let (sp1, r) = (case f (stmt_of call) of
                        Some t \<Rightarrow> (sp, Refused_by (Db (OtherError t)))
                      | None \<Rightarrow> spec_call sp call);
          (sp2, rs) = spec_calls sp1 rest in (sp2, r # rs))"

section \<open>Each call implements its specification\<close>

lemma row_to_order_db: "db_inv c \<Longrightarrow> r \<in> set (db_rows c) \<Longrightarrow> row_to_order r = Inr (order_of_row r)"
  using db_inv_rows(3) [of c] by (auto simp: list_all_iff row_to_order_ok)

lemma one_eq:
  assumes "db_inv c" and "\<And>r. P (order_of_row r) = Q r"
  shows "one c Q = (case faults c SelectOneOrder of
      Some t \<Rightarrow> Inl (Db (OtherError t)) | None \<Rightarrow> Inr (find P (db_orders c)))"
proof -
  have *: "find P (db_orders c) = map_option order_of_row (find Q (db_rows c))"
    unfolding db_orders_def by (rule find_map_order_of_row) (rule assms(2))
  have "row_to_order r = Inr (order_of_row r)" if "find Q (db_rows c) = Some r" for r
    using that row_to_order_db [OF assms(1)] by (metis find_Some_iff nth_mem)
  then show ?thesis
    unfolding *
    by (auto simp: one_def read_stmt_def order_rows_ok [OF assms(1)] split: option.splits)
qed

lemma update_rows_snd:
  "db_inv c \<Longrightarrow> snd (update_rows c s k f) =
     (case faults c s of Some t \<Rightarrow> Inl (OtherError t) | None \<Rightarrow> Inr ())"
  by (simp add: update_rows_def run_stmt_def db_inv_rows split: option.split)

lemma bind_euicc_snd:
  "db_inv c \<Longrightarrow> snd (sqlite_bind_euicc c k e cert) =
     (case faults c UpdateEuicc of Some t \<Rightarrow> Inl (Db (OtherError t)) | None \<Rightarrow> Inr ())"
  by (simp add: sqlite_bind_euicc_def update_rows_snd split: option.split)

lemma set_state_snd:
  "db_inv c \<Longrightarrow> snd (sqlite_set_state c k s) =
     (case faults c UpdateState of Some t \<Rightarrow> Inl (Db (OtherError t)) | None \<Rightarrow> Inr ())"
  by (simp add: sqlite_set_state_def update_rows_snd split: option.split)

lemma record_notification_eq:
  assumes "db_inv c"
  shows "sqlite_record_notification c n =
    (case faults c InsertNotification of
       Some t \<Rightarrow> (c, Inl (Db (OtherError t)))
     | None \<Rightarrow>
         (c\<lparr>notifications_tab := Some \<lparr> has_verified = True,
              q_rows = db_qrows c @ [notification_row_of (fresh_id (map sn_id (db_notifications c))) n] \<rparr>\<rparr>,
          Inr ()))"
proof -
  obtain t where t: "notifications_tab c = Some t" "has_verified t" "q_rows t = db_qrows c"
    using db_inv_notifications [OF assms] by metis
  have ids: "map sn_id (db_notifications c) = map q_id (db_qrows c)"
    by (simp add: db_notifications_def row_to_notification_def)
  show ?thesis
    using t unfolding ids
    by (cases t) (simp add: sqlite_record_notification_def run_stmt_def Let_def split: option.split)
qed

lemma spec_of_frame [simp]:
  "sp_orders (spec_of c) = db_orders c"
  "sp_notifications (spec_of c) = db_notifications c"
  "spec_of (c\<lparr>faults := f\<rparr>) = spec_of c"
  by (simp_all add: spec_of_def)

lemma spec_of_eqI:
  "db_orders c' = os \<Longrightarrow> db_notifications c' = ns \<Longrightarrow>
     spec_of c' = \<lparr> sp_orders = os, sp_notifications = ns \<rparr>"
  by (simp add: spec_of_def)

lemma spec_of_update [simp]:
  "(spec_of c)\<lparr>sp_orders := os\<rparr> = \<lparr> sp_orders = os, sp_notifications = db_notifications c \<rparr>"
  "(spec_of c)\<lparr>sp_notifications := ns\<rparr> = \<lparr> sp_orders = db_orders c, sp_notifications = ns \<rparr>"
  by (simp_all add: spec_of_def)

lemma notification_views_set_rows:
  assumes "c' = c\<lparr>notifications_tab := Some \<lparr> has_verified = True,
      q_rows = db_qrows c @ [notification_row_of i n] \<rparr>\<rparr>"
  shows "db_orders c' = db_orders c"
    and "db_notifications c' = db_notifications c @ [stored_at i n]"
  by (simp_all add: assms db_orders_def db_rows_def db_notifications_def db_qrows_def)

text \<open>One call: refused with the database's own error and no effect, or as specified.\<close>

definition expected :: "conn \<Rightarrow> store_call \<Rightarrow> store_spec \<times> store_result" where
  "expected c call =
     (case faults c (stmt_of call) of
        Some t \<Rightarrow> (spec_of c, Refused_by (Db (OtherError t)))
      | None \<Rightarrow> spec_call (spec_of c) call)"

lemma call_add_order:
  assumes inv: "db_inv c"
  shows "map_prod spec_of id (call_store sqlite_store c (AddOrder n)) = expected c (AddOrder n)"
  by (auto simp: sqlite_add_order_eq [OF inv] expected_def Let_def spec_of_eqI db_orders_def
      split: option.split)

lemma call_reads:
  assumes inv: "db_inv c"
  shows "map_prod spec_of id (call_store sqlite_store c ListAll) = expected c ListAll"
    and "map_prod spec_of id (call_store sqlite_store c AllNotifications)
      = expected c AllNotifications"
    and "map_prod spec_of id (call_store sqlite_store c (ByMatchingId m))
      = expected c (ByMatchingId m)"
    and "map_prod spec_of id (call_store sqlite_store c (ByIccid i)) = expected c (ByIccid i)"
  by (simp_all add: expected_def sqlite_list_orders_eq [OF inv] sqlite_notifications_eq [OF inv]
      sqlite_order_by_matching_id_def sqlite_order_by_iccid_def
      one_eq [OF inv, where P = "\<lambda>x. ord_matching_id x = m"]
      one_eq [OF inv, where P = "\<lambda>x. ord_iccid x = i"] split: option.split)

lemma call_update:
  assumes inv: "db_inv c"
  shows "map_prod spec_of id (call_store sqlite_store c (SetState k s)) = expected c (SetState k s)"
    and "map_prod spec_of id (call_store sqlite_store c (BindEuicc k e cert))
      = expected c (BindEuicc k e cert)"
proof -
  obtain c1 u1 where set: "sqlite_set_state c k s = (c1, u1)" by force
  show "map_prod spec_of id (call_store sqlite_store c (SetState k s)) = expected c (SetState k s)"
    using sqlite_set_state_effect [OF inv set] set_state_snd [OF inv, of k s]
    by (auto simp: set expected_def spec_of_eqI spec_of_def split: option.splits)
  obtain c2 u2 where bind: "sqlite_bind_euicc c k e cert = (c2, u2)" by force
  show "map_prod spec_of id (call_store sqlite_store c (BindEuicc k e cert))
      = expected c (BindEuicc k e cert)"
    using sqlite_bind_euicc_effect [OF inv bind] bind_euicc_snd [OF inv, of k e cert]
    by (auto simp: bind expected_def spec_of_eqI spec_of_def split: option.splits)
qed

lemma call_record:
  assumes inv: "db_inv c"
  shows "map_prod spec_of id (call_store sqlite_store c (RecordNotification n))
    = expected c (RecordNotification n)"
proof -
  let ?i = "fresh_id (map sn_id (db_notifications c))"
  note views = notification_views_set_rows [OF refl, of c ?i n]
  show ?thesis
    by (simp add: record_notification_eq [OF inv] expected_def spec_of_eqI [OF views]
        split: option.split)
qed

lemma call_store_refines:
  assumes "db_inv c"
  shows "map_prod spec_of id (call_store sqlite_store c call) = expected c call"
  using call_add_order [OF assms] call_reads [OF assms] call_update [OF assms]
    call_record [OF assms]
  by (cases call) (simp_all only:)

lemma call_store_inv:
  assumes inv: "db_inv c" and typed: "call_typed call"
  shows "db_inv (fst (call_store sqlite_store c call))"
proof (cases call)
  case (AddOrder n)
  obtain c' r where run: "sqlite_add_order c n = (c', r)" by force
  then show ?thesis
    using AddOrder typed inv sqlite_add_order_Inl [OF inv] sqlite_add_order_effect [OF inv, of n c']
    by (cases r) auto
next
  case (BindEuicc k e cert)
  obtain c' r where "sqlite_bind_euicc c k e cert = (c', r)" by force
  with BindEuicc sqlite_bind_euicc_effect [OF inv this] show ?thesis by simp
next
  case (SetState k s)
  obtain c' r where "sqlite_set_state c k s = (c', r)" by force
  with SetState sqlite_set_state_effect [OF inv this] show ?thesis by simp
next
  case (RecordNotification n)
  obtain c' r where "sqlite_record_notification c n = (c', r)" by force
  with RecordNotification sqlite_record_notification_effect [OF inv this] show ?thesis by simp
qed (use inv in simp_all)

lemma sqlite_calls_refine:
  assumes "db_inv c" and "list_all (\<lambda>(f, call). call_typed call) calls"
  shows "db_inv (fst (sqlite_calls c calls))
    \<and> map_prod spec_of id (sqlite_calls c calls) = spec_calls (spec_of c) calls"
  using assms
proof (induction c calls rule: sqlite_calls.induct)
  case (2 c f call rest)
  obtain c1 r where run: "call_store sqlite_store (c\<lparr>faults := f\<rparr>) call = (c1, r)" by force
  have inv: "db_inv (c\<lparr>faults := f\<rparr>)" using 2 by simp
  have inv1: "db_inv c1"
    using call_store_inv [OF inv, of call] 2 by (simp add: run)
  have "(spec_of c1, r) = expected (c\<lparr>faults := f\<rparr>) call"
    using call_store_refines [OF inv, of call] by (simp add: run)
  then have step: "(case f (stmt_of call) of
      Some t \<Rightarrow> (spec_of c, Refused_by (Db (OtherError t))) | None \<Rightarrow> spec_call (spec_of c) call)
      = (spec_of c1, r)"
    by (simp add: expected_def split: option.splits)
  obtain c2 rs where rest: "sqlite_calls c1 rest = (c2, rs)" by force
  have "db_inv c2 \<and> spec_calls (spec_of c1) rest = (spec_of c2, rs)"
    using 2(1) [OF run [symmetric] refl inv1] 2(3) by (simp add: rest)
  then show ?case
    by (simp add: run rest step)
qed simp

section \<open>Opening a file\<close>

declare sqlite_open_def [open_defs] migrate_def [open_defs] read_version_def [open_defs]
  count_notification_tables_def [open_defs] exec_schema_def [open_defs]
  create_orders_def [open_defs] create_index_def [open_defs] create_notifications_def [open_defs]
  alter_notifications_def [open_defs] stamp_version_def [open_defs] run_stmt_def [open_defs]
  read_stmt_def [open_defs]

lemma open_fresh:
  assumes "sqlite_open (empty_conn f) = (db, Inr ())"
  shows "db_inv db" and "db_orders db = []" and "db_notifications db = []" and "faults db = f"
  using assms
  by (auto simp: open_defs empty_conn_def db_inv_def db_rows_def db_qrows_def db_orders_def
      db_notifications_def SCHEMA_VERSION_def split: option.splits)

lemma open_fresh_no_faults:
  "\<exists>db. sqlite_open (empty_conn (\<lambda>_. None)) = (db, Inr ())"
  by (simp add: open_defs empty_conn_def)

lemma open_current_no_faults:
  assumes "db_inv c" and "faults c = (\<lambda>_. None)"
  shows "sqlite_open c = (c, Inr ())"
proof -
  have "user_version c = 2"
    using assms(1) by (simp add: db_inv_def SCHEMA_VERSION_def)
  then have "sqlite_open c = (c\<lparr>user_version := user_version c\<rparr>, Inr ())"
    using assms(2) by (simp add: open_defs SCHEMA_VERSION_def)
  then show ?thesis by simp
qed

text \<open>A database written before schema versions were tracked.\<close>

definition version_1 :: "conn \<Rightarrow> bool" where
  "version_1 c \<longleftrightarrow>
     user_version c = 0 \<and> orders_tab c \<noteq> None
     \<and> (case notifications_tab c of None \<Rightarrow> False | Some t \<Rightarrow> \<not> has_verified t)
     \<and> sorted_wrt (<) (map r_id (db_rows c)) \<and> distinct (map r_matching_id (db_rows c))
     \<and> list_all row_ok (db_rows c) \<and> sorted_wrt (<) (map q_id (db_qrows c))"

definition as_verified :: "stored_notification \<Rightarrow> stored_notification" where
  "as_verified n = n\<lparr>sn_verified := True\<rparr>"

lemma row_to_notification_verified:
  "row_to_notification (r\<lparr>q_verified := 1\<rparr>) = as_verified (row_to_notification r)"
  by (simp add: row_to_notification_def as_verified_def)

lemma migrate_version_1:
  assumes "version_1 c" and "faults c = (\<lambda>_. None)"
  shows "\<exists>c'. sqlite_open c = (c', Inr ()) \<and> db_inv c' \<and> db_orders c' = db_orders c
    \<and> db_notifications c' = map as_verified (db_notifications c)"
proof -
  obtain t where t: "notifications_tab c = Some t" "\<not> has_verified t"
    using assms(1) by (auto simp: version_1_def split: option.splits)
  let ?rows = "map (\<lambda>r. r\<lparr>q_verified := 1\<rparr>) (q_rows t)"
  let ?c = "c\<lparr>notifications_tab := Some \<lparr> has_verified = True, q_rows = ?rows \<rparr>,
              user_version := SCHEMA_VERSION\<rparr>"
  have "sqlite_open c = (?c, Inr ())"
    using assms t by (simp add: open_defs version_1_def)
  moreover have views: "db_rows ?c = db_rows c" "db_qrows ?c = ?rows"
    by (simp_all add: db_rows_def db_qrows_def)
  moreover have "map q_id ?rows = map q_id (db_qrows c)"
    by (simp add: db_qrows_def t)
  ultimately have "db_inv ?c"
    using assms(1) unfolding db_inv_def version_1_def views by simp
  moreover have "db_notifications ?c = map as_verified (db_notifications c)"
    by (simp add: db_notifications_def views) (simp add: db_qrows_def t row_to_notification_verified)
  moreover have "db_orders ?c = db_orders c"
    by (simp add: db_orders_def views)
  ultimately show ?thesis
    using \<open>sqlite_open c = (?c, Inr ())\<close> by blast
qed

text \<open>A file that a stopped migration leaves behind: the new column, the old version.\<close>

definition half_migrated :: "conn \<Rightarrow> bool" where
  "half_migrated c \<longleftrightarrow>
     user_version c = 0 \<and> (case notifications_tab c of None \<Rightarrow> False | Some t \<Rightarrow> has_verified t)"

lemma half_migrated_stuck:
  "half_migrated c \<Longrightarrow> \<exists>e. sqlite_open c = (c, Inl e)"
  by (auto simp: half_migrated_def open_defs split: option.splits)

definition half_created :: "(sql_stmt \<Rightarrow> string option) \<Rightarrow> conn" where
  "half_created f =
     \<lparr> user_version = 0, orders_tab = Some [],
       notifications_tab = Some \<lparr> has_verified = True, q_rows = [] \<rparr>, faults = f \<rparr>"

lemma interrupted_open:
  "sqlite_open (empty_conn ((\<lambda>_. None)(StampVersion := Some t)))
     = (half_created ((\<lambda>_. None)(StampVersion := Some t)), Inl (Db (OtherError t)))"
  by (simp add: open_defs empty_conn_def half_created_def)

section \<open>Properties\<close>

text \<open>
  C9: the SQLite provider refines the abstract store. Over any sequence of \<open>Store\<close> calls, the
  database failing each of them or not, the results are those of the two plain lists: a failed
  call is reported as a database error and has no effect, a MatchingID that is taken is refused
  as a duplicate, a new order gets the next row id, lookups return the first match, updates
  touch exactly the order they name, notifications are appended. The database stays one this
  version can work with.
\<close>

theorem sqlite_refines_lists:
  assumes "db_inv c" and "list_all (\<lambda>(f, call). call_typed call) calls"
  shows "db_inv (fst (sqlite_calls c calls))
    \<and> map_prod spec_of id (sqlite_calls c calls) = spec_calls (spec_of c) calls"
  using assms by (rule sqlite_calls_refine)

text \<open>
  A file that does not exist yet is created with both tables, empty, at the current version,
  and opening it again changes nothing.
\<close>

theorem open_creates:
  "\<exists>db. sqlite_open (empty_conn (\<lambda>_. None)) = (db, Inr ()) \<and> db_inv db
     \<and> db_orders db = [] \<and> db_notifications db = [] \<and> sqlite_open db = (db, Inr ())"
proof -
  obtain db where db: "sqlite_open (empty_conn (\<lambda>_. None)) = (db, Inr ())"
    using open_fresh_no_faults by blast
  note fresh = open_fresh [OF db]
  from db fresh open_current_no_faults [OF fresh(1,4)] show ?thesis by simp
qed

text \<open>
  C32: migration keeps everything. A database of the version without the \<open>verified\<close> column
  opens as a current one with the same orders and the same notifications, each of them marked
  verified, as all that version stored were.
\<close>

theorem migration_keeps_data:
  assumes "version_1 c" and "faults c = (\<lambda>_. None)"
  shows "\<exists>c'. sqlite_open c = (c', Inr ()) \<and> db_inv c' \<and> db_orders c' = db_orders c
    \<and> db_notifications c' = map as_verified (db_notifications c)"
  using assms by (rule migrate_version_1)

text \<open>
  Whatever fails, opening loses nothing: in any state of the file, with any statement
  failing, the orders are untouched and every notification is still there, at most with its
  \<open>verified\<close> mark backfilled.
\<close>

theorem open_loses_nothing:
  "db_orders (fst (sqlite_open c)) = db_orders c
   \<and> map as_verified (db_notifications (fst (sqlite_open c))) = map as_verified (db_notifications c)"
  by (auto simp: open_defs db_orders_def db_rows_def db_notifications_def db_qrows_def
      row_to_notification_verified as_verified_def o_def split: option.splits)

text \<open>
  A database written by a newer version is left exactly as it is and never opens; when it can
  be read at all, the error names its version.
\<close>

theorem newer_schema_is_refused:
  assumes "user_version c > SCHEMA_VERSION"
  shows "fst (sqlite_open c) = c \<and> snd (sqlite_open c) \<noteq> Inr ()
    \<and> (faults c = (\<lambda>_. None) \<longrightarrow> snd (sqlite_open c) = Inl (SchemaTooNew (user_version c)))"
  using assms by (auto simp: open_defs SCHEMA_VERSION_def split: option.splits)

text \<open>
  C33: creating the schema is not atomic. If the process dies, or the database fails, after the
  tables exist and before the version is stamped, the file is taken for the old version from
  then on: every later attempt to open it fails (with no further fault, on a duplicate column)
  and changes nothing, although no data was ever in danger.
\<close>

theorem interrupted_creation_never_opens:
  fixes later :: "sql_stmt \<Rightarrow> string option"
  shows "case sqlite_open (empty_conn ((\<lambda>_. None)(StampVersion := Some ''disk I/O error''))) of
      (c, r) \<Rightarrow>
        r = Inl (Db (OtherError ''disk I/O error''))
        \<and> sqlite_open (c\<lparr>faults := \<lambda>_. None\<rparr>)
            = (c\<lparr>faults := \<lambda>_. None\<rparr>, Inl (Db (OtherError ''duplicate column name: verified'')))
        \<and> (\<exists>e. sqlite_open (c\<lparr>faults := later\<rparr>) = (c\<lparr>faults := later\<rparr>, Inl e))"
proof -
  have "\<exists>e. sqlite_open (half_created later) = (half_created later, Inl e)"
    by (rule half_migrated_stuck) (simp add: half_created_def half_migrated_def)
  moreover have "sqlite_open (half_created (\<lambda>_. None))
      = (half_created (\<lambda>_. None), Inl (Db (OtherError ''duplicate column name: verified'')))"
    by (simp add: half_created_def open_defs)
  ultimately show ?thesis
    unfolding interrupted_open by (simp add: half_created_def)
qed

section \<open>The properties at work\<close>

definition demo_db :: conn where
  "demo_db =
     \<lparr> user_version = 2,
       orders_tab = Some
         [\<lparr> r_id = 1, r_matching_id = ''MATCH-1'', r_iccid = replicate 10 0x98, r_upp = [1, 2, 3],
            r_metadata = [0xbf, 0x25], r_state = ''available'', r_eid = None,
            r_euicc_cert = None \<rparr>],
       notifications_tab = Some \<lparr> has_verified = True, q_rows = [] \<rparr>,
       faults = (\<lambda>_. None) \<rparr>"

definition demo_old_db :: conn where
  "demo_old_db = demo_db\<lparr>user_version := 0,
     notifications_tab := Some
       \<lparr> has_verified = False,
         q_rows = [\<lparr> q_id = 1, q_order_id = Some 1, q_seq_number = 7, q_operation = 0x80,
                     q_iccid = None, q_installed = Some 1, q_verified = 0, q_raw = [0xbf, 0x37] \<rparr>] \<rparr>\<rparr>"

lemma demo_db_inv [simp]: "db_inv demo_db"
  by (simp add: demo_db_def db_inv_def db_rows_def db_qrows_def row_ok_def SCHEMA_VERSION_def
      parse_order_state_def)

lemma demo_db_facts [simp]:
  "faults demo_db = (\<lambda>_. None)"
  "map r_id (db_rows demo_db) = [1]"
  "r_id ` set (db_rows demo_db) = {1}"
  "r_matching_id ` set (db_rows demo_db) = {''MATCH-1''}"
  by (simp_all add: demo_db_def db_rows_def)

lemma demo_old_db_version_1: "version_1 demo_old_db"
  by (simp add: demo_old_db_def demo_db_def version_1_def db_rows_def db_qrows_def row_ok_def
      parse_order_state_def)

theorem sqlite_refines_lists_witness:
  "map_prod spec_of id (sqlite_calls demo_db
      [((\<lambda>_. Some ''locked''), SetState 1 Bound), ((\<lambda>_. None), SetState 1 Bound)])
   = spec_calls (spec_of demo_db)
      [((\<lambda>_. Some ''locked''), SetState 1 Bound), ((\<lambda>_. None), SetState 1 Bound)]"
  using sqlite_refines_lists [OF demo_db_inv,
      of "[((\<lambda>_. Some ''locked''), SetState 1 Bound), ((\<lambda>_. None), SetState 1 Bound)]"]
  by simp

theorem migration_keeps_data_witness:
  "version_1 demo_old_db \<and> faults demo_old_db = (\<lambda>_. None)
   \<and> (\<exists>c'. sqlite_open demo_old_db = (c', Inr ()) \<and> db_inv c'
        \<and> db_orders c' = db_orders demo_old_db
        \<and> db_notifications c' = map as_verified (db_notifications demo_old_db))"
proof -
  have "faults demo_old_db = (\<lambda>_. None)"
    by (simp add: demo_old_db_def demo_db_def)
  with migration_keeps_data [OF demo_old_db_version_1 this] demo_old_db_version_1
  show ?thesis by blast
qed

theorem newer_schema_is_refused_witness:
  "fst (sqlite_open (demo_db\<lparr>user_version := 99\<rparr>)) = demo_db\<lparr>user_version := 99\<rparr>
   \<and> snd (sqlite_open (demo_db\<lparr>user_version := 99\<rparr>)) = Inl (SchemaTooNew 99)"
  using newer_schema_is_refused [of "demo_db\<lparr>user_version := 99\<rparr>"]
  by (simp add: SCHEMA_VERSION_def demo_db_def)

end
