(* ===== verification/Cli.thy ===== *)
theory Cli
  imports Service Database Wire
begin

text \<open>
  \<open>crates/smdp/src/bin/smdp.rs\<close>: the subcommands \<open>order add\<close>, \<open>order list\<close> and
  \<open>order reset\<close> on the database file named by \<open>--db\<close>, after clap has parsed the
  arguments. A command returns the lines it prints, or an error; the wording of error messages
  is left out. \<open>serve\<close> is the server of \<open>Server\<close> behind a socket.
\<close>

section \<open>Reading an ICCID\<close>

datatype iccid_error = WrongIccidLength nat | NotHexAtDigit nat string

text \<open>
  \<open>u8::from_str_radix(src, 16)\<close>: one leading \<open>+\<close> is taken off when something follows it,
  then every byte must be a digit and the value must fit.
\<close>

fun radix16_value :: "nat \<Rightarrow> string \<Rightarrow> nat option" where
  "radix16_value acc [] = Some acc"
| "radix16_value acc (c # cs) =
     (case ascii_digit16 c of
        None \<Rightarrow> None
      | Some d \<Rightarrow> if 16 * acc + d < 256 then radix16_value (16 * acc + d) cs else None)"

definition u8_from_str_radix16 :: "string \<Rightarrow> byte option" where
  "u8_from_str_radix16 src =
     (let digits = (if 2 \<le> length src \<and> hd src = CHR ''+'' then tl src else src) in
      if digits = [] then None else map_option of_nat (radix16_value 0 digits))"

text \<open>The loop over \<open>out.iter_mut().enumerate()\<close>, for the indices still to do.\<close>

fun parse_iccid_from :: "string \<Rightarrow> nat list \<Rightarrow> (iccid_error + bytes) outcome" where
  "parse_iccid_from s [] = Ret (Inr [])"
| "parse_iccid_from s (i # is) =
     (case str_slice s (i * 2) (i * 2 + 2) of
        Panic \<Rightarrow> Panic
      | Ret p \<Rightarrow>
          (case u8_from_str_radix16 p of
             None \<Rightarrow> Ret (Inl (NotHexAtDigit (i * 2 + 1) p))
           | Some b \<Rightarrow> try_bind (parse_iccid_from s is) (\<lambda>bs. Ret (Inr (b # bs)))))"

definition parse_iccid :: "string \<Rightarrow> (iccid_error + bytes) outcome" where
  "parse_iccid s =
     (if length s \<noteq> 20 then Ret (Inl (WrongIccidLength (length s)))
      else parse_iccid_from s [0 ..< 10])"

definition hex_digit_lower :: "nat \<Rightarrow> char" where
  "hex_digit_lower d = (if d < 10 then char_of (48 + d) else char_of (87 + d))"

definition cli_hex :: "bytes \<Rightarrow> string" where
  "cli_hex bs =
     concat (map (\<lambda>b. [hex_digit_lower (unat b div 16), hex_digit_lower (unat b mod 16)]) bs)"

section \<open>The commands\<close>

datatype cli_error =
    CannotRead string
  | BadIccid iccid_error
  | ServiceFailed service_error
  | StoreFailed store_error
  | NoSuchOrder int

text \<open>\<open>std::fs::read\<close>: the bytes of the file at a path, \<open>None\<close> when it cannot be read.\<close>

type_synonym files = "string \<Rightarrow> bytes option"

record order_add_args =
  oa_upp :: string
  oa_metadata :: string
  oa_iccid :: "string option"
  oa_matching_id :: "string option"
  oa_host :: "string option"

definition chosen_iccid :: "string option \<Rightarrow> bytes \<Rightarrow> (cli_error + bytes) outcome" where
  "chosen_iccid arg metadata =
     (case arg of
        Some h \<Rightarrow>
          (case parse_iccid h of
             Panic \<Rightarrow> Panic
           | Ret (Inl e) \<Rightarrow> Ret (Inl (BadIccid e))
           | Ret (Inr i) \<Rightarrow> Ret (Inr i))
      | None \<Rightarrow>
          (case iccid_from_metadata metadata of
             Inl e \<Rightarrow> Ret (Inl (ServiceFailed e))
           | Inr i \<Rightarrow> Ret (Inr i)))"

definition order_add_lines :: "order_t \<Rightarrow> string option \<Rightarrow> string list" where
  "order_add_lines x host =
     [''order '' @ show_int (ord_id x),
      ''  iccid       '' @ cli_hex (ord_iccid x),
      ''  matchingId  '' @ ord_matching_id x]
     @ (case host of
          None \<Rightarrow> []
        | Some h \<Rightarrow> [''  activation  '' @ activation_code h (ord_matching_id x)])"

definition run_order_add ::
  "files \<Rightarrow> os_random \<Rightarrow> conn \<Rightarrow> order_add_args \<Rightarrow> conn \<times> (cli_error + string list) outcome"
where
  "run_order_add fs r db args =
     (case fs (oa_upp args) of
        None \<Rightarrow> (db, Ret (Inl (CannotRead (oa_upp args))))
      | Some upp \<Rightarrow>
          (case fs (oa_metadata args) of
             None \<Rightarrow> (db, Ret (Inl (CannotRead (oa_metadata args))))
           | Some metadata \<Rightarrow>
               (case chosen_iccid (oa_iccid args) metadata of
                  Panic \<Rightarrow> (db, Panic)
                | Ret (Inl e) \<Rightarrow> (db, Ret (Inl e))
                | Ret (Inr iccid) \<Rightarrow>
                    (case sqlite_open db of
                       (db1, Inl e) \<Rightarrow> (db1, Ret (Inl (StoreFailed e)))
                     | (db1, Inr _) \<Rightarrow>
                         (case create_order sqlite_store r db1 iccid upp metadata
                                 (oa_matching_id args) of
                            (db2, Panic) \<Rightarrow> (db2, Panic)
                          | (db2, Ret (Inl e)) \<Rightarrow> (db2, Ret (Inl (ServiceFailed e)))
                          | (db2, Ret (Inr x)) \<Rightarrow>
                              (db2, Ret (Inr (order_add_lines x (oa_host args)))))))))"

definition run_order_reset :: "conn \<Rightarrow> int \<Rightarrow> conn \<times> (cli_error + string list)" where
  "run_order_reset db i =
     (case sqlite_open db of
        (db1, Inl e) \<Rightarrow> (db1, Inl (StoreFailed e))
      | (db1, Inr _) \<Rightarrow>
          (case service_list_orders sqlite_store db1 of
             Inl e \<Rightarrow> (db1, Inl (ServiceFailed e))
           | Inr known \<Rightarrow>
               if \<not> list_ex (\<lambda>x. ord_id x = i) known then (db1, Inl (NoSuchOrder i))
               else
                 (case set_state sqlite_store db1 i Available of
                    (db2, Inl e) \<Rightarrow> (db2, Inl (StoreFailed e))
                  | (db2, Inr _) \<Rightarrow>
                      (db2, Inr [''order '' @ show_int i @ '' is available again'']))))"

text \<open>\<open>{:>4}\<close> and \<open>{:<24}\<close> pad to a number of Rust characters.\<close>

definition pad_left :: "nat \<Rightarrow> string \<Rightarrow> string" where
  "pad_left n s = replicate (n - length (chars_of s)) CHR '' '' @ s"

definition pad_right :: "nat \<Rightarrow> string \<Rightarrow> string" where
  "pad_right n s = s @ replicate (n - length (chars_of s)) CHR '' ''"

definition order_line :: "order_t \<Rightarrow> string" where
  "order_line x =
     pad_left 4 (show_int (ord_id x)) @ ''  '' @ pad_right 24 (ord_matching_id x) @ ''  ''
     @ cli_hex (ord_iccid x) @ ''  '' @ debug_order_state (ord_state x)
     @ (case ord_eid x of None \<Rightarrow> '''' | Some e \<Rightarrow> ''  eid '' @ e)"

definition run_order_list :: "conn \<Rightarrow> conn \<times> (cli_error + string list)" where
  "run_order_list db =
     (case sqlite_open db of
        (db1, Inl e) \<Rightarrow> (db1, Inl (StoreFailed e))
      | (db1, Inr _) \<Rightarrow>
          (case service_list_orders sqlite_store db1 of
             Inl e \<Rightarrow> (db1, Inl (ServiceFailed e))
           | Inr orders \<Rightarrow>
               (db1, Inr ((if orders = [] then [''no orders''] else [])
                          @ map order_line orders))))"

datatype order_command = Add order_add_args | Reset int | ListOrders

definition run_order ::
  "files \<Rightarrow> os_random \<Rightarrow> conn \<Rightarrow> order_command \<Rightarrow> conn \<times> (cli_error + string list) outcome"
where
  "run_order fs r db cmd =
     (case cmd of
        Add args \<Rightarrow> run_order_add fs r db args
      | Reset i \<Rightarrow> (case run_order_reset db i of (db', res) \<Rightarrow> (db', Ret res))
      | ListOrders \<Rightarrow> (case run_order_list db of (db', res) \<Rightarrow> (db', Ret res)))"

text \<open>\<open>main\<close>: the exit code; an unwinding panic ends the process with 101.\<close>

definition exit_code :: "(cli_error + string list) outcome \<Rightarrow> nat" where
  "exit_code r =
     (case r of Ret (Inr _) \<Rightarrow> 0 | Ret (Inl _) \<Rightarrow> 1 | Panic \<Rightarrow> 101)"

section \<open>What the commands do to the orders\<close>

lemma parse_iccid_from_length:
  "parse_iccid_from s is = Ret (Inr bs) \<Longrightarrow> length bs = length is"
proof (induction "is" arbitrary: bs)
  case (Cons i "is")
  then obtain b rest where "parse_iccid_from s is = Ret (Inr rest)" and "bs = b # rest"
    by (auto simp: try_bind_Inr split: outcome.splits option.splits)
  with Cons.IH show ?case by simp
qed simp

lemma parse_iccid_length: "parse_iccid s = Ret (Inr i) \<Longrightarrow> length i = 10"
  by (auto simp: parse_iccid_def dest: parse_iccid_from_length split: if_splits)

lemma iccid_from_metadata_length: "iccid_from_metadata m = Inr i \<Longrightarrow> length i = 10"
  by (auto simp: iccid_from_metadata_def Let_def split: if_splits option.splits)

lemma chosen_iccid_length: "chosen_iccid arg m = Ret (Inr i) \<Longrightarrow> length i = 10"
  by (auto simp: chosen_iccid_def dest: parse_iccid_length iccid_from_metadata_length
      split: option.splits outcome.splits sum.splits)

text \<open>
  On a database this version can work with, a command leaves it as it is, appends one new
  order, or sets one existing order back to available.
\<close>

lemma run_order_add_effect:
  assumes inv: "db_inv db" and run: "run_order_add fs r db args = (db', res)"
  shows "db_inv db' \<and> db_notifications db' = db_notifications db
    \<and> (db_orders db' = db_orders db
       \<or> (\<exists>x. db_orders db' = db_orders db @ [x] \<and> ord_state x = Available
            \<and> ord_id x \<notin> set (map ord_id (db_orders db))))"
proof (cases "\<exists>upp iccid m db2 x. create_order sqlite_store r db iccid upp m (oa_matching_id args)
    = (db2, Ret (Inr x)) \<and> length iccid = 10 \<and> db' = db2")
  case False
  have "db' = db"
  proof -
    have open_same: "db1 = db" if "sqlite_open db = (db1, u)" for db1 and u :: "store_error + unit"
      using sqlite_open_current [OF inv] that by simp
    have add_same: "c = db" if "create_order sqlite_store r db i u m mid = (c, out)"
        and "\<And>x. out \<noteq> Ret (Inr x)" for c i u m mid out
      using that sqlite_add_order_Inl [OF inv]
      by (auto simp: create_order_def split: outcome.splits prod.splits sum.splits)
    show ?thesis
      using run False
      by (auto simp: run_order_add_def dest!: open_same dest: add_same chosen_iccid_length
          split: option.splits outcome.splits sum.splits prod.splits)
  qed
  with inv show ?thesis by simp
next
  case True
  then obtain upp iccid m x where "length iccid = 10"
    and "create_order sqlite_store r db iccid upp m (oa_matching_id args) = (db', Ret (Inr x))"
    by blast
  then obtain mid where add: "add_order sqlite_store db
      \<lparr> no_matching_id = mid, no_iccid = iccid, no_upp = upp, no_metadata = m \<rparr> = (db', Inr x)"
    and len: "length (no_iccid \<lparr> no_matching_id = mid, no_iccid = iccid, no_upp = upp,
      no_metadata = m \<rparr>) = 10"
    by (auto simp: create_order_def split: outcome.splits prod.splits sum.splits)
  show ?thesis
    using sqlite.add_order_Inr [OF inv len add] by (auto simp: new_order_at_def)
qed

lemma run_order_reset_effect:
  assumes inv: "db_inv db" and run: "run_order_reset db i = (db', res)"
  shows "db_inv db' \<and> db_notifications db' = db_notifications db
    \<and> (db_orders db' = db_orders db
       \<or> db_orders db' = update_order i (\<lambda>x. x\<lparr>ord_state := Available\<rparr>) (db_orders db))"
proof -
  obtain db1 u where opened: "sqlite_open db = (db1, u)" by force
  then have "db1 = db"
    using sqlite_open_current [OF inv] by simp
  moreover obtain db2 v where set: "sqlite_set_state db i Available = (db2, v)" by force
  ultimately have "db' = db \<or> db' = db2"
    using run opened
    by (auto simp: run_order_reset_def split: sum.splits if_splits)
  then show ?thesis
    using inv sqlite_set_state_effect [OF inv set] by (auto split: sum.splits)
qed

lemma run_order_list_effect:
  assumes "db_inv db" and "run_order_list db = (db', res)"
  shows "db' = db"
  using assms sqlite_open_current [OF assms(1)]
  by (auto simp: run_order_list_def split: prod.splits sum.splits)

section \<open>Hexadecimal ICCIDs\<close>

lemma is_hex_not_plus: "is_hex c \<Longrightarrow> c \<noteq> CHR ''+''"
  by (auto simp: is_hex_def ascii_digit16_def)

lemma u8_from_two_digits:
  assumes "ascii_digit16 x = Some h" and "ascii_digit16 y = Some l"
  shows "u8_from_str_radix16 [x, y] = Some (of_nat (16 * h + l))"
proof -
  have "x \<noteq> CHR ''+''"
    using assms(1) by (intro is_hex_not_plus) (simp add: is_hex_def)
  then show ?thesis
    using assms ascii_digit16_bound [OF assms(1)] ascii_digit16_bound [OF assms(2)]
    by (simp add: u8_from_str_radix16_def)
qed

lemma char_boundary_digits: "list_all is_hex s \<Longrightarrow> i \<le> length s \<Longrightarrow> is_char_boundary s i"
  using digit_not_cont by (force simp: is_char_boundary_def list_all_length)

lemma drop_pair:
  assumes "Suc k < length s"
  shows "drop k s = s ! k # s ! Suc k # drop (Suc (Suc k)) s"
  using assms by (simp add: Cons_nth_drop_Suc)

lemma parse_iccid_from_digits:
  assumes "list_all is_hex s"
  shows "length s = 2 * (k + n) \<Longrightarrow>
     parse_iccid_from s [k ..< k + n] = Ret (Inr (hex_value (drop (2 * k) s)))"
proof (induction n arbitrary: k)
  case (Suc n)
  let ?x = "s ! (2 * k)" and ?y = "s ! Suc (2 * k)"
  have drop: "drop (2 * k) s = ?x # ?y # drop (2 * Suc k) s"
    using drop_pair [of "2 * k" s] Suc.prems by simp
  have "is_hex ?x" and "is_hex ?y"
    using assms Suc.prems by (simp_all add: list_all_length)
  then obtain h l where hl: "ascii_digit16 ?x = Some h" "ascii_digit16 ?y = Some l"
    by (auto simp: is_hex_def)
  have "str_slice s (k * 2) (k * 2 + 2) = Ret [?x, ?y]"
    using Suc.prems assms drop
    by (simp add: str_slice_def char_boundary_digits mult.commute numeral_2_eq_2)
  moreover have "[k ..< k + Suc n] = k # [Suc k ..< Suc k + n]"
    by (simp add: upt_conv_Cons)
  ultimately show ?case
    using Suc.IH [of "Suc k"] Suc.prems u8_from_two_digits [OF hl]
    by (simp add: drop hl del: upt_Suc)
qed simp

lemma parse_iccid_digits:
  "list_all is_hex s \<Longrightarrow> length s = 20 \<Longrightarrow> parse_iccid s = Ret (Inr (hex_value s))"
  using parse_iccid_from_digits [of s 0 10] by (simp add: parse_iccid_def del: upt_rec_numeral)

lemma ascii_digit16_lower: "d < 16 \<Longrightarrow> ascii_digit16 (hex_digit_lower d) = Some d"
  by (simp add: hex_digit_lower_def ascii_digit16_def Let_def)

lemma cli_hex_digits: "list_all is_hex (cli_hex b)"
  by (induction b) (auto simp: cli_hex_def is_hex_def ascii_digit16_lower)

lemma length_cli_hex [simp]: "length (cli_hex b) = 2 * length b"
  by (induction b) (auto simp: cli_hex_def)

lemma hex_value_cli_hex: "hex_value (cli_hex b) = b"
proof (induction b)
  case (Cons x xs)
  have "(of_nat (16 * (unat x div 16) + unat x mod 16) :: byte) = x"
    by simp
  with Cons show ?case
    by (simp add: cli_hex_def ascii_digit16_lower del: of_nat_add of_nat_mult)
qed (simp add: cli_hex_def)

section \<open>The commands on a working database\<close>

lemma service_list_ok:
  "db_inv db \<Longrightarrow> faults db = (\<lambda>_. None) \<Longrightarrow>
     service_list_orders sqlite_store db = Inr (db_orders db)"
  by (simp add: service_list_orders_def sqlite_list_orders_eq)

lemma create_order_ok:
  assumes "db_inv db" and "faults db = (\<lambda>_. None)"
    and "(case mid of Some m \<Rightarrow> Ret m | None \<Rightarrow> generate_matching_id r) = Ret m"
  shows "create_order sqlite_store r db iccid upp metadata mid =
    (let n = \<lparr> no_matching_id = m, no_iccid = iccid, no_upp = upp, no_metadata = metadata \<rparr>;
         i = fresh_id (map ord_id (db_orders db)) in
     if m \<in> set (map ord_matching_id (db_orders db))
     then (db, Ret (Inl (StoreErr (DuplicateMatchingId m))))
     else (db\<lparr>orders_tab := Some (db_rows db @ [order_row_of i n])\<rparr>, Ret (Inr (new_order_at i n))))"
  using assms by (simp add: create_order_def sqlite_add_order_eq Let_def)

section \<open>Properties\<close>

text \<open>
  \<open>--iccid\<close> takes what the listing prints: the ten bytes of an ICCID, printed in lower-case
  hexadecimal, are read back; so is every other spelling of their digits in upper and lower case.
\<close>

theorem parse_iccid_round_trip:
  assumes "length b = 10"
  shows "parse_iccid (cli_hex b) = Ret (Inr b)
    \<and> (\<forall>s. map hex_upper s = to_hex_upper b \<longrightarrow> parse_iccid s = Ret (Inr b))"
proof (intro conjI allI impI)
  show "parse_iccid (cli_hex b) = Ret (Inr b)"
    using assms parse_iccid_digits [OF cli_hex_digits, of b] by (simp add: hex_value_cli_hex)
next
  fix s assume up: "map hex_upper s = to_hex_upper b"
  have "from_hex (to_hex_upper b) = Ret (Inr b)" by simp
  have "list_all is_hex (map hex_upper s)"
    using to_hex_upper_digits [of b] up by simp
  then have digits: "list_all is_hex s"
    by (simp add: list.pred_map o_def)
  have len: "length s = 20"
    using arg_cong [OF up, of length] assms by simp
  have "to_hex_upper (hex_value s) = to_hex_upper b"
    using to_hex_upper_hex_value [OF digits] len up by simp
  then have "hex_value s = b"
    by (metis hex_value_to_hex_upper)
  with parse_iccid_digits [OF digits len] show "parse_iccid s = Ret (Inr b)" by simp
qed

theorem parse_iccid_round_trip_witness:
  "parse_iccid (cli_hex (replicate 10 0x98)) = Ret (Inr (replicate 10 0x98))"
  using parse_iccid_round_trip [of "replicate 10 0x98"] by simp

text \<open>
  \<open>--iccid\<close> takes more than hexadecimal digits: each pair goes through
  \<open>u8::from_str_radix\<close>, which accepts a leading plus sign, so twenty characters of which ten
  are plus signs pass as an ICCID.
\<close>

theorem parse_iccid_accepts_plus_signs:
  "parse_iccid (concat (replicate 10 ''+f'')) = Ret (Inr (replicate 10 0x0f))"
  by (simp add: parse_iccid_def parse_iccid_from.simps str_slice_def is_char_boundary_def is_cont_def
      u8_from_str_radix16_def ascii_digit16_def upt_rec numeral_eq_Suc)

text \<open>
  The length check of \<open>--iccid\<close> counts bytes, and the slices after it are taken at byte
  positions: a 20-byte argument whose third byte lies inside a character (here a one-byte
  character, a two-byte one, and 17 more bytes) makes the command panic instead of reporting an
  error, before the database is even opened.
\<close>

theorem order_add_panics_off_boundary:
  assumes "is_cont z" and "length rest = 17"
    and "fs (oa_upp args) \<noteq> None" and "fs (oa_metadata args) \<noteq> None"
    and "oa_iccid args = Some (x # y # z # rest)"
  shows "run_order_add fs r db args = (db, Panic)"
proof -
  have "str_slice (x # y # z # rest) 0 (Suc (Suc 0)) = Panic"
    using assms(1,2) by (simp add: str_slice_def is_char_boundary_def)
  then have "parse_iccid (x # y # z # rest) = Panic"
    using assms(2) by (simp add: parse_iccid_def upt_rec [of 0])
  then show ?thesis
    using assms by (auto simp: run_order_add_def chosen_iccid_def)
qed

definition demo_add :: "string option \<Rightarrow> order_add_args" where
  "demo_add iccid =
     \<lparr> oa_upp = ''upp.der'', oa_metadata = ''meta.der'', oa_iccid = iccid,
       oa_matching_id = Some ''MATCH-2'', oa_host = None \<rparr>"

definition demo_rng :: os_random where
  "demo_rng = \<lparr> tape = (\<lambda>_. 7), pos = 0, csprng_up = True \<rparr>"

theorem order_add_panics_off_boundary_witness:
  "run_order_add (\<lambda>_. Some [0x30]) demo_rng demo_db
     (demo_add (Some (CHR ''0'' # CHR 0xC3 # CHR 0xA9 # replicate 17 CHR ''0''))) = (demo_db, Panic)"
  by (rule order_add_panics_off_boundary [where x = "CHR ''0''" and y = "CHR 0xC3"
        and z = "CHR 0xA9" and rest = "replicate 17 CHR ''0''"])
    (simp_all add: is_cont_def demo_add_def)

text \<open>
  C37: \<open>order add\<close> on a working database. With both files readable and an ICCID chosen, the
  command either refuses a MatchingID that is taken, changing nothing, or appends exactly one
  order, available and bound to no eUICC, with the files' contents and the next row id, and
  prints it.
\<close>

theorem order_add_appends:
  assumes "db_inv db" and "faults db = (\<lambda>_. None)"
    and "fs (oa_upp args) = Some upp" and "fs (oa_metadata args) = Some metadata"
    and "chosen_iccid (oa_iccid args) metadata = Ret (Inr iccid)"
    and "(case oa_matching_id args of Some m \<Rightarrow> Ret m | None \<Rightarrow> generate_matching_id r) = Ret m"
  shows "if m \<in> set (map ord_matching_id (db_orders db))
    then run_order_add fs r db args
           = (db, Ret (Inl (ServiceFailed (StoreErr (DuplicateMatchingId m)))))
    else \<exists>db'. let x = new_order_at (fresh_id (map ord_id (db_orders db)))
                        \<lparr> no_matching_id = m, no_iccid = iccid, no_upp = upp,
                          no_metadata = metadata \<rparr> in
           run_order_add fs r db args = (db', Ret (Inr (order_add_lines x (oa_host args))))
           \<and> db_inv db' \<and> db_orders db' = db_orders db @ [x]
           \<and> db_notifications db' = db_notifications db"
proof (cases "m \<in> set (map ord_matching_id (db_orders db))")
  case True
  then show ?thesis
    using assms by (simp add: run_order_add_def open_current_no_faults create_order_ok Let_def)
next
  case False
  let ?n = "\<lparr> no_matching_id = m, no_iccid = iccid, no_upp = upp, no_metadata = metadata \<rparr>"
  let ?x = "new_order_at (fresh_id (map ord_id (db_orders db))) ?n"
  obtain db' where add: "sqlite_add_order db ?n = (db', Inr ?x)"
    using False assms(1,2) by (auto simp: sqlite_add_order_eq Let_def)
  have "length (no_iccid ?n) = 10"
    using chosen_iccid_length [OF assms(5)] by simp
  note effect = sqlite_add_order_effect [OF assms(1) this add]
  have "run_order_add fs r db args = (db', Ret (Inr (order_add_lines ?x (oa_host args))))"
    using assms add by (simp add: run_order_add_def open_current_no_faults create_order_def)
  with False effect show ?thesis
    by (auto simp: Let_def)
qed

theorem order_add_appends_witness:
  "\<exists>db'. let x = new_order_at (fresh_id (map ord_id (db_orders demo_db)))
                  \<lparr> no_matching_id = ''MATCH-2'', no_iccid = replicate 10 0x98, no_upp = [0x30],
                    no_metadata = [0x30] \<rparr> in
     run_order_add (\<lambda>_. Some [0x30]) demo_rng demo_db
         (demo_add (Some (cli_hex (replicate 10 0x98))))
       = (db', Ret (Inr (order_add_lines x None)))
     \<and> db_inv db' \<and> db_orders db' = db_orders demo_db @ [x]
     \<and> db_notifications db' = db_notifications demo_db"
proof -
  have iccid: "chosen_iccid (Some (cli_hex (replicate 10 0x98))) [0x30] = Ret (Inr (replicate 10 0x98))"
    using parse_iccid_digits [OF cli_hex_digits, of "replicate 10 0x98"]
    by (simp add: chosen_iccid_def hex_value_cli_hex)
  show ?thesis
    using order_add_appends [of demo_db "\<lambda>_. Some [0x30]"
        "demo_add (Some (cli_hex (replicate 10 0x98)))" "[0x30]" "[0x30]" "replicate 10 0x98"
        demo_rng "''MATCH-2''"] iccid
    by (simp add: demo_add_def)
qed

text \<open>
  \<open>order reset\<close> on a working database. It sets exactly the named order back to available,
  whatever its state was, keeping the eUICC it was bound to and everything else; an order that
  does not exist is an error and nothing changes.
\<close>

theorem order_reset_makes_available:
  assumes "db_inv db" and "faults db = (\<lambda>_. None)"
  shows "if i \<in> set (map ord_id (db_orders db))
    then \<exists>db'. run_order_reset db i
             = (db', Inr [''order '' @ show_int i @ '' is available again''])
           \<and> db_inv db' \<and> db_notifications db' = db_notifications db
           \<and> db_orders db' = update_order i (\<lambda>x. x\<lparr>ord_state := Available\<rparr>) (db_orders db)
    else run_order_reset db i = (db, Inl (NoSuchOrder i))"
proof -
  obtain db' u where set: "sqlite_set_state db i Available = (db', u)" by force
  then have u: "u = Inr ()"
    using set_state_snd [OF assms(1), of i Available] assms(2) by simp
  have known: "list_ex (\<lambda>x. ord_id x = i) os \<longleftrightarrow> i \<in> set (map ord_id os)" for os
    by (induction os) auto
  show ?thesis
    using sqlite_set_state_effect [OF assms(1) set] set u
    by (simp add: run_order_reset_def open_current_no_faults [OF assms] service_list_ok [OF assms]
        known del: ids_db_orders)
qed

theorem order_reset_makes_available_witness:
  "\<exists>db'. run_order_reset demo_db 1 = (db', Inr [''order '' @ show_int 1 @ '' is available again''])
     \<and> db_inv db' \<and> db_notifications db' = db_notifications demo_db
     \<and> db_orders db' = update_order 1 (\<lambda>x. x\<lparr>ord_state := Available\<rparr>) (db_orders demo_db)"
  using order_reset_makes_available [of demo_db 1] by simp

end
