(* ===== verification/Programs.thy ===== *)
theory Programs
  imports Server Cli
begin

text \<open>
  The requests and the commands cut at their store calls. A handler or a command is a program:
  it returns, or makes one call and goes on with the answer. Run without interruption a program
  is the handler of \<open>Server\<close> or the command of \<open>Cli\<close>; between two calls another process
  may work on the same database file, which is what \<open>Sites\<close> builds on.
\<close>

section \<open>Programs of calls\<close>

datatype ('c, 'r, 'a) program = Return 'a | Call 'c "'r \<Rightarrow> ('c, 'r, 'a) program"

primrec exec :: "('st \<Rightarrow> 'c \<Rightarrow> 'st \<times> 'r) \<Rightarrow> ('c, 'r, 'a) program \<Rightarrow> 'st \<Rightarrow> 'st \<times> 'a" where
  "exec I (Return a) = (\<lambda>st. (st, a))"
| "exec I (Call c k) = (\<lambda>st. case I st c of (st', r) \<Rightarrow> exec I (k r) st')"

text \<open>Every call a program can come to make, whatever it is answered.\<close>

primrec calls_only :: "('c \<Rightarrow> bool) \<Rightarrow> ('c, 'r, 'a) program \<Rightarrow> bool" where
  "calls_only P (Return a) \<longleftrightarrow> True"
| "calls_only P (Call c k) \<longleftrightarrow> P c \<and> (\<forall>r. calls_only P (k r))"

text \<open>Every result a program can come to return, whatever its calls are answered.\<close>

primrec returns_only :: "('a \<Rightarrow> bool) \<Rightarrow> ('c, 'r, 'a) program \<Rightarrow> bool" where
  "returns_only R (Return a) \<longleftrightarrow> R a"
| "returns_only R (Call c k) \<longleftrightarrow> (\<forall>r. returns_only R (k r))"

text \<open>
  What a program does under interference: each of its calls, made in a state the others may
  have changed meanwhile, is a \<open>G\<close> step, and what it returns satisfies \<open>Q\<close>.
\<close>

primrec assured ::
  "('st \<Rightarrow> 'st \<Rightarrow> bool) \<Rightarrow> ('st \<Rightarrow> 'c \<Rightarrow> 'st \<times> 'r) \<Rightarrow> ('st \<Rightarrow> 'st \<Rightarrow> bool) \<Rightarrow> ('a \<Rightarrow> 'st \<Rightarrow> bool) \<Rightarrow>
     ('c, 'r, 'a) program \<Rightarrow> 'st \<Rightarrow> bool"
where
  "assured env I G Q (Return a) = (\<lambda>st. \<forall>st1. env\<^sup>*\<^sup>* st st1 \<longrightarrow> Q a st1)"
| "assured env I G Q (Call c k) =
     (\<lambda>st. \<forall>st1. env\<^sup>*\<^sup>* st st1 \<longrightarrow>
        (case I st1 c of (st2, r) \<Rightarrow> G st1 st2 \<and> assured env I G Q (k r) st2))"

lemma assured_stable: "assured env I G Q p st \<Longrightarrow> env st st1 \<Longrightarrow> assured env I G Q p st1"
  by (cases p) (auto intro: converse_rtranclp_into_rtranclp)

lemma assured_Return: "assured env I G Q (Return a) st \<Longrightarrow> Q a st"
  by simp

lemma assured_Call:
  "assured env I G Q (Call c k) st \<Longrightarrow> I st c = (st', r) \<Longrightarrow>
     G st st' \<and> assured env I G Q (k r) st'"
  by force

text \<open>
  The rely-guarantee rule: when the others keep \<open>J\<close>, and each of the program's calls keeps it
  and is a \<open>G\<close> step, then the program is assured, its result where \<open>J\<close> holds.
\<close>

locale rely_guarantee =
  fixes env :: "'st \<Rightarrow> 'st \<Rightarrow> bool"
    and I :: "'st \<Rightarrow> 'c \<Rightarrow> 'st \<times> 'r"
    and G :: "'st \<Rightarrow> 'st \<Rightarrow> bool"
    and J :: "'st \<Rightarrow> bool"
    and P :: "'c \<Rightarrow> bool"
  assumes rely: "J st \<Longrightarrow> env st st' \<Longrightarrow> J st'"
    and guarantee: "J st \<Longrightarrow> P c \<Longrightarrow> G st (fst (I st c)) \<and> J (fst (I st c))"
begin

lemma rely_star: "env\<^sup>*\<^sup>* st st' \<Longrightarrow> J st \<Longrightarrow> J st'"
  by (induction rule: rtranclp_induct) (auto intro: rely)

lemma assured_program:
  assumes "calls_only P p" and "returns_only R p" and "J st"
    and result: "\<And>a st. J st \<Longrightarrow> R a \<Longrightarrow> Q a st"
  shows "assured env I G Q p st"
  using assms(1-3)
proof (induction p arbitrary: st)
  case (Return a)
  then show ?case by (auto intro: result rely_star)
next
  case (Call c k)
  have "G st1 (fst (I st1 c)) \<and> assured env I G Q (k (snd (I st1 c))) (fst (I st1 c))"
    if "env\<^sup>*\<^sup>* st st1" for st1
    using guarantee [OF rely_star [OF that Call.prems(3)], of c] Call by auto
  then show ?case by (simp add: case_prod_beta)
qed

end

section \<open>The handlers as programs\<close>

text \<open>The server's memory: its state without the store.\<close>

type_synonym 's memory = "(unit, 's) app_state"

type_synonym 's job = "(store_call, store_result, response outcome \<times> 's memory) program"

definition memory_of :: "('st, 's) app_state \<Rightarrow> 's memory" where
  "memory_of st = \<lparr> app_store = (), app_sessions = app_sessions st, app_config = app_config st \<rparr>"

definition with_store :: "'st \<Rightarrow> 's memory \<Rightarrow> ('st, 's) app_state" where
  "with_store db m =
     \<lparr> app_store = db, app_sessions = app_sessions m, app_config = app_config m \<rparr>"

text \<open>The answer to a call, as the trait's return type has it; the last case of each never is.\<close>

fun as_orders :: "store_result \<Rightarrow> store_error + order_t list" where
  "as_orders (Refused_by e) = Inl e"
| "as_orders (Listed xs) = Inr xs"
| "as_orders _ = Inr []"

fun as_found :: "store_result \<Rightarrow> store_error + order_t option" where
  "as_found (Refused_by e) = Inl e"
| "as_found (FoundOrder x) = Inr x"
| "as_found _ = Inr None"

lemma as_result_of [simp]:
  "as_orders (result_of Listed r) = r"
  "as_found (result_of FoundOrder q) = q"
  by (cases r, simp_all) (cases q, simp_all)

text \<open>InitiateAuthentication makes no call.\<close>

definition initiate_program ::
  "'s rsp_lib \<Rightarrow> env \<Rightarrow> 's memory \<Rightarrow> initiate_authentication_request \<Rightarrow> 's job"
where
  "initiate_program L env m req = Return (initiate_authentication L env m req)"

definition remember_program ::
  "int \<Rightarrow> string option \<Rightarrow> bytes option \<Rightarrow> 's job \<Rightarrow> 's job"
where
  "remember_program i the_eid the_cert p =
     (case (the_eid, the_cert) of
        (Some e, Some c) \<Rightarrow> Call (BindEuicc i e c) (\<lambda>_. Call (SetState i Bound) (\<lambda>_. p))
      | _ \<Rightarrow> Call (SetState i Bound) (\<lambda>_. p))"

definition authenticate_order_program ::
  "'s rsp_lib \<Rightarrow> 's memory \<Rightarrow> authenticate_client_request \<Rightarrow> order_t \<Rightarrow> 's job"
where
  "authenticate_order_program L m req ord =
     (let tid = arq_transaction_id req in
      if poisoned (app_sessions m) then Return (Panic, m)
      else
        (case get_session tid (sessions_of m) of
           None \<Rightarrow>
             Return (Ret (failed TRANSACTION_ID UNKNOWN ''no session with this transactionId''), m)
         | Some ent \<Rightarrow>
             (let (sess, r) = dp_authenticate_client L (session ent)
                                (arq_authenticate_server_response req) (ord_metadata ord);
                  ent1 = ent\<lparr>session := sess\<rparr>;
                  m1 = with_sessions (put_entry tid ent1 (sessions_of m)) m in
              case r of
                Inl e \<Rightarrow> Return (Ret (from_rsp_error e TRANSACTION_ID), m1)
              | Inr resp \<Rightarrow>
                  (case eid L sess of
                     Panic \<Rightarrow> Return (Panic, poison m1)
                   | Ret eid_result \<Rightarrow>
                       (let cert_result = euicc_cert L sess;
                            ent2 = ent1\<lparr>entry_order_id := Some (ord_id ord)\<rparr>;
                            m2 = with_sessions (put_entry tid ent2 (sessions_of m1)) m1 in
                        case authenticate_fields L (as_slice resp) of
                          Inl e \<Rightarrow> Return (Ret (from_rsp_error e EXECUTION), m2)
                        | Inr g \<Rightarrow>
                            remember_program (ord_id ord) (ok eid_result) (ok cert_result)
                              (Return (Ret (ok_json (AuthenticateBody
                                 \<lparr> acr_header = header_success,
                                   acr_transaction_id = tid,
                                   acr_profile_metadata = af_profile_metadata g,
                                   acr_smdp_signed2 = af_smdp_signed2 g,
                                   acr_smdp_signature2 = af_smdp_signature2 g,
                                   acr_smdp_certificate = af_smdp_certificate g \<rparr>)), m2)))))))"

definition authenticate_program ::
  "'s rsp_lib \<Rightarrow> 's memory \<Rightarrow> authenticate_client_request \<Rightarrow> 's job"
where
  "authenticate_program L m req =
     Call ListAll (\<lambda>r.
       case as_orders r of
         Inl e \<Rightarrow> Return (Ret (failed PROFILE EXECUTION (display_store_error e)), m)
       | Inr orders \<Rightarrow>
           (case filter offered orders of
              [ord] \<Rightarrow> authenticate_order_program L m req ord
            | [] \<Rightarrow>
                Return (Ret (failed PROFILE UNKNOWN
                   (''no order is available -- add one, or reset one that has ''
                    @ ''already been downloaded (smdp order list shows their state)'')), m)
            | available \<Rightarrow>
                Return (Ret (failed PROFILE UNKNOWN
                   (show_nat (length available)
                    @ '' orders are available and the MatchingID is not read from ctxParams1 yet, ''
                    @ ''so this server cannot tell which is wanted'')), m)))"

definition find_upp_program :: "int option \<Rightarrow> (bytes option \<Rightarrow> 's job) \<Rightarrow> 's job" where
  "find_upp_program order_id k =
     (case order_id of
        None \<Rightarrow> k None
      | Some i \<Rightarrow>
          Call ListAll (\<lambda>r. k
            (case ok (as_orders r) of
               None \<Rightarrow> None
             | Some orders \<Rightarrow> map_option ord_upp (find (\<lambda>x. ord_id x = i) orders))))"

definition bound_package_program ::
  "'s rsp_lib \<Rightarrow> env \<Rightarrow> 's memory \<Rightarrow> get_bound_profile_package_request \<Rightarrow> 's job"
where
  "bound_package_program L env m req =
     (let tid = grq_transaction_id req in
      case fst (nonce_otsk_dp (cfg_nonces (app_config m)) (rng env)) of
        Panic \<Rightarrow> Return (Panic, m)
      | Ret otsk_dp \<Rightarrow>
          if poisoned (app_sessions m) then Return (Panic, m)
          else
            (case get_session tid (sessions_of m) of
               None \<Rightarrow>
                 Return (Ret (failed TRANSACTION_ID UNKNOWN ''no session with this transactionId''),
                   m)
             | Some ent \<Rightarrow>
                 find_upp_program (entry_order_id ent) (\<lambda>found.
                   case found of
                     None \<Rightarrow>
                       Return (Ret (failed PROFILE UNKNOWN
                          ''this session has not authenticated against an order yet''), m)
                   | Some upp \<Rightarrow>
                       (let (sess, r) = dp_get_bound_profile_package L (session ent)
                                          (grq_prepare_download_response req) upp otsk_dp in
                        case r of
                          Inl e \<Rightarrow>
                            Return (Ret (from_rsp_error e TRANSACTION_ID),
                              with_sessions
                                (put_entry tid (ent\<lparr>session := sess\<rparr>) (sessions_of m)) m)
                        | Inr bpp \<Rightarrow>
                            (let m1 = with_sessions (remove_session tid (sessions_of m)) m;
                                 finished = Return (Ret (ok_json (BoundPackageBody
                                   \<lparr> gbr_header = header_success,
                                     gbr_transaction_id = tid,
                                     gbr_bound_profile_package = as_slice bpp \<rparr>)), m1) in
                             case entry_order_id ent of
                               None \<Rightarrow> finished
                             | Some i \<Rightarrow> Call (SetState i Downloaded) (\<lambda>_. finished))))))"

definition notified_order_program ::
  "'s rsp_lib \<Rightarrow> bytes \<Rightarrow> (order_t option \<Rightarrow> 's job) \<Rightarrow> 's job"
where
  "notified_order_program L raw k =
     (case Option.bind (ok (notification_metadata L raw)) nt_iccid of
        None \<Rightarrow> k None
      | Some i \<Rightarrow> Call (ByIccid i) (\<lambda>r. k (Option.bind (ok (as_found r)) (\<lambda>x. x))))"

definition keep_program ::
  "order_t option \<Rightarrow> notification option \<Rightarrow> notification option \<Rightarrow> bytes \<Rightarrow> 's job \<Rightarrow> 's job"
where
  "keep_program ord verified meta raw p =
     (case (case verified of Some v \<Rightarrow> Some v | None \<Rightarrow> meta) of
        None \<Rightarrow> p
      | Some n \<Rightarrow>
          Call (RecordNotification (kept_notification (verified \<noteq> None) ord n raw)) (\<lambda>_. p))"

definition move_program :: "order_t option \<Rightarrow> notification option \<Rightarrow> 's job \<Rightarrow> 's job" where
  "move_program ord verified p =
     (case (verified, ord) of
        (Some v, Some x) \<Rightarrow>
          if is_installation_result v
          then Call (SetState (ord_id x) (if nt_installed v then Downloaded else Failed)) (\<lambda>_. p)
          else p
      | _ \<Rightarrow> p)"

definition notification_program ::
  "'s rsp_lib \<Rightarrow> 's memory \<Rightarrow> handle_notification_request \<Rightarrow> 's job"
where
  "notification_program L m req =
     (let raw = hrq_pending_notification req in
      notified_order_program L raw (\<lambda>ord.
        (let verified = verified_notification L ord raw;
             meta = ok (notification_metadata L raw) in
         keep_program ord verified meta raw
           (move_program ord verified (Return (Ret no_content, m))))))"

fun handle_program :: "'s rsp_lib \<Rightarrow> env \<Rightarrow> 's memory \<Rightarrow> request \<Rightarrow> 's job" where
  "handle_program L env m (InitiateRequest r) = initiate_program L env m r"
| "handle_program L env m (AuthenticateRequest r) = authenticate_program L m r"
| "handle_program L env m (BoundPackageRequest r) = bound_package_program L env m r"
| "handle_program L env m (NotificationRequest r) = notification_program L m r"

section \<open>Without interruption a program is its handler\<close>

lemma memory_simps [simp]:
  "app_sessions (memory_of st) = app_sessions st"
  "app_config (memory_of st) = app_config st"
  "sessions_of (memory_of st) = sessions_of st"
  "with_sessions t (memory_of st) = memory_of (with_sessions t st)"
  "poison (memory_of st) = memory_of (poison st)"
  "memory_of (st\<lparr>app_store := db\<rparr>) = memory_of st"
  "app_store (with_store db m) = db"
  "app_sessions (with_store db m) = app_sessions m"
  "app_config (with_store db m) = app_config m"
  "sessions_of (with_store db m) = sessions_of m"
  "memory_of (with_store db m) = m"
  by (simp_all add: memory_of_def with_store_def sessions_of_def with_sessions_def poison_def)

lemma with_store_memory_of [simp]: "with_store db (memory_of st) = st\<lparr>app_store := db\<rparr>"
  by (simp add: with_store_def memory_of_def)

lemma app_store_same [simp]: "st\<lparr>app_store := app_store st\<rparr> = st"
  by simp

text \<open>An uninterrupted run of a program, put back together with the store it ends with.\<close>

definition runs_as :: "'st store_ops \<Rightarrow> 's job \<Rightarrow> 'st \<Rightarrow> response outcome \<times> ('st, 's) app_state" where
  "runs_as S p db = (case exec (call_store S) p db of (db', out, m) \<Rightarrow> (out, with_store db' m))"

lemma runs_as_Return [simp]: "runs_as S (Return (out, m)) db = (out, with_store db m)"
  by (simp add: runs_as_def)

lemma runs_as_Call [simp]:
  "runs_as S (Call c k) db
     = runs_as S (k (snd (call_store S db c))) (fst (call_store S db c))"
  by (simp add: runs_as_def split: prod.split)

lemma runs_as_initiate:
  "runs_as S (initiate_program L env (memory_of st) req) (app_store st)
     = initiate_authentication L env st req"
  by (simp add: initiate_program_def initiate_authentication_def
      split: outcome.split prod.split sum.split)

lemma runs_as_remember:
  "runs_as S (remember_program i e c p) db = runs_as S p (remember_euicc S db i e c)"
  by (simp add: remember_program_def remember_euicc_def Let_def split: option.split)

lemma runs_as_authenticate_order:
  "runs_as S (authenticate_order_program L (memory_of st) req ord) (app_store st)
     = authenticate_order S L st req ord"
  by (simp add: authenticate_order_program_def authenticate_order_def Let_def runs_as_remember
      split: option.split prod.split sum.split outcome.split)

lemma runs_as_authenticate:
  "runs_as S (authenticate_program L (memory_of st) req) (app_store st)
     = authenticate_client S L st req"
  by (simp add: authenticate_program_def authenticate_client_def runs_as_authenticate_order
      split: sum.split list.split)

lemma runs_as_find_upp:
  "runs_as S (find_upp_program i k) db = runs_as S (k (find_upp S db i)) db"
  by (simp add: find_upp_program_def find_upp_def split: option.split)

lemma runs_as_bound_package:
  "runs_as S (bound_package_program L env (memory_of st) req) (app_store st)
     = get_bound_profile_package S L env st req"
  by (simp add: bound_package_program_def get_bound_profile_package_def Let_def runs_as_find_upp
      split: option.split prod.split sum.split outcome.split)

lemma runs_as_notified_order:
  "runs_as S (notified_order_program L raw k) db = runs_as S (k (notified_order S L db raw)) db"
  by (cases "Option.bind (ok (notification_metadata L raw)) nt_iccid")
    (simp_all add: notified_order_program_def notified_order_def del: Option.bind_assoc)

lemma runs_as_keep:
  "runs_as S (keep_program ord v m raw p) db = runs_as S p (keep_notification S db ord v m raw)"
  by (simp add: keep_program_def keep_notification_def split: option.split)

lemma runs_as_move:
  "runs_as S (move_program ord v p) db = runs_as S p (move_order S db ord v)"
  by (simp add: move_program_def move_order_def split: option.split)

lemma runs_as_notification:
  "runs_as S (notification_program L (memory_of st) req) (app_store st)
     = handle_notification S L st req"
  by (simp add: notification_program_def handle_notification_def Let_def runs_as_notified_order
      runs_as_keep runs_as_move)

lemma runs_as_handle:
  "runs_as S (handle_program L env (memory_of st) r) (app_store st) = handle S L env st r"
  by (cases r)
    (simp_all add: runs_as_initiate runs_as_authenticate runs_as_bound_package
      runs_as_notification)

section \<open>The commands as programs\<close>

text \<open>A command first opens the file, then calls the store.\<close>

datatype db_call = OpenFile | OnStore store_call

datatype db_answer = Opened "store_error + unit" | Answered store_result

fun call_db :: "conn \<Rightarrow> db_call \<Rightarrow> conn \<times> db_answer" where
  "call_db db OpenFile = map_prod id Opened (sqlite_open db)"
| "call_db db (OnStore c) = map_prod id Answered (call_store sqlite_store db c)"

type_synonym cli_result = "(cli_error + string list) outcome"

type_synonym cli_job = "(db_call, db_answer, cli_result) program"

fun as_opened :: "db_answer \<Rightarrow> store_error + unit" where
  "as_opened (Opened u) = u"
| "as_opened (Answered _) = Inr ()"

fun answered :: "db_answer \<Rightarrow> store_result" where
  "answered (Answered r) = r"
| "answered (Opened _) = Done"

fun as_added :: "store_result \<Rightarrow> store_error + order_t option" where
  "as_added (Refused_by e) = Inl e"
| "as_added (Added x) = Inr (Some x)"
| "as_added _ = Inr None"

fun as_done :: "store_result \<Rightarrow> store_error + unit" where
  "as_done (Refused_by e) = Inl e"
| "as_done _ = Inr ()"

text \<open>\<open>SqliteStore::open(&db)?\<close>, then the rest.\<close>

definition open_first :: "cli_job \<Rightarrow> cli_job" where
  "open_first p =
     Call OpenFile (\<lambda>a. case as_opened a of
         Inl e \<Rightarrow> Return (Ret (Inl (StoreFailed e)))
       | Inr _ \<Rightarrow> p)"

definition create_order_program ::
  "os_random \<Rightarrow> bytes \<Rightarrow> bytes \<Rightarrow> bytes \<Rightarrow> string option \<Rightarrow> (order_t \<Rightarrow> string list) \<Rightarrow> cli_job"
where
  "create_order_program r iccid upp metadata matching_id lines =
     (case (case matching_id of Some m \<Rightarrow> Ret m | None \<Rightarrow> generate_matching_id r) of
        Panic \<Rightarrow> Return Panic
      | Ret m \<Rightarrow>
          Call (OnStore (AddOrder
                 \<lparr> no_matching_id = m, no_iccid = iccid, no_upp = upp, no_metadata = metadata \<rparr>))
            (\<lambda>a. case as_added (answered a) of
                Inl e \<Rightarrow> Return (Ret (Inl (ServiceFailed (StoreErr e))))
              | Inr None \<Rightarrow> Return (Ret (Inr []))
              | Inr (Some x) \<Rightarrow> Return (Ret (Inr (lines x)))))"

definition order_add_program :: "files \<Rightarrow> os_random \<Rightarrow> order_add_args \<Rightarrow> cli_job" where
  "order_add_program fs r args =
     (case fs (oa_upp args) of
        None \<Rightarrow> Return (Ret (Inl (CannotRead (oa_upp args))))
      | Some upp \<Rightarrow>
          (case fs (oa_metadata args) of
             None \<Rightarrow> Return (Ret (Inl (CannotRead (oa_metadata args))))
           | Some metadata \<Rightarrow>
               (case chosen_iccid (oa_iccid args) metadata of
                  Panic \<Rightarrow> Return Panic
                | Ret (Inl e) \<Rightarrow> Return (Ret (Inl e))
                | Ret (Inr iccid) \<Rightarrow>
                    open_first (create_order_program r iccid upp metadata (oa_matching_id args)
                      (\<lambda>x. order_add_lines x (oa_host args))))))"

definition order_reset_program :: "int \<Rightarrow> cli_job" where
  "order_reset_program i =
     open_first (Call (OnStore ListAll) (\<lambda>a.
       case as_orders (answered a) of
         Inl e \<Rightarrow> Return (Ret (Inl (ServiceFailed (StoreErr e))))
       | Inr known \<Rightarrow>
           if \<not> list_ex (\<lambda>x. ord_id x = i) known then Return (Ret (Inl (NoSuchOrder i)))
           else
             Call (OnStore (SetState i Available)) (\<lambda>b.
               case as_done (answered b) of
                 Inl e \<Rightarrow> Return (Ret (Inl (StoreFailed e)))
               | Inr _ \<Rightarrow> Return (Ret (Inr [''order '' @ show_int i @ '' is available again''])))))"

definition order_list_program :: cli_job where
  "order_list_program =
     open_first (Call (OnStore ListAll) (\<lambda>a.
       case as_orders (answered a) of
         Inl e \<Rightarrow> Return (Ret (Inl (ServiceFailed (StoreErr e))))
       | Inr orders \<Rightarrow>
           Return (Ret (Inr ((if orders = [] then [''no orders''] else [])
                             @ map order_line orders)))))"

fun order_program :: "files \<Rightarrow> os_random \<Rightarrow> order_command \<Rightarrow> cli_job" where
  "order_program fs r (Add args) = order_add_program fs r args"
| "order_program fs r (Reset i) = order_reset_program i"
| "order_program fs r ListOrders = order_list_program"

section \<open>Without interruption a program is its command\<close>

lemma exec_Call [simp]:
  "exec I (Call c k) st = exec I (k (snd (I st c))) (fst (I st c))"
  by (simp split: prod.split)

declare exec.simps(2) [simp del]

lemma as_result_of_cli [simp]:
  "as_added (result_of Added r) = (case r of Inl e \<Rightarrow> Inl e | Inr x \<Rightarrow> Inr (Some x))"
  "as_done (result_of (\<lambda>_. Done) u) = (case u of Inl e \<Rightarrow> Inl e | Inr _ \<Rightarrow> Inr ())"
  by (cases r, simp_all) (cases u, simp_all)

lemma exec_open_first:
  "exec call_db (open_first p) db =
     (case sqlite_open db of
        (db1, Inl e) \<Rightarrow> (db1, Ret (Inl (StoreFailed e)))
      | (db1, Inr _) \<Rightarrow> exec call_db p db1)"
  by (simp add: open_first_def split: prod.split sum.split)

lemma exec_create_order:
  "exec call_db (create_order_program r iccid upp metadata mid lines) db =
     (case create_order sqlite_store r db iccid upp metadata mid of
        (db2, Panic) \<Rightarrow> (db2, Panic)
      | (db2, Ret (Inl e)) \<Rightarrow> (db2, Ret (Inl (ServiceFailed e)))
      | (db2, Ret (Inr x)) \<Rightarrow> (db2, Ret (Inr (lines x))))"
  by (simp add: create_order_program_def create_order_def
      split: prod.split sum.split outcome.split)

lemma exec_order_program: "exec call_db (order_program fs r cmd) db = run_order fs r db cmd"
proof (cases cmd)
  case (Add args)
  then show ?thesis
    by (simp add: order_add_program_def run_order_def run_order_add_def exec_open_first
        exec_create_order split: option.split outcome.split sum.split prod.split)
next
  case (Reset i)
  then show ?thesis
    by (simp add: order_reset_program_def run_order_def run_order_reset_def exec_open_first
        service_list_orders_def split: sum.split prod.split)
next
  case ListOrders
  then show ?thesis
    by (simp add: order_list_program_def run_order_def run_order_list_def exec_open_first
        service_list_orders_def split: sum.split prod.split)
qed

text \<open>A command adds a well-formed order, sets one to available, or reads.\<close>

fun cli_call :: "db_call \<Rightarrow> bool" where
  "cli_call OpenFile = True"
| "cli_call (OnStore (AddOrder n)) = (length (no_iccid n) = 10)"
| "cli_call (OnStore (SetState i s)) = (s = Available)"
| "cli_call (OnStore ListAll) = True"
| "cli_call (OnStore _) = False"

lemma calls_only_open_first: "calls_only cli_call p \<Longrightarrow> calls_only cli_call (open_first p)"
  by (simp add: open_first_def split: sum.split)

lemma order_program_calls: "calls_only cli_call (order_program fs r cmd)"
proof (cases cmd)
  case (Add args)
  then show ?thesis
    by (auto simp: order_add_program_def create_order_program_def dest: chosen_iccid_length
        intro!: calls_only_open_first split: option.split outcome.split sum.split)
qed (auto simp: order_reset_program_def order_list_program_def
    intro!: calls_only_open_first split: sum.split)

section \<open>How many calls a request makes\<close>

primrec within :: "('c, 'r, 'a) program \<Rightarrow> nat \<Rightarrow> bool" where
  "within (Return a) = (\<lambda>n. True)"
| "within (Call c k) = (\<lambda>n. 0 < n \<and> (\<forall>r. within (k r) (n - 1)))"

fun call_bound :: "request \<Rightarrow> nat" where
  "call_bound (InitiateRequest _) = 0"
| "call_bound (AuthenticateRequest _) = 3"
| "call_bound (BoundPackageRequest _) = 2"
| "call_bound (NotificationRequest _) = 3"

lemma within_mono: "within p m \<Longrightarrow> m \<le> n \<Longrightarrow> within p n"
proof (induction p arbitrary: m n)
  case (Call c k)
  have "within (k r) (n - 1)" for r
    using Call.IH [OF rangeI, of r "m - 1" "n - 1"] Call.prems by simp
  with Call.prems show ?case by simp
qed simp

lemma authenticate_order_within: "within (authenticate_order_program L m req ord) 2"
  by (simp add: authenticate_order_program_def remember_program_def Let_def
      split: option.split outcome.split sum.split prod.split)

lemma handle_program_within: "within (handle_program L env m r) (call_bound r)"
proof (cases r)
  case (InitiateRequest q)
  then show ?thesis by (simp add: initiate_program_def)
next
  case (AuthenticateRequest q)
  then show ?thesis
    by (simp add: authenticate_program_def authenticate_order_within split: sum.split list.split)
next
  case (BoundPackageRequest q)
  then show ?thesis
    by (simp add: bound_package_program_def find_upp_program_def Let_def
        split: option.split outcome.split sum.split prod.split)
next
  case (NotificationRequest q)
  then show ?thesis
    by (simp add: notification_program_def notified_order_program_def keep_program_def
        move_program_def Let_def split: option.split)
qed

section \<open>The programs and the handlers agree\<close>

text \<open>
  The second transcription of the handlers agrees with the first, which is what carries their
  properties over to the interleaved system: cutting at the calls loses nothing. For every endpoint and over any store, making the
  calls of the request's program one after another ends in the same store, with the same answer
  (or panic) and the same sessions as the handler run in one piece; and the same for every
  \<open>order\<close> command on the database file.
\<close>

lemma requests_and_commands_are_their_calls:
  "exec (call_store S) (handle_program L env (memory_of st) r) (app_store st)
     = (case handle S L env st r of (out, st') \<Rightarrow> (app_store st', out, memory_of st'))
   \<and> exec call_db (order_program fs rg cmd) db = run_order fs rg db cmd"
proof -
  obtain db' out m where run: "exec (call_store S) (handle_program L env (memory_of st) r)
      (app_store st) = (db', out, m)"
    by (metis prod.exhaust)
  have "handle S L env st r = (out, with_store db' m)"
    unfolding runs_as_handle [symmetric] by (simp add: runs_as_def run)
  with run show ?thesis by (simp add: exec_order_program)
qed

end
