(* ===== verification/Handlers.thy ===== *)
theory Handlers
  imports Server
begin

text \<open>
  What one request does, over any store that keeps the \<open>Store\<close> contract: the shape of a
  successful run of each handler, what a failed one leaves unchanged, and the effect on the
  orders and the notifications. The properties at the end state this of the SQLite store.
\<close>

section \<open>Successful runs\<close>

lemma authenticate_order_cases:
  assumes run: "authenticate_order S L st req ord = (out, st')"
  obtains (failed) "app_store st' = app_store st"
      "\<And>resp b. out = Ret resp \<Longrightarrow> resp_body resp \<noteq> AuthenticateBody b"
      "app_config st' = app_config st"
  | (success) ent sess der er g where
      "\<not> poisoned (app_sessions st)"
      "get_session (arq_transaction_id req) (sessions_of st) = Some ent"
      "dp_authenticate_client L (session ent) (arq_authenticate_server_response req)
         (ord_metadata ord) = (sess, Inr der)"
      "eid L sess = Ret er" "authenticate_fields L (as_slice der) = Inr g"
      "out = Ret (ok_json (AuthenticateBody
         \<lparr> acr_header = header_success, acr_transaction_id = arq_transaction_id req,
           acr_profile_metadata = af_profile_metadata g, acr_smdp_signed2 = af_smdp_signed2 g,
           acr_smdp_signature2 = af_smdp_signature2 g,
           acr_smdp_certificate = af_smdp_certificate g \<rparr>))"
      "st' = (with_sessions
                (put_entry (arq_transaction_id req)
                   (ent\<lparr>session := sess, entry_order_id := Some (ord_id ord)\<rparr>)
                   (put_entry (arq_transaction_id req) (ent\<lparr>session := sess\<rparr>)
                     (sessions_of st))) st)
               \<lparr>app_store := remember_euicc S (app_store st) (ord_id ord) (ok er)
                              (ok (euicc_cert L sess))\<rparr>"
proof (cases "poisoned (app_sessions st)")
  case True
  with run show ?thesis
    by (intro failed) (auto simp: authenticate_order_def Let_def)
next
  case unlocked: False
  show ?thesis
  proof (cases "get_session (arq_transaction_id req) (sessions_of st)")
    case None
    with run unlocked show ?thesis
      by (intro failed) (auto simp: authenticate_order_def Let_def)
  next
    case entry: (Some ent)
    obtain sess r where call: "dp_authenticate_client L (session ent)
        (arq_authenticate_server_response req) (ord_metadata ord) = (sess, r)"
      by force
    note known = run unlocked entry call
    show ?thesis
    proof (cases r)
      case (Inl e)
      with known show ?thesis
        by (intro failed) (auto simp: authenticate_order_def Let_def)
    next
      case der: (Inr der)
      show ?thesis
      proof (cases "eid L sess")
        case Panic
        with known der show ?thesis
          by (intro failed) (auto simp: authenticate_order_def Let_def)
      next
        case er: (Ret er)
        show ?thesis
        proof (cases "authenticate_fields L (as_slice der)")
          case (Inl e)
          with known der er show ?thesis
            by (intro failed) (auto simp: authenticate_order_def Let_def)
        next
          case (Inr g)
          with known der er show ?thesis
            by (intro success) (auto simp: authenticate_order_def Let_def)
        qed
      qed
    qed
  qed
qed

lemma authenticate_client_cases:
  assumes run: "authenticate_client S L st req = (out, st')"
  obtains (failed) "app_store st' = app_store st"
      "\<And>resp b. out = Ret resp \<Longrightarrow> resp_body resp \<noteq> AuthenticateBody b"
      "app_config st' = app_config st"
  | (success) orders ord ent sess der er g where
      "list_orders S (app_store st) = Inr orders" "filter offered orders = [ord]"
      "\<not> poisoned (app_sessions st)"
      "get_session (arq_transaction_id req) (sessions_of st) = Some ent"
      "dp_authenticate_client L (session ent) (arq_authenticate_server_response req)
         (ord_metadata ord) = (sess, Inr der)"
      "eid L sess = Ret er" "authenticate_fields L (as_slice der) = Inr g"
      "out = Ret (ok_json (AuthenticateBody
         \<lparr> acr_header = header_success, acr_transaction_id = arq_transaction_id req,
           acr_profile_metadata = af_profile_metadata g, acr_smdp_signed2 = af_smdp_signed2 g,
           acr_smdp_signature2 = af_smdp_signature2 g,
           acr_smdp_certificate = af_smdp_certificate g \<rparr>))"
      "st' = (with_sessions
                (put_entry (arq_transaction_id req)
                   (ent\<lparr>session := sess, entry_order_id := Some (ord_id ord)\<rparr>)
                   (put_entry (arq_transaction_id req) (ent\<lparr>session := sess\<rparr>)
                     (sessions_of st))) st)
               \<lparr>app_store := remember_euicc S (app_store st) (ord_id ord) (ok er)
                              (ok (euicc_cert L sess))\<rparr>"
proof (cases "\<exists>orders ord. list_orders S (app_store st) = Inr orders
    \<and> filter offered orders = [ord]")
  case False
  with run show ?thesis
    by (intro failed)
      (auto simp: authenticate_client_def split: sum.splits list.splits)
next
  case True
  then obtain orders ord where one: "list_orders S (app_store st) = Inr orders"
    "filter offered orders = [ord]" by blast
  with run have "authenticate_order S L st req ord = (out, st')"
    by (simp add: authenticate_client_def)
  then show ?thesis
    by (cases rule: authenticate_order_cases) (use one failed success in blast)+
qed

lemma get_bound_profile_package_cases:
  assumes "get_bound_profile_package S L env st req = (out, st')"
  obtains (failed) "app_store st' = app_store st"
      "\<And>resp b. out = Ret resp \<Longrightarrow> resp_body resp \<noteq> BoundPackageBody b"
      "app_config st' = app_config st"
      "poisoned (app_sessions st') = poisoned (app_sessions st)"
  | (success) otsk_dp ent i upp sess bpp where
      "fst (nonce_otsk_dp (cfg_nonces (app_config st)) (rng env)) = Ret otsk_dp"
      "\<not> poisoned (app_sessions st)"
      "get_session (grq_transaction_id req) (sessions_of st) = Some ent"
      "entry_order_id ent = Some i" "find_upp S (app_store st) (Some i) = Some upp"
      "dp_get_bound_profile_package L (session ent) (grq_prepare_download_response req) upp
         otsk_dp = (sess, Inr bpp)"
      "out = Ret (ok_json (BoundPackageBody
         \<lparr> gbr_header = header_success, gbr_transaction_id = grq_transaction_id req,
           gbr_bound_profile_package = as_slice bpp \<rparr>))"
      "st' = (with_sessions (remove_session (grq_transaction_id req) (sessions_of st)) st)
               \<lparr>app_store := fst (set_state S (app_store st) i Downloaded)\<rparr>"
proof (cases "case fst (nonce_otsk_dp (cfg_nonces (app_config st)) (rng env)) of
                Ret _ \<Rightarrow> get_session (grq_transaction_id req) (sessions_of st) | Panic \<Rightarrow> None")
  case None
  with assms show ?thesis
    by (auto simp: get_bound_profile_package_def Let_def intro!: failed
        split: outcome.splits if_splits option.splits)
next
  case (Some ent)
  show ?thesis
  proof (cases "find_upp S (app_store st) (entry_order_id ent)")
    case None
    with Some assms show ?thesis
      by (auto simp: get_bound_profile_package_def Let_def intro!: failed
          split: outcome.splits if_splits)
  next
    case upp: (Some upp)
    then obtain i where "entry_order_id ent = Some i"
      by (auto simp: find_upp_def split: option.splits)
    with Some upp assms show ?thesis
      by (auto simp: get_bound_profile_package_def Let_def intro: failed success
          split: outcome.splits if_splits prod.splits sum.splits)
  qed
qed

text \<open>InitiateAuthentication never writes the store, and takes the lock only to insert.\<close>

lemma initiate_authentication_cases:
  assumes run: "initiate_authentication L env st req = (out, st')"
  obtains (failed) "st' = st" "\<And>resp b. out = Ret resp \<Longrightarrow> resp_body resp \<noteq> InitiateBody b"
  | (success) tid rng1 schal rng2 sess der f where
      "length (irq_euicc_challenge req) = 16"
      "nonce_transaction_id (cfg_nonces (app_config st)) (rng env) = (Ret tid, rng1)"
      "nonce_server_challenge (cfg_nonces (app_config st)) rng1 = (Ret schal, rng2)"
      "initiate L (irq_euicc_challenge req) (irq_euicc_info1 req) tid schal
         (server_address (app_config st)) (Some (irq_smdp_address req)) = Inr (sess, der)"
      "initiate_fields L (as_slice der) = Inr f" "\<not> poisoned (app_sessions st)"
      "out = Ret (ok_json (InitiateBody
         \<lparr> iar_header = header_success, iar_transaction_id = tid,
           iar_server_signed1 = if_server_signed1 f,
           iar_server_signature1 = if_server_signature1 f,
           iar_euicc_ci_pkid_to_be_used = if_euicc_ci_pkid f,
           iar_server_certificate = if_server_certificate f \<rparr>))"
      "st' = with_sessions (insert_session (now env) tid sess (sessions_of st)) st"
proof (cases "\<exists>b. out = Ret (ok_json (InitiateBody b))")
  case True
  with run show ?thesis
    by (auto simp: initiate_authentication_def failed_def from_rsp_error_def ok_json_def
        split: if_splits prod.splits outcome.splits sum.splits rsp_error.splits
        intro: success)
next
  case False
  with run have "st' = st"
    by (auto simp: initiate_authentication_def
        split: if_splits prod.splits outcome.splits sum.splits)
  moreover have "\<And>resp b. out = Ret resp \<Longrightarrow> resp_body resp \<noteq> InitiateBody b"
    using run False
    by (auto simp: initiate_authentication_def
        split: if_splits prod.splits outcome.splits sum.splits)
  ultimately show ?thesis by (rule failed)
qed

section \<open>How one request changes an order\<close>

datatype cause = ByNothing | ByAuthenticate | ByDelivery | ByNotification | ByReset

fun may_become :: "cause \<Rightarrow> order_state \<Rightarrow> order_state \<Rightarrow> bool" where
  "may_become ByNothing s t \<longleftrightarrow> False"
| "may_become ByAuthenticate s t \<longleftrightarrow> s \<le> Bound \<and> t = Bound"
| "may_become ByDelivery s t \<longleftrightarrow> t = Downloaded"
| "may_become ByNotification s t \<longleftrightarrow> t = Downloaded \<or> t = Failed"
| "may_become ByReset s t \<longleftrightarrow> t = Available"

text \<open>Everything about an order but its state and what it remembers of an eUICC.\<close>

definition same_order :: "order_t \<Rightarrow> order_t \<Rightarrow> bool" where
  "same_order x y \<longleftrightarrow>
     ord_id y = ord_id x \<and> ord_matching_id y = ord_matching_id x \<and> ord_iccid y = ord_iccid x
     \<and> ord_upp y = ord_upp x \<and> ord_metadata y = ord_metadata x"

definition same_euicc :: "order_t \<Rightarrow> order_t \<Rightarrow> bool" where
  "same_euicc x y \<longleftrightarrow> ord_eid y = ord_eid x \<and> ord_euicc_cert y = ord_euicc_cert x"

definition order_step :: "cause \<Rightarrow> order_t \<Rightarrow> order_t \<Rightarrow> bool" where
  "order_step c x y \<longleftrightarrow>
     same_order x y \<and> (same_euicc x y \<or> c = ByAuthenticate \<and> ord_state x \<le> Bound)
     \<and> (ord_state y = ord_state x \<or> may_become c (ord_state x) (ord_state y))"

definition one_order_step :: "cause \<Rightarrow> order_t list \<Rightarrow> order_t list \<Rightarrow> bool" where
  "one_order_step c xs ys \<longleftrightarrow>
     (\<exists>i. list_all2 (\<lambda>x y. y = x \<or> ord_id x = i \<and> order_step c x y) xs ys)"

lemma one_order_step_refl [simp]: "one_order_step c xs xs"
  by (auto simp: one_order_step_def intro: list_all2_refl)

lemma one_order_step_update:
  assumes "\<And>x. x \<in> set xs \<Longrightarrow> ord_id x = i \<Longrightarrow> order_step c x (f x)"
  shows "one_order_step c xs (update_order i f xs)"
proof -
  have "list_all2 (\<lambda>x y. y = x \<or> ord_id x = i \<and> order_step c x y) xs (update_order i f xs)"
    using assms by (induction xs) (auto simp: update_order_def)
  then show ?thesis by (auto simp: one_order_step_def)
qed

lemma update_order_update_order:
  "(\<And>x. ord_id (f x) = ord_id x) \<Longrightarrow>
     update_order i g (update_order i f xs) = update_order i (\<lambda>x. g (f x)) xs"
  by (induction xs) (auto simp: update_order_def)

lemma offered_le_Bound: "offered x \<longleftrightarrow> ord_state x \<le> Bound"
  by (cases "ord_state x") (auto simp: offered_def less_eq_order_state_def)

lemma filter_singleton_key:
  assumes "distinct (map key xs)" and "filter P xs = [x]" and "y \<in> set xs" and "key y = key x"
  shows "P y"
proof -
  have "x \<in> set (filter P xs)"
    using assms(2) by simp
  then have "x \<in> set xs" and "P x"
    by auto
  with assms(1,3,4) have "y = x"
    by (meson distinct_map inj_on_def)
  with \<open>P x\<close> show ?thesis by simp
qed

text \<open>The cause a request acts as; InitiateAuthentication moves no order at all.\<close>

fun cause_of :: "request \<Rightarrow> cause" where
  "cause_of (InitiateRequest _) = ByNothing"
| "cause_of (AuthenticateRequest _) = ByAuthenticate"
| "cause_of (BoundPackageRequest _) = ByDelivery"
| "cause_of (NotificationRequest _) = ByNotification"

section \<open>Effects over a lawful store\<close>

context lawful_store
begin

lemma set_state_fst:
  assumes "inv st"
  shows "inv (fst (set_state S st k s))"
    and "notifs_of (fst (set_state S st k s)) = notifs_of st"
    and "orders_of (fst (set_state S st k s)) = orders_of st
       \<or> orders_of (fst (set_state S st k s)) = update_order k (\<lambda>x. x\<lparr>ord_state := s\<rparr>) (orders_of st)"
  using set_state_effect [OF assms, of k s "fst (set_state S st k s)" "snd (set_state S st k s)"]
  by (auto split: sum.splits)

lemma bind_euicc_fst:
  assumes "inv st"
  shows "inv (fst (bind_euicc S st k e c))"
    and "notifs_of (fst (bind_euicc S st k e c)) = notifs_of st"
    and "orders_of (fst (bind_euicc S st k e c)) = orders_of st
       \<or> orders_of (fst (bind_euicc S st k e c)) =
           update_order k (\<lambda>x. x\<lparr>ord_eid := Some e, ord_euicc_cert := Some c\<rparr>) (orders_of st)"
  using bind_euicc_effect
    [OF assms, of k e c "fst (bind_euicc S st k e c)" "snd (bind_euicc S st k e c)"]
  by (auto split: sum.splits)

lemma record_notification_fst:
  assumes "inv st"
  shows "inv (fst (record_notification S st n))"
    and "orders_of (fst (record_notification S st n)) = orders_of st"
    and "\<exists>new. notifs_of (fst (record_notification S st n)) = notifs_of st @ new"
  using record_notification_effect
    [OF assms, of n "fst (record_notification S st n)" "snd (record_notification S st n)"]
  by (auto split: sum.splits)

lemma set_state_one_step:
  assumes "inv st"
    and "\<And>x. x \<in> set (orders_of st) \<Longrightarrow> ord_id x = k \<Longrightarrow> may_become c (ord_state x) s"
  shows "one_order_step c (orders_of st) (orders_of (fst (set_state S st k s)))"
  using set_state_fst(3) [OF assms(1), of k s] assms(2)
  by (auto intro!: one_order_step_update simp: order_step_def same_order_def same_euicc_def)

lemma remember_euicc_frame:
  assumes "inv st"
  shows "inv (remember_euicc S st i e c)"
    and "notifs_of (remember_euicc S st i e c) = notifs_of st"
  using assms
  by (auto simp: remember_euicc_def Let_def set_state_fst bind_euicc_fst split: option.split)

lemma remember_euicc_step:
  assumes inv: "inv st"
    and open_order: "\<And>x. x \<in> set (orders_of st) \<Longrightarrow> ord_id x = i \<Longrightarrow> ord_state x \<le> Bound"
  shows "one_order_step ByAuthenticate (orders_of st) (orders_of (remember_euicc S st i e c))"
proof -
  let ?st1 = "case (e, c) of (Some e, Some c) \<Rightarrow> fst (bind_euicc S st i e c) | _ \<Rightarrow> st"
  have inv1: "inv ?st1"
    using inv by (auto simp: bind_euicc_fst split: option.split)
  have "orders_of ?st1 = orders_of st
      \<or> (\<exists>e c. orders_of ?st1 =
           update_order i (\<lambda>x. x\<lparr>ord_eid := Some e, ord_euicc_cert := Some c\<rparr>) (orders_of st))"
  proof (cases "\<exists>e' c'. e = Some e' \<and> c = Some c'")
    case True
    then obtain e' c' where "e = Some e'" and "c = Some c'" by blast
    then show ?thesis using bind_euicc_fst(3) [OF inv, of i e' c'] by auto
  next
    case False
    then show ?thesis by (auto split: option.split)
  qed
  moreover have "remember_euicc S st i e c = fst (set_state S ?st1 i Bound)"
    by (simp add: remember_euicc_def Let_def)
  ultimately have "\<exists>f. orders_of (remember_euicc S st i e c) = update_order i f (orders_of st)
      \<and> (\<forall>x. same_order x (f x) \<and> ord_state (f x) \<in> {ord_state x, Bound})
    \<or> orders_of (remember_euicc S st i e c) = orders_of st"
    using set_state_fst(3) [OF inv1, of i Bound]
    by (auto simp: update_order_update_order same_order_def)
  then show ?thesis
    using open_order
    by (auto intro!: one_order_step_update simp: order_step_def)
qed

lemma keep_notification_frame:
  assumes "inv st"
  shows "inv (keep_notification S st ord v m raw)"
    and "orders_of (keep_notification S st ord v m raw) = orders_of st"
    and "\<exists>new. notifs_of (keep_notification S st ord v m raw) = notifs_of st @ new"
  using assms record_notification_fst [OF assms]
  by (auto simp: keep_notification_def split: option.split)

lemma move_order_frame:
  assumes "inv st"
  shows "inv (move_order S st ord v)"
    and "notifs_of (move_order S st ord v) = notifs_of st"
    and "one_order_step ByNotification (orders_of st) (orders_of (move_order S st ord v))"
  using assms set_state_fst [OF assms] set_state_one_step [OF assms, of _ ByNotification]
  by (auto simp: move_order_def split: option.split)

lemma handle_notification_step:
  assumes inv: "inv (app_store st)" and run: "handle_notification S L st req = (out, st')"
  shows "inv (app_store st')"
    and "one_order_step ByNotification (orders_of (app_store st)) (orders_of (app_store st'))"
    and "\<exists>new. notifs_of (app_store st') = notifs_of (app_store st) @ new"
proof -
  obtain ord v m raw where store:
    "app_store st' = move_order S (keep_notification S (app_store st) ord v m raw) ord v"
    using run by (auto simp: handle_notification_def Let_def)
  note kept = keep_notification_frame [OF inv, of ord v m raw]
  note moved = move_order_frame [OF kept(1), of ord v]
  show "inv (app_store st')"
    unfolding store by (rule moved)
  show "one_order_step ByNotification (orders_of (app_store st)) (orders_of (app_store st'))"
    using moved(3) unfolding store kept(2) .
  show "\<exists>new. notifs_of (app_store st') = notifs_of (app_store st) @ new"
    using kept(3) unfolding store moved(2) .
qed

lemma authenticate_client_step:
  assumes inv: "inv (app_store st)" and run: "authenticate_client S L st req = (out, st')"
  shows "inv (app_store st')"
    and "one_order_step ByAuthenticate (orders_of (app_store st)) (orders_of (app_store st'))"
    and "notifs_of (app_store st') = notifs_of (app_store st)"
  using run
proof (induction rule: authenticate_client_cases)
  case failed
  {
    case 1
    from inv failed show ?case by simp
  next
    case 2
    from failed show ?case by simp
  next
    case 3
    from failed show ?case by simp
  }
next
  case (success orders ord ent sess der er g)
  have all: "orders = orders_of (app_store st)"
    using list_orders_Inr [OF inv success(1)] .
  have "ord_state x \<le> Bound" if "x \<in> set (orders_of (app_store st))" and "ord_id x = ord_id ord" for x
    using filter_singleton_key [OF ids_distinct [OF inv] success(2) [unfolded all] that]
    by (simp add: offered_le_Bound)
  note step = remember_euicc_step [OF inv this]
  have store: "app_store st' =
      remember_euicc S (app_store st) (ord_id ord) (ok er) (ok (euicc_cert L sess))"
    using success by simp
  {
    case 1
    show ?case unfolding store by (rule remember_euicc_frame [OF inv])
  next
    case 2
    show ?case unfolding store by (rule step)
  next
    case 3
    show ?case unfolding store by (rule remember_euicc_frame [OF inv])
  }
qed

lemma get_bound_profile_package_step:
  assumes inv: "inv (app_store st)" and run: "get_bound_profile_package S L env st req = (out, st')"
  shows "inv (app_store st') \<and> notifs_of (app_store st') = notifs_of (app_store st)
    \<and> one_order_step ByDelivery (orders_of (app_store st)) (orders_of (app_store st'))"
  using run
proof (cases rule: get_bound_profile_package_cases)
  case failed
  with inv show ?thesis by simp
next
  case (success otsk_dp ent i upp sess bpp)
  then have "app_store st' = fst (set_state S (app_store st) i Downloaded)" by simp
  then show ?thesis
    using set_state_fst [OF inv] set_state_one_step [OF inv, of i ByDelivery] by simp
qed

lemma handle_step:
  assumes inv: "inv (app_store st)" and run: "handle S L env st r = (out, st')"
  shows "inv (app_store st')
    \<and> one_order_step (cause_of r) (orders_of (app_store st)) (orders_of (app_store st'))
    \<and> (\<exists>new. notifs_of (app_store st') = notifs_of (app_store st) @ new)"
proof (cases r)
  case (InitiateRequest q)
  then have "initiate_authentication L env st q = (out, st')"
    using run by simp
  then have "app_store st' = app_store st"
    by (cases rule: initiate_authentication_cases) simp_all
  with inv show ?thesis by simp
next
  case (AuthenticateRequest q)
  then have "authenticate_client S L st q = (out, st')"
    using run by simp
  from authenticate_client_step [OF inv this] AuthenticateRequest show ?thesis by simp
next
  case (BoundPackageRequest q)
  then have "get_bound_profile_package S L env st q = (out, st')"
    using run by simp
  from get_bound_profile_package_step [OF inv this] BoundPackageRequest show ?thesis by simp
next
  case (NotificationRequest q)
  then have "handle_notification S L st q = (out, st')"
    using run by simp
  from handle_notification_step [OF inv this] NotificationRequest show ?thesis by simp
qed

end

section \<open>Effects on the session table\<close>

lemma authenticate_order_sessions:
  assumes "authenticate_order S L st req ord = (out, st')"
  shows "get_session k (sessions_of st') = Some e \<Longrightarrow>
      \<exists>e0. get_session k (sessions_of st) = Some e0
        \<and> (entry_order_id e = entry_order_id e0 \<or> entry_order_id e = Some (ord_id ord))"
    and "app_config st' = app_config st"
    and "eid_in_bounds L \<Longrightarrow> poisoned (app_sessions st') = poisoned (app_sessions st)"
    and "poisoned (app_sessions st) \<Longrightarrow> poisoned (app_sessions st')"
  using assms eid_not_Panic [of L]
  by (auto simp: authenticate_order_def Let_def sess_tab.get_put
      split: if_splits option.splits prod.splits sum.splits outcome.splits)

lemma authenticate_client_order:
  assumes "authenticate_client S L st req = (out, st')"
  obtains "st' = st" "out \<noteq> Panic"
  | orders ord where "list_orders S (app_store st) = Inr orders" "filter offered orders = [ord]"
      "authenticate_order S L st req ord = (out, st')"
  using assms
  by (auto simp: authenticate_client_def split: sum.splits list.splits)

lemma get_bound_profile_package_sessions:
  assumes "get_bound_profile_package S L env st req = (out, st')"
  shows "get_session k (sessions_of st') = Some e \<Longrightarrow>
      \<exists>e0. get_session k (sessions_of st) = Some e0 \<and> entry_order_id e = entry_order_id e0"
    and "app_config st' = app_config st"
    and "poisoned (app_sessions st') = poisoned (app_sessions st)"
  using assms
  by (auto simp: get_bound_profile_package_def Let_def sess_tab.get_put sess_tab.get_del
      split: if_splits option.splits prod.splits sum.splits outcome.splits)

lemma handle_notification_sessions:
  "handle_notification S L st req = (out, st') \<Longrightarrow>
     app_sessions st' = app_sessions st \<and> app_config st' = app_config st \<and> out = Ret no_content"
  by (auto simp: handle_notification_def Let_def)

end
