(* ===== verification/System.thy ===== *)
theory System
  imports Handlers Cli
begin

text \<open>
  The program as a whole: one server process on one database file, with the command line
  working on the same file between requests. An event is a request with its environment, a
  command, a change of what the database currently fails with, or a restart of the server.
  Reachability and invariants are stated over runs of events, and the locale
  \<open>invariant_system\<close> lifts an invariant from steps to runs.
\<close>

section \<open>Events and runs\<close>

type_synonym 's server = "(conn, 's) app_state"

datatype event =
    Http env request "response outcome"
  | Command files os_random order_command "(cli_error + string list) outcome"
  | Weather "sql_stmt \<Rightarrow> string option"
  | Restart

inductive sys_step :: "'s rsp_lib \<Rightarrow> 's server \<Rightarrow> event \<Rightarrow> 's server \<Rightarrow> bool" for L where
  http: "handle sqlite_store L env st r = (out, st') \<Longrightarrow> sys_step L st (Http env r out) st'"
| command: "run_order fs rg (app_store st) cmd = (db', res) \<Longrightarrow>
     sys_step L st (Command fs rg cmd res) (st\<lparr>app_store := db'\<rparr>)"
| weather: "sys_step L st (Weather f) (st\<lparr>app_store := (app_store st)\<lparr>faults := f\<rparr>\<rparr>)"
| restart: "sqlite_open (app_store st) = (db', Inr ()) \<Longrightarrow>
     sys_step L st Restart (router_state db' (app_config st))"

inductive_simps sys_step_Http_iff: "sys_step L st (Http env r out) st'"

text \<open>\<open>smdp serve\<close> on a file that did not exist.\<close>

definition sys_init :: "'s server \<Rightarrow> bool" where
  "sys_init st \<longleftrightarrow>
     (\<exists>f addr db. sqlite_open (empty_conn f) = (db, Inr ())
        \<and> st = router_state db (server_config_new addr))"

section \<open>Invariants over runs\<close>

inductive run_of :: "('st \<Rightarrow> 'ev \<Rightarrow> 'st \<Rightarrow> bool) \<Rightarrow> 'st \<Rightarrow> 'ev list \<Rightarrow> 'st \<Rightarrow> bool" for step where
  run_nil: "run_of step st [] st"
| run_snoc: "run_of step st evs st' \<Longrightarrow> step st' ev st'' \<Longrightarrow> run_of step st (evs @ [ev]) st''"

lemma run_of_append:
  "run_of step st2 evs2 st3 \<Longrightarrow> run_of step st1 evs1 st2 \<Longrightarrow> run_of step st1 (evs1 @ evs2) st3"
proof (induction rule: run_of.induct)
  case (run_snoc st evs st' ev st'')
  from run_of.run_snoc [OF run_snoc.IH [OF run_snoc.prems] run_snoc.hyps(2)] show ?case by simp
qed simp

lemma run_of_one: "step st ev st' \<Longrightarrow> run_of step st [ev] st'"
  using run_of.run_snoc [OF run_of.run_nil, of step st ev st'] by simp

lemma run_of_append_split:
  "run_of step st (evs1 @ evs2) st' \<Longrightarrow> \<exists>st1. run_of step st evs1 st1 \<and> run_of step st1 evs2 st'"
proof (induction evs2 arbitrary: st' rule: rev_induct)
  case Nil
  then show ?case by (auto intro: run_of.run_nil)
next
  case (snoc ev evs2)
  from snoc.prems obtain mid where "run_of step st (evs1 @ evs2) mid" and last: "step mid ev st'"
    by (cases rule: run_of.cases) auto
  with snoc.IH obtain st1 where "run_of step st evs1 st1" and "run_of step st1 evs2 mid" by blast
  with last show ?case by (blast intro: run_of.run_snoc)
qed

abbreviation sys_run :: "'s rsp_lib \<Rightarrow> 's server \<Rightarrow> event list \<Rightarrow> 's server \<Rightarrow> bool" where
  "sys_run L \<equiv> run_of (sys_step L)"

locale invariant_system =
  fixes init :: "'st \<Rightarrow> bool"
    and step :: "'st \<Rightarrow> 'ev \<Rightarrow> 'st \<Rightarrow> bool"
    and I :: "'st \<Rightarrow> bool"
  assumes init_inv: "init st \<Longrightarrow> I st"
    and step_inv: "I st \<Longrightarrow> step st ev st' \<Longrightarrow> I st'"
begin

lemma run_inv: "run_of step st evs st' \<Longrightarrow> I st \<Longrightarrow> I st'"
  by (induction rule: run_of.induct) (auto intro: step_inv)

lemma reachable_inv: "run_of step st evs st' \<Longrightarrow> init st \<Longrightarrow> I st'"
  by (blast intro: run_inv init_inv)

end

section \<open>The invariant of the server\<close>

definition order_ids :: "'s server \<Rightarrow> int set" where
  "order_ids st = set (map ord_id (db_orders (app_store st)))"

text \<open>
  The database is one this version can work with; every session is keyed by a 16-byte
  transactionId and refers only to an order that exists; the random source is the operating
  system's; and, when the library keeps to the EID buffer, the session mutex is not poisoned.
\<close>

definition session_ok :: "int set \<Rightarrow> bytes \<Rightarrow> 's entry \<Rightarrow> bool" where
  "session_ok ids k e \<longleftrightarrow>
     length k = 16 \<and> (case entry_order_id e of None \<Rightarrow> True | Some i \<Rightarrow> i \<in> ids)"

definition sessions_ok :: "int set \<Rightarrow> 's sessions \<Rightarrow> bool" where
  "sessions_ok ids t \<longleftrightarrow> (\<forall>k e. get_session k t = Some e \<longrightarrow> session_ok ids k e)"

definition sys_inv :: "'s rsp_lib \<Rightarrow> 's server \<Rightarrow> bool" where
  "sys_inv L st \<longleftrightarrow>
     db_inv (app_store st) \<and> cfg_nonces (app_config st) = os_nonces
     \<and> sessions_ok (order_ids st) (sessions_of st)
     \<and> (eid_in_bounds L \<longrightarrow> \<not> poisoned (app_sessions st))"

lemma sessions_okI:
  assumes "sessions_ok ids t"
    and "\<And>k e. get_session k t' = Some e \<Longrightarrow> session_ok ids' k e
      \<or> (\<exists>e0. get_session k t = Some e0 \<and> entry_order_id e = entry_order_id e0)"
    and "ids \<subseteq> ids'"
  shows "sessions_ok ids' t'"
  using assms unfolding sessions_ok_def session_ok_def
  by (fastforce split: option.splits)

lemma one_order_step_ids:
  assumes "one_order_step c xs ys"
  shows "map ord_id ys = map ord_id xs"
proof -
  obtain i where "list_all2 (\<lambda>x y. y = x \<or> ord_id x = i \<and> order_step c x y) xs ys"
    using assms by (auto simp: one_order_step_def)
  then show ?thesis
    by (induction rule: list_all2_induct) (auto simp: order_step_def same_order_def)
qed

lemma handle_order_ids:
  assumes "db_inv (app_store st)" and "handle sqlite_store L env st r = (out, st')"
  shows "order_ids st' = order_ids st"
  using sqlite.handle_step [OF assms] one_order_step_ids by (metis order_ids_def)

text \<open>What every handler keeps of the session table, the lock and the configuration.\<close>

definition kept :: "'s rsp_lib \<Rightarrow> 's server \<Rightarrow> 's server \<Rightarrow> bool" where
  "kept L st st' \<longleftrightarrow>
     app_config st' = app_config st \<and> sessions_ok (order_ids st) (sessions_of st')
     \<and> (eid_in_bounds L \<longrightarrow> poisoned (app_sessions st') = poisoned (app_sessions st))"

lemma initiate_kept:
  assumes sess: "sessions_ok (order_ids st) (sessions_of st)"
    and cfg: "cfg_nonces (app_config st) = os_nonces"
    and run: "initiate_authentication L env st q = (out, st')"
  shows "kept L st st'"
  using run
proof (cases rule: initiate_authentication_cases)
  case failed
  with sess show ?thesis by (simp add: kept_def)
next
  case (success tid rng1 schal rng2 se der f)
  have len: "length tid = 16"
    using success(2) cfg os_nonce.transaction_id_length by simp
  have "sessions_ok (order_ids st) (sessions_of st')"
    by (rule sessions_okI [OF sess _ subset_refl])
      (use success(8) len in \<open>auto simp: sess_tab.get_ins session_ok_def
        split: if_splits option.splits\<close>)
  with success show ?thesis by (simp add: kept_def)
qed

lemma authenticate_kept:
  assumes sess: "sessions_ok (order_ids st) (sessions_of st)"
    and db: "db_inv (app_store st)"
    and run: "authenticate_client sqlite_store L st q = (out, st')"
  shows "kept L st st'"
  using run
proof (cases rule: authenticate_client_order)
  case 1
  with sess show ?thesis by (simp add: kept_def)
next
  case (2 orders ord)
  have "ord \<in> set orders"
    using arg_cong [OF 2(2), of set] by auto
  then have "ord_id ord \<in> order_ids st"
    using sqlite.list_orders_Inr [OF db 2(1)]
    by (auto simp: order_ids_def simp del: ids_db_orders)
  then have "sessions_ok (order_ids st) (sessions_of st')"
    using authenticate_order_sessions(1) [OF 2(3)] sess
    by (fastforce simp: sessions_ok_def session_ok_def split: option.splits)
  with authenticate_order_sessions(2,3) [OF 2(3)] show ?thesis by (simp add: kept_def)
qed

lemma bound_package_kept:
  assumes sess: "sessions_ok (order_ids st) (sessions_of st)"
    and run: "get_bound_profile_package sqlite_store L env st q = (out, st')"
  shows "kept L st st'"
proof -
  have "sessions_ok (order_ids st) (sessions_of st')"
    by (rule sessions_okI [OF sess _ subset_refl])
      (use get_bound_profile_package_sessions(1) [OF run] in blast)
  with get_bound_profile_package_sessions(2,3) [OF run] show ?thesis by (simp add: kept_def)
qed

lemma handle_keeps_inv:
  assumes inv: "sys_inv L st" and run: "handle sqlite_store L env st r = (out, st')"
  shows "sys_inv L st'"
proof -
  from inv have db: "db_inv (app_store st)" and cfg: "cfg_nonces (app_config st) = os_nonces"
    and sess: "sessions_ok (order_ids st) (sessions_of st)"
    and lock: "eid_in_bounds L \<Longrightarrow> \<not> poisoned (app_sessions st)"
    by (auto simp: sys_inv_def)
  have "kept L st st'"
  proof (cases r)
    case (InitiateRequest q)
    with run show ?thesis by (auto intro: initiate_kept [OF sess cfg])
  next
    case (AuthenticateRequest q)
    with run show ?thesis by (auto intro: authenticate_kept [OF sess db])
  next
    case (BoundPackageRequest q)
    with run show ?thesis by (auto intro: bound_package_kept [OF sess])
  next
    case (NotificationRequest q)
    then have "handle_notification sqlite_store L st q = (out, st')" using run by simp
    from handle_notification_sessions [OF this] sess show ?thesis
      by (simp add: sessions_of_def kept_def)
  qed
  with sqlite.handle_step [OF db run] handle_order_ids [OF db run] cfg lock show ?thesis
    by (simp add: sys_inv_def kept_def)
qed

text \<open>A command on the database leaves the server's memory alone.\<close>

lemma run_order_effect:
  assumes inv: "db_inv db" and run: "run_order fs r db cmd = (db', res)"
  shows "db_inv db' \<and> db_notifications db' = db_notifications db
    \<and> (one_order_step ByReset (db_orders db) (db_orders db')
       \<or> (\<exists>x. db_orders db' = db_orders db @ [x] \<and> ord_state x = Available
            \<and> ord_id x \<notin> set (map ord_id (db_orders db))))"
proof (cases cmd)
  case (Add args)
  then have "run_order_add fs r db args = (db', res)"
    using run by (simp add: run_order_def)
  from run_order_add_effect [OF inv this] show ?thesis by auto
next
  case (Reset i)
  then obtain u where "run_order_reset db i = (db', u)"
    using run by (auto simp: run_order_def split: prod.splits)
  from run_order_reset_effect [OF inv this] show ?thesis
    by (auto intro!: one_order_step_update simp: order_step_def same_order_def same_euicc_def)
next
  case ListOrders
  then obtain u where "run_order_list db = (db', u)"
    using run by (auto simp: run_order_def split: prod.splits)
  from run_order_list_effect [OF inv this] inv show ?thesis by simp
qed

lemma sys_step_keeps_inv:
  assumes inv: "sys_inv L st" and step: "sys_step L st ev st'"
  shows "sys_inv L st'"
  using step
proof cases
  case (http env r out)
  then show ?thesis using handle_keeps_inv [OF inv] by blast
next
  case (command fs rg cmd db' res)
  have db: "db_inv (app_store st)" using inv by (simp add: sys_inv_def)
  note effect = run_order_effect [OF db command(3)]
  have "order_ids st \<subseteq> order_ids st'"
    using effect
  proof (elim conjE disjE exE)
    assume "one_order_step ByReset (db_orders (app_store st)) (db_orders db')"
    from one_order_step_ids [OF this] show ?thesis
      by (simp add: order_ids_def command)
  next
    fix x assume "db_orders db' = db_orders (app_store st) @ [x]"
    then have "map ord_id (db_orders db') = map ord_id (db_orders (app_store st)) @ [ord_id x]"
      by (simp only: map_append list.map)
    from arg_cong [OF this, of set] show ?thesis by (auto simp: order_ids_def command)
  qed
  moreover have "sessions_ok (order_ids st) (sessions_of st)"
    using inv by (simp add: sys_inv_def)
  ultimately have "sessions_ok (order_ids st') (sessions_of st)"
    by (blast intro: sessions_okI)
  moreover have "db_inv db'"
    using effect by blast
  ultimately show ?thesis
    using inv unfolding sys_inv_def command(2) by simp
next
  case (weather f)
  with inv show ?thesis by (simp add: sys_inv_def order_ids_def)
next
  case (restart db')
  have "db' = app_store st"
    using sqlite_open_current [of "app_store st"] inv restart by (simp add: sys_inv_def)
  with inv restart show ?thesis
    by (simp add: sys_inv_def router_state_def sessions_ok_def sessions_of_def
        sess_tab.get_empty)
qed

end
