(* ===== verification/Interference.thy ===== *)
theory Interference
  imports Programs System
begin

text \<open>
  What one process may do to the database while another is between two of its calls, and what
  the server's requests guarantee all the same. A command's call is a step of the others
  (\<open>other_step\<close>); the locale \<open>rely_guarantee\<close> of \<open>Programs\<close> is interpreted once for the
  deliveries, once for the notifications and once for the binding of an order, and the result is
  \<open>handle_program_ok\<close>: every request keeps to its kind's changes and leaves the sessions sound.
\<close>

section \<open>What the others may do meanwhile\<close>

definition ids_in :: "conn \<Rightarrow> int set" where
  "ids_in db = set (map ord_id (db_orders db))"

text \<open>One call of a command, or a change of what the file currently fails with.\<close>

definition other_step :: "conn \<Rightarrow> conn \<Rightarrow> bool" where
  "other_step db db' \<longleftrightarrow>
     (\<exists>c. cli_call c \<and> db' = fst (call_db db c)) \<or> (\<exists>f. db' = db\<lparr>faults := f\<rparr>)"

text \<open>How one call may change the orders: as \<open>c\<close> allows, or, for a command, by one more.\<close>

definition db_step :: "(order_t list \<Rightarrow> order_t list \<Rightarrow> bool) \<Rightarrow> conn \<Rightarrow> conn \<Rightarrow> bool" where
  "db_step R db db' \<longleftrightarrow>
     db_inv db' \<and> R (db_orders db) (db_orders db')
     \<and> (\<exists>new. db_notifications db' = db_notifications db @ new)"

definition reset_or_added :: "order_t list \<Rightarrow> order_t list \<Rightarrow> bool" where
  "reset_or_added xs ys \<longleftrightarrow>
     one_order_step ByReset xs ys
     \<or> (\<exists>x. ys = xs @ [x] \<and> ord_state x = Available \<and> ord_id x \<notin> set (map ord_id xs))"

lemma reset_or_added_refl [simp]: "reset_or_added xs xs"
  by (simp add: reset_or_added_def)

lemma db_step_refl: "db_inv db \<Longrightarrow> (\<And>xs. R xs xs) \<Longrightarrow> db_step R db db"
  by (simp add: db_step_def)

lemma call_read [simp]:
  "fst (call_store S db ListAll) = db" "fst (call_store S db (ByIccid i)) = db"
  by simp_all

lemma set_state_db_step:
  assumes inv: "db_inv db"
    and "\<And>x. x \<in> set (db_orders db) \<Longrightarrow> ord_id x = i \<Longrightarrow> may_become c (ord_state x) s"
  shows "db_step (one_order_step c) db (fst (call_store sqlite_store db (SetState i s)))"
  using sqlite.set_state_fst [OF inv, of i s] sqlite.set_state_one_step [OF inv, of i c s] assms(2)
  by (simp add: db_step_def)

lemma command_db_step:
  assumes inv: "db_inv db" and ok: "cli_call c"
  shows "db_step reset_or_added db (fst (call_db db c))"
proof (cases c)
  case OpenFile
  then show ?thesis
    using sqlite_open_current [OF inv] inv by (simp add: db_step_refl)
next
  case (OnStore call)
  show ?thesis
  proof (cases call)
    case (AddOrder n)
    obtain db' r where run: "add_order sqlite_store db n = (db', r)" by force
    have len: "length (no_iccid n) = 10" using ok OnStore AddOrder by simp
    show ?thesis
    proof (cases r)
      case (Inl e)
      then show ?thesis
        using sqlite.add_order_Inl [OF inv, of n db' e] run OnStore AddOrder
        by (simp add: db_step_def)
    next
      case (Inr x)
      then show ?thesis
        using sqlite.add_order_Inr [OF inv len, of db' x] run OnStore AddOrder
        by (auto simp: db_step_def reset_or_added_def new_order_at_def simp del: ids_db_orders)
    qed
  next
    case (SetState i s)
    then show ?thesis
      using set_state_db_step [OF inv, of i ByReset Available] ok OnStore
      by (simp add: db_step_def reset_or_added_def)
  qed (use inv ok OnStore in \<open>simp_all add: db_step_refl\<close>)
qed

lemma other_db_step:
  assumes "db_inv db" and "other_step db db'"
  shows "db_step reset_or_added db db'"
  using assms command_db_step
  by (auto simp: other_step_def db_step_def)

text \<open>The others never take an order away, nor one that is on offer off it.\<close>

definition on_offer :: "int \<Rightarrow> order_t list \<Rightarrow> bool" where
  "on_offer i xs \<longleftrightarrow> (\<forall>x \<in> set xs. ord_id x = i \<longrightarrow> ord_state x \<le> Bound)"

lemma one_order_step_from:
  assumes "one_order_step c xs ys" and "y \<in> set ys"
  shows "\<exists>x \<in> set xs. y = x \<or> order_step c x y"
proof -
  obtain i where all: "list_all2 (\<lambda>x y. y = x \<or> ord_id x = i \<and> order_step c x y) xs ys"
    using assms(1) by (auto simp: one_order_step_def)
  obtain n where n: "n < length ys" "ys ! n = y"
    using assms(2) by (auto simp: in_set_conv_nth)
  then have "n < length xs" and "y = xs ! n \<or> order_step c (xs ! n) y"
    using list_all2_nthD2 [OF all n(1)] list_all2_lengthD [OF all] by auto
  then show ?thesis by (metis nth_mem)
qed

lemma on_offer_step:
  assumes "one_order_step c xs ys" and "c = ByReset \<or> c = ByAuthenticate" and "on_offer i xs"
  shows "on_offer i ys"
  unfolding on_offer_def
proof (intro ballI impI)
  fix y assume y: "y \<in> set ys" "ord_id y = i"
  obtain x where "x \<in> set xs" and "y = x \<or> order_step c x y"
    using one_order_step_from [OF assms(1) y(1)] by blast
  with assms(2,3) y(2) show "ord_state y \<le> Bound"
    by (auto simp: on_offer_def order_step_def same_order_def less_eq_order_state_def)
qed

definition has_ids :: "int set \<Rightarrow> conn \<Rightarrow> bool" where
  "has_ids ids db \<longleftrightarrow> db_inv db \<and> ids \<subseteq> ids_in db"

definition offers :: "int set \<Rightarrow> int \<Rightarrow> conn \<Rightarrow> bool" where
  "offers ids i db \<longleftrightarrow> has_ids ids db \<and> i \<in> ids_in db \<and> on_offer i (db_orders db)"

lemma has_ids_inv: "has_ids ids db \<Longrightarrow> db_inv db" "offers ids i db \<Longrightarrow> db_inv db"
  by (simp_all add: has_ids_def offers_def)

lemma ids_in_one_order_step:
  "one_order_step c (db_orders db) (db_orders db') \<Longrightarrow> ids_in db' = ids_in db"
  by (metis ids_in_def one_order_step_ids)

lemma ids_in_reset_or_added:
  assumes "reset_or_added (db_orders db) (db_orders db')"
  shows "ids_in db \<subseteq> ids_in db'"
  using assms ids_in_one_order_step
  by (fastforce simp: reset_or_added_def ids_in_def simp del: ids_db_orders)

lemma has_ids_step:
  assumes "has_ids ids db"
  shows "db_step (one_order_step c) db db' \<Longrightarrow> has_ids ids db'"
    and "db_step reset_or_added db db' \<Longrightarrow> has_ids ids db'"
  using assms ids_in_one_order_step [of c db db'] ids_in_reset_or_added [of db db']
  by (auto simp: has_ids_def db_step_def)

lemma on_offer_reset_or_added:
  assumes "reset_or_added xs ys" and "i \<in> set (map ord_id xs)" and "on_offer i xs"
  shows "on_offer i ys"
  using assms on_offer_step [of ByReset xs ys i]
  by (auto simp: reset_or_added_def on_offer_def)

lemma offers_step:
  assumes "offers ids i db"
  shows "db_step (one_order_step ByAuthenticate) db db' \<Longrightarrow> offers ids i db'"
    and "db_step reset_or_added db db' \<Longrightarrow> offers ids i db'"
proof -
  have ids: "has_ids ids db" and i: "i \<in> ids_in db" and offer: "on_offer i (db_orders db)"
    using assms by (auto simp: offers_def)
  show "offers ids i db'" if "db_step (one_order_step ByAuthenticate) db db'"
    using has_ids_step(1) [OF ids that] that i offer on_offer_step ids_in_one_order_step
    unfolding offers_def db_step_def by metis
  show "offers ids i db'" if "db_step reset_or_added db db'"
    using has_ids_step(2) [OF ids that] that i offer ids_in_reset_or_added
      on_offer_reset_or_added [OF _ i [unfolded ids_in_def] offer]
    unfolding offers_def db_step_def by blast
qed

section \<open>What the server's calls guarantee\<close>

fun delivery_call :: "store_call \<Rightarrow> bool" where
  "delivery_call ListAll = True"
| "delivery_call (SetState i s) = (s = Downloaded)"
| "delivery_call _ = False"

fun notification_call :: "store_call \<Rightarrow> bool" where
  "notification_call (ByIccid i) = True"
| "notification_call (RecordNotification n) = True"
| "notification_call (SetState i s) = (s = Downloaded \<or> s = Failed)"
| "notification_call _ = False"

fun binding_call :: "int \<Rightarrow> store_call \<Rightarrow> bool" where
  "binding_call i (BindEuicc k e c) = (k = i)"
| "binding_call i (SetState k s) = (k = i \<and> s = Bound)"
| "binding_call i _ = False"

lemma delivery_db_step:
  assumes "db_inv db" and "delivery_call c"
  shows "db_step (one_order_step ByDelivery) db (fst (call_store sqlite_store db c))"
proof (cases c)
  case (SetState i s)
  then show ?thesis using set_state_db_step [OF assms(1), of i ByDelivery s] assms(2) by simp
qed (use assms in \<open>simp_all add: db_step_refl\<close>)

lemma notification_db_step:
  assumes "db_inv db" and "notification_call c"
  shows "db_step (one_order_step ByNotification) db (fst (call_store sqlite_store db c))"
proof (cases c)
  case (SetState i s)
  then show ?thesis using set_state_db_step [OF assms(1), of i ByNotification s] assms(2) by simp
next
  case (RecordNotification n)
  then show ?thesis
    using sqlite.record_notification_fst [OF assms(1), of n] by (simp add: db_step_def)
qed (use assms in \<open>simp_all add: db_step_refl\<close>)

lemma binding_db_step:
  assumes "offers ids i db" and "binding_call i c"
  shows "db_step (one_order_step ByAuthenticate) db (fst (call_store sqlite_store db c))"
proof -
  have inv: "db_inv db" and offer: "\<And>x. x \<in> set (db_orders db) \<Longrightarrow> ord_id x = i \<Longrightarrow> ord_state x \<le> Bound"
    using assms(1) by (auto simp: offers_def has_ids_def on_offer_def)
  show ?thesis
  proof (cases c)
    case (BindEuicc k e x)
    have "one_order_step ByAuthenticate (db_orders db)
        (update_order i (\<lambda>y. y\<lparr>ord_eid := Some e, ord_euicc_cert := Some x\<rparr>) (db_orders db))"
      using offer by (intro one_order_step_update) (simp add: order_step_def same_order_def)
    then show ?thesis
      using BindEuicc sqlite.bind_euicc_fst [OF inv, of i e x] assms(2) by (auto simp: db_step_def)
  next
    case (SetState k s)
    then show ?thesis
      using set_state_db_step [OF inv, of i ByAuthenticate Bound] offer assms(2) by simp
  qed (use assms in simp_all)
qed

interpretation delivery: rely_guarantee other_step "call_store sqlite_store"
    "db_step (one_order_step ByDelivery)" "has_ids ids" delivery_call for ids
  by unfold_locales
    (meson delivery_db_step other_db_step has_ids_step has_ids_inv)+

interpretation notifying: rely_guarantee other_step "call_store sqlite_store"
    "db_step (one_order_step ByNotification)" "has_ids ids" notification_call for ids
  by unfold_locales
    (meson notification_db_step other_db_step has_ids_step has_ids_inv)+

interpretation binding: rely_guarantee other_step "call_store sqlite_store"
    "db_step (one_order_step ByAuthenticate)" "offers ids i" "binding_call i" for ids i
  by unfold_locales
    (meson binding_db_step other_db_step offers_step has_ids_inv)+

section \<open>What the handlers leave in memory\<close>

definition memory_fits :: "'s rsp_lib \<Rightarrow> int set \<Rightarrow> 's memory \<Rightarrow> bool" where
  "memory_fits L ids m \<longleftrightarrow>
     cfg_nonces (app_config m) = os_nonces \<and> sessions_ok ids (sessions_of m)
     \<and> (eid_in_bounds L \<longrightarrow> \<not> poisoned (app_sessions m))"

lemma memory_fits_mono: "memory_fits L ids m \<Longrightarrow> ids \<subseteq> ids' \<Longrightarrow> memory_fits L ids' m"
  unfolding memory_fits_def by (blast intro: sessions_okI)

lemma sys_inv_memory:
  "sys_inv L st \<longleftrightarrow> db_inv (app_store st) \<and> memory_fits L (ids_in (app_store st)) (memory_of st)"
  by (simp add: sys_inv_def memory_fits_def order_ids_def ids_in_def)

lemma memory_fits_with_sessions:
  "memory_fits L ids m \<Longrightarrow> sessions_ok ids t \<Longrightarrow> memory_fits L ids (with_sessions t m)"
  by (simp add: memory_fits_def)

lemma sessions_ok_put:
  assumes "sessions_ok ids t" and "get_session k t = Some e"
    and "\<And>i. entry_order_id e' = Some i \<Longrightarrow> i \<in> ids \<or> entry_order_id e = Some i"
  shows "sessions_ok ids (put_entry k e' t)"
  using assms unfolding sessions_ok_def session_ok_def
  by (fastforce simp: sess_tab.get_put split: option.splits if_splits)

lemma sessions_ok_remove: "sessions_ok ids t \<Longrightarrow> sessions_ok ids (remove_session k t)"
  by (simp add: sessions_ok_def sess_tab.get_del)

lemma initiate_program_assured:
  assumes "memory_fits L (ids_in db) m" and "db_inv db"
  shows "returns_only (\<lambda>a. memory_fits L (ids_in db) (snd a)) (initiate_program L env m req)"
proof -
  obtain out m' where run: "initiate_authentication L env m req = (out, m')" by force
  have "initiate_authentication L env (with_store db m) req = (out, with_store db m')"
    using runs_as_initiate [of sqlite_store L env "with_store db m" req]
    by (simp add: initiate_program_def run)
  then have "kept L (with_store db m) (with_store db m')"
    using assms(1) by (intro initiate_kept) (simp_all add: memory_fits_def order_ids_def ids_in_def)
  with assms(1) run show ?thesis
    by (simp add: initiate_program_def kept_def memory_fits_def order_ids_def ids_in_def)
qed

lemma calls_only_find_upp:
  "(\<And>x. calls_only delivery_call (k x)) \<Longrightarrow> calls_only delivery_call (find_upp_program i k)"
  by (simp add: find_upp_program_def split: option.split)

lemma returns_only_find_upp:
  "(\<And>x. returns_only R (k x)) \<Longrightarrow> returns_only R (find_upp_program i k)"
  by (simp add: find_upp_program_def split: option.split)

lemma bound_package_program_calls: "calls_only delivery_call (bound_package_program L env m req)"
  unfolding bound_package_program_def Let_def
  by (auto intro!: calls_only_find_upp split: outcome.split option.split prod.split sum.split)

lemma bound_package_program_returns:
  assumes fits: "memory_fits L ids m"
  shows "returns_only (\<lambda>a. memory_fits L ids (snd a)) (bound_package_program L env m req)"
proof -
  have sess: "sessions_ok ids (sessions_of m)"
    using fits by (simp add: memory_fits_def)
  note ok = memory_fits_with_sessions [OF fits] sessions_ok_put [OF sess] sessions_ok_remove [OF sess]
  show ?thesis
    unfolding bound_package_program_def Let_def
    by (auto simp: fits intro!: ok returns_only_find_upp
        split: outcome.split option.split prod.split sum.split)
qed

lemma notification_program_calls: "calls_only notification_call (notification_program L m req)"
  by (simp add: notification_program_def notified_order_program_def keep_program_def
      move_program_def Let_def split: option.split)

lemma notification_program_returns: "returns_only (\<lambda>a. snd a = m) (notification_program L m req)"
  by (simp add: notification_program_def notified_order_program_def keep_program_def
      move_program_def Let_def split: option.split)

lemma remember_program_calls:
  "calls_only (binding_call i) p \<Longrightarrow> calls_only (binding_call i) (remember_program i e c p)"
  by (simp add: remember_program_def split: option.split)

lemma remember_program_returns: "returns_only R p \<Longrightarrow> returns_only R (remember_program i e c p)"
  by (simp add: remember_program_def split: option.split)

lemma authenticate_order_program_calls:
  "calls_only (binding_call (ord_id ord)) (authenticate_order_program L m req ord)"
  unfolding authenticate_order_program_def Let_def
  by (auto intro!: remember_program_calls split: outcome.split option.split prod.split sum.split)

lemma authenticate_order_program_returns:
  assumes fits: "memory_fits L ids m" and known: "ord_id ord \<in> ids"
  shows "returns_only (\<lambda>a. memory_fits L ids (snd a)) (authenticate_order_program L m req ord)"
proof -
  have sess: "sessions_ok ids (sessions_of m)" and cfg: "cfg_nonces (app_config m) = os_nonces"
    using fits by (simp_all add: memory_fits_def)
  have put: "sessions_ok ids (put_entry tid (ent\<lparr>session := x\<rparr>) (sessions_of m))"
    "sessions_ok ids (put_entry tid (ent\<lparr>session := x, entry_order_id := Some (ord_id ord)\<rparr>)
       (put_entry tid (ent\<lparr>session := x\<rparr>) (sessions_of m)))"
    if "get_session tid (sessions_of m) = Some ent" for tid ent x
    using that known
    by (auto intro!: sessions_ok_put [where e = "ent\<lparr>session := x\<rparr>"] sessions_ok_put [OF sess that]
        simp: sess_tab.get_put)
  show ?thesis
    unfolding authenticate_order_program_def Let_def
    by (auto simp: fits cfg eid_not_Panic memory_fits_def [of L ids "poison m'" for m']
        intro!: memory_fits_with_sessions [OF fits] put remember_program_returns
        split: outcome.split option.split prod.split sum.split)
qed

section \<open>Every handler keeps its word under interference\<close>

text \<open>The guarantee of a request in progress: its calls act as its cause, its memory is sound.\<close>

definition job_ok :: "'s rsp_lib \<Rightarrow> request \<Rightarrow> 's job \<Rightarrow> conn \<Rightarrow> bool" where
  "job_ok L r p db \<longleftrightarrow>
     assured other_step (call_store sqlite_store) (db_step (one_order_step (cause_of r)))
       (\<lambda>a db'. memory_fits L (ids_in db') (snd a)) p db"

lemma fits_where_ids:
  "has_ids ids db \<Longrightarrow> memory_fits L ids m \<Longrightarrow> memory_fits L (ids_in db) m"
  by (auto simp: has_ids_def intro: memory_fits_mono)

lemma authenticate_program_ok:
  fixes L :: "'s rsp_lib"
  assumes inv: "db_inv db" and fits: "memory_fits L (ids_in db) m"
  shows "job_ok L (AuthenticateRequest req) (authenticate_program L m req) db"
proof -
  let ?G = "db_step (one_order_step ByAuthenticate)"
  let ?Q = "\<lambda>a db'. memory_fits L (ids_in db') (snd (a :: response outcome \<times> 's memory))"
  let ?ok = "assured other_step (call_store sqlite_store) ?G ?Q"
  let ?rest = "\<lambda>r. case as_orders r of
       Inl e \<Rightarrow> Return (Ret (failed PROFILE EXECUTION (display_store_error e)), m)
     | Inr orders \<Rightarrow>
         (case filter offered orders of
            [ord] \<Rightarrow> authenticate_order_program L m req ord
          | [] \<Rightarrow>
              Return (Ret (failed PROFILE UNKNOWN
                 (''no order is available -- add one, or reset one that has ''
                  @ ''already been downloaded (smdp order list shows their state)'')), m)
          | available \<Rightarrow>
              Return (Ret (failed PROFILE UNKNOWN
                 (show_nat (length available)
                  @ '' orders are available and the MatchingID is not read from ctxParams1 yet, ''
                  @ ''so this server cannot tell which is wanted'')), m))"
  have stays: "?ok (Return (out, m)) db1" if "has_ids (ids_in db) db1" for out db1
    using delivery.rely_star [OF _ that] fits_where_ids [OF _ fits] by auto
  have rest: "?ok (?rest (result_of Listed (list_orders sqlite_store db1))) db1"
    if env: "other_step\<^sup>*\<^sup>* db db1" for db1
  proof -
    have ids1: "has_ids (ids_in db) db1"
      using delivery.rely_star [OF env, of "ids_in db"] inv by (simp add: has_ids_def)
    show ?thesis
    proof (cases "\<exists>ord. list_orders sqlite_store db1 = Inr (db_orders db1)
        \<and> filter offered (db_orders db1) = [ord]")
      case True
      then obtain ord where one: "filter offered (db_orders db1) = [ord]"
        and listed: "list_orders sqlite_store db1 = Inr (db_orders db1)" by blast
      have inv1: "db_inv db1" using ids1 by (rule has_ids_inv)
      have mem: "ord \<in> set (filter offered (db_orders db1))" using one by simp
      then have known: "ord_id ord \<in> ids_in db1" by (simp add: ids_in_def del: ids_db_orders)
      have "offers (ids_in db1) (ord_id ord) db1"
        using filter_singleton_key [OF sqlite.ids_distinct [OF inv1] one] known inv1
        by (auto simp: offers_def has_ids_def on_offer_def offered_le_Bound)
      then have "?ok (authenticate_order_program L m req ord) db1"
        by (rule binding.assured_program [OF authenticate_order_program_calls
              authenticate_order_program_returns [OF fits_where_ids [OF ids1 fits] known]])
          (auto simp: offers_def intro: fits_where_ids)
      with one listed show ?thesis by simp
    next
      case False
      show ?thesis
      proof (cases "list_orders sqlite_store db1")
        case (Inl e)
        then show ?thesis by (simp add: stays [OF ids1] del: assured.simps)
      next
        case (Inr xs)
        then have "\<nexists>ord. filter offered xs = [ord]"
          using sqlite.list_orders_Inr [OF has_ids_inv(1) [OF ids1] Inr] False by simp
        then consider "filter offered xs = []" | x y zs where "filter offered xs = x # y # zs"
          by (metis list.exhaust)
        then show ?thesis
          by cases (simp_all add: Inr [simplified] stays [OF ids1] del: assured.simps)
      qed
    qed
  qed
  show ?thesis
    unfolding job_ok_def authenticate_program_def
    using rest delivery.rely_star [of db] inv
    by (auto simp: has_ids_def intro!: db_step_refl)
qed

lemma handle_program_ok:
  assumes inv: "db_inv db" and fits: "memory_fits L (ids_in db) m"
  shows "job_ok L r (handle_program L env m r) db"
proof -
  have ids: "has_ids (ids_in db) db" using inv by (simp add: has_ids_def)
  show ?thesis
  proof (cases r)
    case (InitiateRequest q)
    then show ?thesis
      using initiate_program_assured [OF fits inv, of env q] delivery.rely_star [OF _ ids]
      by (auto simp: job_ok_def initiate_program_def intro: fits_where_ids)
  next
    case (AuthenticateRequest q)
    with authenticate_program_ok [OF inv fits] show ?thesis by simp
  next
    case (BoundPackageRequest q)
    then show ?thesis
      by (auto simp: job_ok_def intro: fits_where_ids
          intro!: delivery.assured_program [OF bound_package_program_calls
            bound_package_program_returns [OF fits] ids])
  next
    case (NotificationRequest q)
    with fits show ?thesis
      by (auto simp: job_ok_def intro: fits_where_ids
          intro!: notifying.assured_program [OF notification_program_calls
            notification_program_returns ids])
  qed
qed

lemma job_ok_other: "job_ok L r p db \<Longrightarrow> other_step db db' \<Longrightarrow> job_ok L r p db'"
  unfolding job_ok_def by (rule assured_stable)

end
