(* ===== verification/Demo.thy ===== *)
theory Demo
  imports Server Database
begin

text \<open>
  A library that obeys its documented behaviour, a server on the one-order database
  \<open>demo_db\<close>, and requests to it: the concrete inputs at which the properties of the
  handlers and of whole runs are evaluated. The session state of this library is the number of
  calls made on it.
\<close>

definition demo_view :: "view" where
  "demo_view = (0, 2)"

definition demo_eid :: bytes where
  "demo_eid = map byte_of_char ''8904''"

definition demo_cert :: bytes where
  "demo_cert = [0x30, 0x82]"

definition demo_iccid :: bytes where
  "demo_iccid = replicate 10 0x98"

text \<open>A notification is its tag and a byte that says whether the Profile was installed.\<close>

definition demo_notification :: "bytes \<Rightarrow> c_notification" where
  "demo_notification raw =
     \<lparr> cn_is_installation_result = 1, cn_seq_number = 7, cn_operation = 0x80, cn_have_iccid = 1,
       cn_iccid = demo_iccid, cn_installed = (case raw of [_, b] \<Rightarrow> uint b | _ \<Rightarrow> 0) \<rparr>"

definition demo_lib :: "nat rsp_lib" where
  "demo_lib =
     \<lparr> c_initiate_authentication = (\<lambda>ch info tid sc own req. (0, 0, tid, length tid)),
       c_authenticate_client = (\<lambda>s resp md. (s + 1, 0, md, length md)),
       c_get_bound_profile_package =
         (\<lambda>s resp upp otsk. (s + 1, 0, upp @ take 1 otsk, length upp + 1)),
       c_session_euicc_cert = (\<lambda>s. (0, demo_cert, length demo_cert)),
       c_session_eid =
         (\<lambda>s buf. if length buf < 4 then (-2, buf, 0) else (0, demo_eid @ drop 4 buf, 4)),
       c_initiate_fields =
         (\<lambda>r. (0, \<lparr> ci_transaction_id = demo_view, ci_server_signed1 = demo_view,
                   ci_server_signature1 = demo_view, ci_euicc_ci_pkid = demo_view,
                   ci_server_certificate = demo_view \<rparr>)),
       c_authenticate_fields =
         (\<lambda>r. (0, \<lparr> ca_transaction_id = demo_view, ca_profile_metadata = demo_view,
                   ca_smdp_signed2 = demo_view, ca_smdp_signature2 = demo_view,
                   ca_smdp_certificate = demo_view \<rparr>)),
       c_notification_metadata =
         (\<lambda>raw. if take 1 raw = [0xbf] then (0, demo_notification raw)
                else (-1, demo_notification raw)),
       c_verify_notification =
         (\<lambda>cert raw. if cert = Some demo_cert \<and> take 1 raw = [0xbf]
                     then (0, demo_notification raw) else (-1, demo_notification raw)) \<rparr>"

text \<open>The same library, but one that reports an EID longer than the buffer it was given.\<close>

definition overrunning_lib :: "nat rsp_lib" where
  "overrunning_lib = demo_lib\<lparr>c_session_eid := \<lambda>s buf. (0, buf, 65)\<rparr>"

lemma demo_lib_in_bounds [simp]: "eid_in_bounds demo_lib"
  by (simp add: eid_in_bounds_def demo_lib_def)

definition demo_config :: server_config where
  "demo_config = server_config_new ''smdp.example.com''"

definition demo_server :: "(conn, nat) app_state" where
  "demo_server = router_state demo_db demo_config"

text \<open>Random bytes all equal to \<open>b\<close>, so that transactionIds are easy to name.\<close>

definition demo_env :: "byte \<Rightarrow> env" where
  "demo_env b = \<lparr> now = 0, rng = \<lparr> tape = (\<lambda>_. b), pos = 0, csprng_up = True \<rparr> \<rparr>"

definition demo_tid :: "byte \<Rightarrow> bytes" where
  "demo_tid b = replicate 16 b"

definition demo_initiate :: initiate_authentication_request where
  "demo_initiate =
     \<lparr> irq_euicc_challenge = replicate 16 1, irq_euicc_info1 = [0x30],
       irq_smdp_address = ''smdp.example.com'' \<rparr>"

definition demo_authenticate :: "byte \<Rightarrow> authenticate_client_request" where
  "demo_authenticate b =
     \<lparr> arq_transaction_id = demo_tid b, arq_authenticate_server_response = [0x30],
       arq_use_matching_id_for_acr = None \<rparr>"

definition demo_get_package :: "byte \<Rightarrow> get_bound_profile_package_request" where
  "demo_get_package b =
     \<lparr> grq_transaction_id = demo_tid b, grq_prepare_download_response = [0x30] \<rparr>"

definition demo_notify :: "byte \<Rightarrow> handle_notification_request" where
  "demo_notify b = \<lparr> hrq_pending_notification = [0xbf, b] \<rparr>"

text \<open>\<open>getrandom_fill\<close> on a constant tape.\<close>

lemma demo_fill:
  "csprng_up r \<Longrightarrow> tape r = (\<lambda>_. b) \<Longrightarrow>
     getrandom_fill n r = (Ret (replicate n b), r\<lparr>pos := pos r + n\<rparr>)"
  by (simp add: getrandom_fill_def map_replicate_const)

lemma demo_nonces [demo_facts]:
  "nonce_transaction_id os_nonces (rng (demo_env b))
     = (Ret (demo_tid b), (rng (demo_env b))\<lparr>pos := 16\<rparr>)"
  "nonce_server_challenge os_nonces ((rng (demo_env b))\<lparr>pos := 16\<rparr>)
     = (Ret (replicate 16 b), (rng (demo_env b))\<lparr>pos := 32\<rparr>)"
  "nonce_otsk_dp os_nonces (rng (demo_env b))
     = (Ret (replicate 32 b), (rng (demo_env b))\<lparr>pos := 32\<rparr>)"
  by (simp_all add: os_nonces_def os_nonces_fill_def demo_fill demo_env_def demo_tid_def)

section \<open>One step of each kind\<close>

definition demo_order :: order_t where
  "demo_order =
     \<lparr> ord_id = 1, ord_matching_id = ''MATCH-1'', ord_iccid = demo_iccid, ord_upp = [1, 2, 3],
       ord_metadata = [0xbf, 0x25], ord_state = Available, ord_eid = None,
       ord_euicc_cert = None \<rparr>"

lemma demo_db_orders: "db_orders demo_db = [demo_order]"
  by (simp add: db_orders_def demo_db_def db_rows_def order_of_row_def parse_order_state_def
      demo_order_def demo_iccid_def)

lemma demo_db_no_notifications [simp]: "db_notifications demo_db = []"
  by (simp add: db_notifications_def demo_db_def db_qrows_def)

lemma demo_lib_calls [demo_facts]:
  "initiate demo_lib ch info tid sc ''smdp.example.com'' (Some ''smdp.example.com'')
     = Inr (\<lparr> dp_raw = 0 \<rparr>, from_raw tid (length tid))"
  "dp_authenticate_client demo_lib s resp md
     = (\<lparr> dp_raw = Suc (dp_raw s) \<rparr>, Inr (from_raw md (length md)))"
  "dp_get_bound_profile_package demo_lib s resp upp otsk
     = (\<lparr> dp_raw = Suc (dp_raw s) \<rparr>, Inr (from_raw (upp @ take 1 otsk) (length upp + 1)))"
  "euicc_cert demo_lib s = Inr demo_cert"
  by (cases s; simp add: initiate_def dp_authenticate_client_def dp_get_bound_profile_package_def
      euicc_cert_def cstring_new_def demo_lib_def)+

lemma demo_eid_text: "length demo_eid = 4" "string_from_utf8 demo_eid = Some ''8904''"
proof -
  have "valid_utf8 demo_eid"
    by (simp add: demo_eid_def byte_of_char_def)
  then show "string_from_utf8 demo_eid = Some ''8904''"
    by (simp add: string_from_utf8_def demo_eid_def)
qed (simp add: demo_eid_def)

lemma demo_lib_eid [demo_facts]: "eid demo_lib s = Ret (Inr ''8904'')"
  by (simp add: eid_def demo_lib_def demo_eid_text)

definition demo_initiate_fields :: "bytes \<Rightarrow> initiate_fields_t" where
  "demo_initiate_fields r =
     \<lparr> if_transaction_id = take 2 r, if_server_signed1 = take 2 r, if_server_signature1 = take 2 r,
       if_euicc_ci_pkid = take 2 r, if_server_certificate = take 2 r \<rparr>"

definition demo_authenticate_fields :: "bytes \<Rightarrow> authenticate_fields_t" where
  "demo_authenticate_fields r =
     \<lparr> af_transaction_id = take 2 r, af_profile_metadata = take 2 r, af_smdp_signed2 = take 2 r,
       af_smdp_signature2 = take 2 r, af_smdp_certificate = take 2 r \<rparr>"

lemma demo_lib_fields [demo_facts]:
  "initiate_fields demo_lib r = Inr (demo_initiate_fields r)"
  "authenticate_fields demo_lib r = Inr (demo_authenticate_fields r)"
  by (simp_all add: initiate_fields_def authenticate_fields_def demo_lib_def view_in_def
      demo_view_def demo_initiate_fields_def demo_authenticate_fields_def)

lemma demo_server_simps [simp]:
  "app_store demo_server = demo_db"
  "cfg_nonces (app_config demo_server) = os_nonces"
  "server_address (app_config demo_server) = ''smdp.example.com''"
  "\<not> poisoned (app_sessions demo_server)"
  "get_session k (sessions_of demo_server) = None"
  by (simp_all add: demo_server_def router_state_def demo_config_def server_config_new_def
      sessions_of_def sess_tab.get_empty)

lemma ok_json_eq [simp]: "ok_json a = ok_json b \<longleftrightarrow> a = b"
  by (simp add: ok_json_def)

lemma demo_initiate_step:
  assumes "cfg_nonces (app_config st) = os_nonces" and "\<not> poisoned (app_sessions st)"
    and "server_address (app_config st) = ''smdp.example.com''"
  shows "\<exists>a. handle S demo_lib (demo_env b) st (InitiateRequest demo_initiate) =
      (Ret (ok_json (InitiateBody a)),
       with_sessions (insert_session 0 (demo_tid b) \<lparr> dp_raw = 0 \<rparr> (sessions_of st)) st)
    \<and> iar_transaction_id a = demo_tid b"
  using assms
  by (simp add: initiate_authentication_def demo_initiate_def demo_facts)
    (simp add: demo_env_def)

lemma demo_authenticate_step:
  assumes "list_orders S (app_store st) = Inr os" and "filter offered os = [x]"
    and "get_session (demo_tid b) (sessions_of st) = Some ent" and "\<not> poisoned (app_sessions st)"
  shows "\<exists>a. handle S demo_lib env st (AuthenticateRequest (demo_authenticate b)) =
    (Ret (ok_json (AuthenticateBody a)),
     (with_sessions (put_entry (demo_tid b)
         (ent\<lparr>session := \<lparr> dp_raw = Suc (dp_raw (session ent)) \<rparr>, entry_order_id := Some (ord_id x)\<rparr>)
         (sessions_of st)) st)
       \<lparr>app_store := remember_euicc S (app_store st) (ord_id x) (Some ''8904'') (Some demo_cert)\<rparr>)"
proof -
  have twice: "put_entry k e (put_entry k e0 t) = put_entry k e t" for k e e0 and t :: "nat sessions"
    by (simp add: put_entry_def)
  show ?thesis
    using assms
    by (simp add: authenticate_client_def authenticate_order_def Let_def demo_authenticate_def demo_facts twice)
qed

lemma demo_package_step:
  assumes "find_upp S (app_store st) (Some i) = Some upp"
    and "get_session (demo_tid b) (sessions_of st) = Some ent" and "entry_order_id ent = Some i"
    and "\<not> poisoned (app_sessions st)" and "cfg_nonces (app_config st) = os_nonces"
  shows "handle S demo_lib (demo_env b) st (BoundPackageRequest (demo_get_package b)) =
    (Ret (ok_json (BoundPackageBody
       \<lparr> gbr_header = header_success, gbr_transaction_id = demo_tid b,
         gbr_bound_profile_package = upp @ [b] \<rparr>)),
     (with_sessions (remove_session (demo_tid b) (sessions_of st)) st)
       \<lparr>app_store := fst (set_state S (app_store st) i Downloaded)\<rparr>)"
  using assms
  by (simp add: get_bound_profile_package_def Let_def demo_get_package_def demo_facts
      as_slice_def from_raw_def)

end
