(* ===== verification/Downloads.thy ===== *)
theory Downloads
  imports Handlers Demo
begin

text \<open>
  The properties of the four ES9+ handlers of \<open>crates/smdp/src/server/es9.rs\<close> over the SQLite
  store: what each answers, what it writes and what it leaves alone. Each rests on the case rules
  of \<open>Handlers\<close> and on the exact effect of the store calls, on a database that works and on one that fails.
\<close>

section \<open>Store writes, whatever the database fails\<close>

text \<open>
  The exact effect of each write on a database of this version. A write whose statement fails
  leaves everything as it is; which statements fail does not change within a request.
\<close>

lemma set_state_writes:
  assumes "db_inv c"
  shows "db_inv (fst (sqlite_set_state c k s))"
    and "faults (fst (sqlite_set_state c k s)) = faults c"
    and "db_notifications (fst (sqlite_set_state c k s)) = db_notifications c"
    and "db_orders (fst (sqlite_set_state c k s)) =
      (if faults c UpdateState = None then update_order k (\<lambda>x. x\<lparr>ord_state := s\<rparr>) (db_orders c)
       else db_orders c)"
proof -
  obtain c' u where run: "sqlite_set_state c k s = (c', u)" by force
  note effect = sqlite_set_state_effect [OF assms run]
  have "u = (case faults c UpdateState of Some t \<Rightarrow> Inl (Db (OtherError t)) | None \<Rightarrow> Inr ())"
    using set_state_snd [OF assms, of k s] by (simp add: run)
  with effect show "db_orders (fst (sqlite_set_state c k s)) =
      (if faults c UpdateState = None then update_order k (\<lambda>x. x\<lparr>ord_state := s\<rparr>) (db_orders c)
       else db_orders c)"
    by (auto simp: run split: option.splits)
  show "faults (fst (sqlite_set_state c k s)) = faults c"
    by (simp add: sqlite_set_state_def update_rows_def run_stmt_def split: option.split)
  show "db_inv (fst (sqlite_set_state c k s))"
    and "db_notifications (fst (sqlite_set_state c k s)) = db_notifications c"
    using effect by (simp_all add: run)
qed


lemma record_notification_writes:
  assumes "db_inv c"
  shows "db_inv (fst (sqlite_record_notification c n))"
    and "faults (fst (sqlite_record_notification c n)) = faults c"
    and "db_orders (fst (sqlite_record_notification c n)) = db_orders c"
    and "db_notifications (fst (sqlite_record_notification c n)) =
      (if faults c InsertNotification = None
       then db_notifications c @ [stored_at (fresh_id (map sn_id (db_notifications c))) n]
       else db_notifications c)"
proof -
  obtain c' u where run: "sqlite_record_notification c n = (c', u)" by force
  note eq = record_notification_eq [OF assms, of n]
  note views = notification_views_set_rows [OF refl, of c]
  show "db_inv (fst (sqlite_record_notification c n))"
    using sqlite_record_notification_effect [OF assms run] by (simp add: run)
  show "faults (fst (sqlite_record_notification c n)) = faults c"
    and "db_orders (fst (sqlite_record_notification c n)) = db_orders c"
    and "db_notifications (fst (sqlite_record_notification c n)) =
      (if faults c InsertNotification = None
       then db_notifications c @ [stored_at (fresh_id (map sn_id (db_notifications c))) n]
       else db_notifications c)"
    using views by (simp_all add: eq split: option.split)
qed


lemma update_order_nothing [simp]: "update_order i (\<lambda>x. x) os = os"
  by (simp add: update_order_def)


section \<open>Store writes on a working database\<close>

definition working :: "conn \<Rightarrow> bool" where
  "working c \<longleftrightarrow> db_inv c \<and> faults c = (\<lambda>_. None)"

lemma working_simps:
  assumes "working c"
  shows "db_inv c" and "faults c s = None"
    and "sqlite_list_orders c = Inr (db_orders c)"
    and "sqlite_order_by_iccid c i = Inr (find (\<lambda>x. ord_iccid x = i) (db_orders c))"
  using assms
  by (simp_all add: working_def sqlite_list_orders_eq sqlite_order_by_iccid_def
      one_eq [where P = "\<lambda>x. ord_iccid x = i"])

lemma update_rows_faults [simp]: "faults (fst (update_rows c s i f)) = faults c"
  by (simp add: update_rows_def run_stmt_def split: option.split)

lemma set_state_ok [store_effects]:
  assumes "working c"
  shows "working (fst (sqlite_set_state c k s))"
    and "db_orders (fst (sqlite_set_state c k s)) =
           update_order k (\<lambda>x. x\<lparr>ord_state := s\<rparr>) (db_orders c)"
    and "db_notifications (fst (sqlite_set_state c k s)) = db_notifications c"
proof -
  have inv: "db_inv c" using assms by (simp add: working_simps)
  obtain c' u where run: "sqlite_set_state c k s = (c', u)" by force
  have u: "u = Inr ()"
    using set_state_snd [OF inv, of k s] assms by (simp add: run working_simps)
  have f: "faults c' = faults c"
    using arg_cong [OF run, of fst] by (auto simp: sqlite_set_state_def)
  note sqlite_set_state_effect [OF inv run]
  then show "working (fst (sqlite_set_state c k s))"
    and "db_orders (fst (sqlite_set_state c k s)) =
           update_order k (\<lambda>x. x\<lparr>ord_state := s\<rparr>) (db_orders c)"
    and "db_notifications (fst (sqlite_set_state c k s)) = db_notifications c"
    using assms u f by (simp_all add: run working_def)
qed

lemma bind_euicc_ok [store_effects]:
  assumes "working c"
  shows "working (fst (sqlite_bind_euicc c k e cert))"
    and "db_orders (fst (sqlite_bind_euicc c k e cert)) =
           update_order k (\<lambda>x. x\<lparr>ord_eid := Some e, ord_euicc_cert := Some cert\<rparr>) (db_orders c)"
    and "db_notifications (fst (sqlite_bind_euicc c k e cert)) = db_notifications c"
proof -
  have inv: "db_inv c" using assms by (simp add: working_simps)
  obtain c' u where run: "sqlite_bind_euicc c k e cert = (c', u)" by force
  have u: "u = Inr ()"
    using bind_euicc_snd [OF inv, of k e cert] assms by (simp add: run working_simps)
  have f: "faults c' = faults c"
    using arg_cong [OF run, of fst] by (auto simp: sqlite_bind_euicc_def)
  note sqlite_bind_euicc_effect [OF inv run]
  then show "working (fst (sqlite_bind_euicc c k e cert))"
    and "db_orders (fst (sqlite_bind_euicc c k e cert)) =
           update_order k (\<lambda>x. x\<lparr>ord_eid := Some e, ord_euicc_cert := Some cert\<rparr>) (db_orders c)"
    and "db_notifications (fst (sqlite_bind_euicc c k e cert)) = db_notifications c"
    using assms u f by (simp_all add: run working_def)
qed

lemma record_notification_ok [store_effects]:
  assumes "working c"
  shows "working (fst (sqlite_record_notification c n))"
    and "db_orders (fst (sqlite_record_notification c n)) = db_orders c"
    and "db_notifications (fst (sqlite_record_notification c n)) =
           db_notifications c @ [stored_at (fresh_id (map sn_id (db_notifications c))) n]"
proof -
  have inv: "db_inv c" using assms by (simp add: working_simps)
  note eq = record_notification_eq [OF inv, of n]
  note views = notification_views_set_rows [OF refl, of c]
  obtain c' u where run: "sqlite_record_notification c n = (c', u)" by force
  have "db_inv c'"
    using sqlite_record_notification_effect [OF inv run] by simp
  moreover have "faults c' = faults c"
    using run unfolding eq by (auto split: option.splits)
  ultimately show "working (fst (sqlite_record_notification c n))"
    using assms by (simp add: run working_def)
  show "db_orders (fst (sqlite_record_notification c n)) = db_orders c"
    and "db_notifications (fst (sqlite_record_notification c n)) =
           db_notifications c @ [stored_at (fresh_id (map sn_id (db_notifications c))) n]"
    using assms views by (simp_all add: eq working_simps)
qed

text \<open>What a successful AuthenticateClient makes of the order.\<close>

fun bound_to :: "string option \<Rightarrow> bytes option \<Rightarrow> order_t \<Rightarrow> order_t" where
  "bound_to (Some e) (Some c) x =
     x\<lparr>ord_eid := Some e, ord_euicc_cert := Some c, ord_state := Bound\<rparr>"
| "bound_to _ _ x = x\<lparr>ord_state := Bound\<rparr>"

lemma remember_euicc_ok [store_effects]:
  assumes "working c"
  shows "working (remember_euicc sqlite_store c i e cert)"
    and "db_orders (remember_euicc sqlite_store c i e cert) =
           update_order i (bound_to e cert) (db_orders c)"
    and "db_notifications (remember_euicc sqlite_store c i e cert) = db_notifications c"
proof -
  have twice: "update_order i (\<lambda>x. x\<lparr>ord_state := Bound\<rparr>)
      (update_order i (\<lambda>x. x\<lparr>ord_eid := Some a, ord_euicc_cert := Some b\<rparr>) os)
    = update_order i (bound_to (Some a) (Some b)) os" for a b os
    by (simp add: update_order_update_order update_order_def)
  have once: "bound_to None cert = (\<lambda>x. x\<lparr>ord_state := Bound\<rparr>)"
    "bound_to (Some a) None = (\<lambda>x. x\<lparr>ord_state := Bound\<rparr>)" for a
    by auto
  show "working (remember_euicc sqlite_store c i e cert)"
    and "db_orders (remember_euicc sqlite_store c i e cert) =
           update_order i (bound_to e cert) (db_orders c)"
    and "db_notifications (remember_euicc sqlite_store c i e cert) = db_notifications c"
    using assms
    by (simp_all add: remember_euicc_def store_effects twice once split: option.split)
qed

text \<open>Which order a notification names, over the list of orders.\<close>

definition named_order :: "'s rsp_lib \<Rightarrow> bytes \<Rightarrow> order_t list \<Rightarrow> order_t option" where
  "named_order L raw os =
     Option.bind (Option.bind (ok (notification_metadata L raw)) nt_iccid)
       (\<lambda>i. find (\<lambda>x. ord_iccid x = i) os)"

lemma notified_order_eq:
  assumes "db_inv c"
  shows "notified_order sqlite_store L c raw =
    (if faults c SelectOneOrder = None then named_order L raw (db_orders c) else None)"
proof -
  have "sqlite_order_by_iccid c i =
      (case faults c SelectOneOrder of
         Some t \<Rightarrow> Inl (Db (OtherError t)) | None \<Rightarrow> Inr (find (\<lambda>x. ord_iccid x = i) (db_orders c)))"
    for i
    using one_eq [OF assms, of "\<lambda>x. ord_iccid x = i"] by (simp add: sqlite_order_by_iccid_def)
  then show ?thesis
    by (cases "Option.bind (ok (notification_metadata L raw)) nt_iccid")
      (simp_all add: notified_order_def named_order_def del: Option.bind_assoc split: option.split)
qed

section \<open>Answers\<close>

text \<open>The member of a JSON object, and the status an LPA reads in the header of an answer.\<close>

fun json_member :: "string \<Rightarrow> json \<Rightarrow> json option" where
  "json_member k (JObj obj) = map_of obj k"
| "json_member k _ = None"

definition json_status :: "json \<Rightarrow> json option" where
  "json_status j =
     Option.bind (Option.bind (json_member ''header'' j) (json_member ''functionExecutionStatus''))
       (json_member ''status'')"

fun is_failure :: "body \<Rightarrow> bool" where
  "is_failure (FailureBody _) = True"
| "is_failure _ = False"

definition answer_ok :: "response \<Rightarrow> bool" where
  "answer_ok resp \<longleftrightarrow>
     resp = ok_json (resp_body resp)
     \<and> (case resp_body resp of
          EmptyBody \<Rightarrow> False
        | FailureBody r \<Rightarrow> \<exists>s t m. fr_header r = header_failed s t m
        | InitiateBody r \<Rightarrow> iar_header r = header_success
        | AuthenticateBody r \<Rightarrow> acr_header r = header_success
        | BoundPackageBody r \<Rightarrow> gbr_header r = header_success)"

lemma answer_ok_failed [simp]: "answer_ok (failed s r m)" "answer_ok (from_rsp_error e s)"
proof -
  show fail: "answer_ok (failed s r m)" for s r m
    by (auto simp: answer_ok_def failed_def)
  show "answer_ok (from_rsp_error e s)"
    using from_rsp_error_failed [of e s] fail by metis
qed

lemma answers_ok:
  "initiate_authentication L env st q1 = (Ret resp, st') \<Longrightarrow> answer_ok resp"
  "authenticate_order S L st2 q2 ord = (Ret resp, st2') \<Longrightarrow> answer_ok resp"
  "get_bound_profile_package S L env st3 q3 = (Ret resp, st3') \<Longrightarrow> answer_ok resp"
  by (auto simp: initiate_authentication_def authenticate_order_def
      get_bound_profile_package_def Let_def answer_ok_def [of "ok_json _"]
      split: if_splits prod.splits outcome.splits sum.splits option.splits)

lemma handle_answer_ok:
  assumes "handle S L env st r = (Ret resp, st')"
  shows "(case r of NotificationRequest _ \<Rightarrow> resp = no_content | _ \<Rightarrow> answer_ok resp)"
proof (cases r)
  case (AuthenticateRequest q)
  with assms have "answer_ok resp"
    by (auto simp: authenticate_client_def dest: answers_ok(2) split: sum.splits list.splits)
  with AuthenticateRequest show ?thesis by simp
next
  case (NotificationRequest q)
  with assms show ?thesis using handle_notification_sessions [of S L st q] by simp
qed (use assms answers_ok(1,3) in auto)

lemma answer_ok_json:
  assumes "answer_ok resp"
  shows "resp = ok_json (resp_body resp)
    \<and> Option.bind (body_to_json B (resp_body resp)) json_status
        = Some (JStr (if is_failure (resp_body resp) then ''Failed'' else ''Executed-Success''))"
  using assms
  by (cases "resp_body resp")
    (auto simp: answer_ok_def json_status_def failure_response_to_json_def
      initiate_response_to_json_def authenticate_response_to_json_def
      bound_package_response_to_json_def response_header_to_json_def
      function_execution_status_to_json_def header_failed_def header_success_def)

section \<open>Panics and the lock\<close>

lemma fill_up:
  assumes "csprng_up r"
  shows "\<exists>b r'. getrandom_fill n r = (Ret b, r') \<and> csprng_up r' \<and> length b = n"
  using assms by (simp add: getrandom_fill_def)

lemma nonces_up:
  assumes "csprng_up r"
  shows "\<exists>b r'. nonce_transaction_id os_nonces r = (Ret b, r') \<and> csprng_up r'"
    and "\<exists>b r'. nonce_server_challenge os_nonces r = (Ret b, r') \<and> csprng_up r'"
    and "\<exists>b r'. nonce_otsk_dp os_nonces r = (Ret b, r') \<and> csprng_up r' \<and> length b = 32"
  using fill_up [OF assms, of 16] fill_up [OF assms, of 32]
  by (auto simp: os_nonces_def os_nonces_fill_def)

text \<open>What a request needs in order not to panic.\<close>

definition can_serve :: "'s rsp_lib \<Rightarrow> env \<Rightarrow> ('st, 's) app_state \<Rightarrow> bool" where
  "can_serve L env st \<longleftrightarrow>
     eid_in_bounds L \<and> cfg_nonces (app_config st) = os_nonces \<and> csprng_up (rng env)
     \<and> \<not> poisoned (app_sessions st)"

lemma initiate_not_Panic:
  assumes "can_serve L env st"
  shows "fst (initiate_authentication L env st req) \<noteq> Panic"
proof -
  obtain tid r1 where tid: "nonce_transaction_id os_nonces (rng env) = (Ret tid, r1)"
    and up: "csprng_up r1"
    using nonces_up(1) [of "rng env"] assms by (auto simp: can_serve_def)
  obtain sc r2 where sc: "nonce_server_challenge os_nonces r1 = (Ret sc, r2)"
    using nonces_up(2) [OF up] by blast
  show ?thesis
    using assms tid sc
    by (auto simp: initiate_authentication_def can_serve_def split: sum.split prod.split)
qed

lemma authenticate_not_Panic:
  assumes "can_serve L env st"
  shows "fst (authenticate_client S L st req) \<noteq> Panic"
  using assms eid_not_Panic [of L]
  by (auto simp: authenticate_client_def authenticate_order_def Let_def can_serve_def
      split: sum.split prod.split option.split outcome.split list.split)

lemma bound_package_not_Panic:
  assumes "can_serve L env st"
  shows "fst (get_bound_profile_package S L env st req) \<noteq> Panic"
proof -
  obtain b r where "nonce_otsk_dp os_nonces (rng env) = (Ret b, r)"
    using nonces_up(3) [of "rng env"] assms by (auto simp: can_serve_def)
  with assms show ?thesis
    by (auto simp: get_bound_profile_package_def Let_def can_serve_def
        split: sum.split prod.split option.split)
qed

lemma handle_not_Panic:
  assumes "can_serve L env st" and "handle S L env st r = (out, st')"
  shows "out \<noteq> Panic"
  using assms initiate_not_Panic [OF assms(1)] authenticate_not_Panic [OF assms(1), of S]
    bound_package_not_Panic [OF assms(1), of S] handle_notification_sessions [of S L st]
  by (cases r) (metis fst_conv handle.simps outcome.distinct(1))+

lemma handle_lock:
  assumes run: "handle S L env st r = (out, st')"
  shows "poisoned (app_sessions st) \<Longrightarrow> poisoned (app_sessions st')"
    and "eid_in_bounds L \<Longrightarrow> poisoned (app_sessions st') = poisoned (app_sessions st)"
proof -
  have "(poisoned (app_sessions st) \<longrightarrow> poisoned (app_sessions st'))
    \<and> (eid_in_bounds L \<longrightarrow> poisoned (app_sessions st') = poisoned (app_sessions st))"
  proof (cases r)
    case (InitiateRequest q)
    with run have "initiate_authentication L env st q = (out, st')" by simp
    then show ?thesis by (cases rule: initiate_authentication_cases) simp_all
  next
    case (AuthenticateRequest q)
    with run have "authenticate_client S L st q = (out, st')" by simp
    then show ?thesis
    proof (cases rule: authenticate_client_order)
      case (2 orders ord)
      show ?thesis using authenticate_order_sessions(3,4) [OF 2(3)] by blast
    qed simp
  next
    case (BoundPackageRequest q)
    with run get_bound_profile_package_sessions(3) [of S L env st q out st'] show ?thesis by simp
  next
    case (NotificationRequest q)
    with run handle_notification_sessions [of S L st q out st'] show ?thesis by simp
  qed
  then show "poisoned (app_sessions st) \<Longrightarrow> poisoned (app_sessions st')"
    and "eid_in_bounds L \<Longrightarrow> poisoned (app_sessions st') = poisoned (app_sessions st)"
    by blast+
qed

lemma decode_not_Panic [simp]: "decode_request B e obj \<noteq> Panic"
  unfolding decode_request_def
  by (cases e) (simp_all add: with_field_not_Panic)

section \<open>Properties of single requests\<close>

text \<open>
  C20: an answered InitiateAuthentication, when the nonces are those of the operating system. A
  success, and nothing else, opens a session: the challenge had 16 bytes, the transactionId in the answer is the next 16 bytes of the operating
  system's random source, the session under it is bound to no order yet, every other session
  younger than ten minutes is kept and every older one is gone; the store is not touched. Any
  other answer leaves the whole server as it was.
\<close>

theorem initiate_opens_one_session:
  assumes "cfg_nonces (app_config st) = os_nonces"
    and "initiate_authentication L env st req = (Ret resp, st')"
  shows "case resp_body resp of
      InitiateBody b \<Rightarrow>
        length (irq_euicc_challenge req) = 16
        \<and> iar_transaction_id b = map (\<lambda>k. tape (rng env) (pos (rng env) + k)) [0..<16]
        \<and> (\<exists>sess. get_session (iar_transaction_id b) (sessions_of st')
              = Some \<lparr> session = sess, entry_order_id = None, born = now env \<rparr>)
        \<and> (\<forall>k e. k = iar_transaction_id b
              \<or> (get_session k (sessions_of st') = Some e
                  \<longleftrightarrow> get_session k (sessions_of st) = Some e \<and> now env - born e < MAX_AGE))
        \<and> app_store st' = app_store st
    | _ \<Rightarrow> st' = st"
  using assms(2)
proof (cases rule: initiate_authentication_cases)
  case failed
  then show ?thesis by (auto split: body.split)
next
  case (success tid rng1 schal rng2 sess der f)
  have "map (tape (rng env)) [pos (rng env) ..< pos (rng env) + 16]
      = map (\<lambda>k. tape (rng env) (pos (rng env) + k)) [0..<16]"
    by (rule nth_equalityI) simp_all
  then have "tid = map (\<lambda>k. tape (rng env) (pos (rng env) + k)) [0..<16]"
    using success(2) assms(1)
    by (simp add: os_nonces_def os_nonces_fill_def getrandom_fill_def del: upt_rec_numeral
        split: if_splits)
  with success show ?thesis
    by (auto simp: sess_tab.get_ins split: option.splits if_splits)
qed

text \<open>
  AuthenticateClient does not guess. On a working database with no offered order, or with
  several, it refuses with the Profile subject and the reason unknown, and neither a session nor
  an order changes.
\<close>

theorem authenticate_does_not_guess:
  assumes "working (app_store st)" and "length (filter offered (db_orders (app_store st))) \<noteq> 1"
  shows "\<exists>m. authenticate_client sqlite_store L st req = (Ret (failed PROFILE UNKNOWN m), st)"
  using assms
  by (auto simp: authenticate_client_def working_simps split: list.splits)



text \<open>
  C13: a request that is not answered with success changes nothing that is stored. Over any store
  and any library, whenever a handler panics or answers with a Failed status, the store is exactly
  what it was: no order has moved and no eUICC was bound.
\<close>

theorem failure_leaves_the_store:
  "case handle S L env st r of
     (Panic, st') \<Rightarrow> app_store st' = app_store st
   | (Ret resp, st') \<Rightarrow>
       (case resp_body resp of FailureBody _ \<Rightarrow> app_store st' = app_store st | _ \<Rightarrow> True)"
proof (cases "handle S L env st r")
  case (Pair out st')
  have "(\<exists>resp b. out = Ret resp \<and> (\<forall>f. resp_body resp \<noteq> FailureBody f))
      \<or> app_store st' = app_store st"
  proof (cases r)
    case (InitiateRequest q)
    with Pair have "initiate_authentication L env st q = (out, st')" by simp
    then show ?thesis by (cases rule: initiate_authentication_cases) auto
  next
    case (AuthenticateRequest q)
    with Pair have "authenticate_client S L st q = (out, st')" by simp
    then show ?thesis by (cases rule: authenticate_client_cases) auto
  next
    case (BoundPackageRequest q)
    with Pair have "get_bound_profile_package S L env st q = (out, st')" by simp
    then show ?thesis by (cases rule: get_bound_profile_package_cases) auto
  next
    case (NotificationRequest q)
    with Pair have "out = Ret no_content"
      using handle_notification_sessions [of S L st q out st'] by simp
    then show ?thesis by (auto simp: no_content_def)
  qed
  with Pair show ?thesis
    by (auto split: outcome.split body.split)
qed

text \<open>
  C38: the shape of every answer of a handler. A notification is answered with 204, the protocol
  header and nothing else; every other request with 200, the protocol header, the JSON content
  type and a body that is a JSON object whose status header reads Failed for the failure bodies
  and Executed-Success for all others.
\<close>

theorem answers_are_well_formed:
  "case handle S L env st r of
     (Panic, _) \<Rightarrow> True
   | (Ret resp, _) \<Rightarrow>
       (case r of
          NotificationRequest _ \<Rightarrow>
            resp = \<lparr> resp_status = 204, resp_headers = [(''X-Admin-Protocol'', ''gsma/rsp/v2.6.0'')],
                     resp_body = EmptyBody \<rparr>
        | _ \<Rightarrow>
            resp = \<lparr> resp_status = 200,
                     resp_headers = [(''X-Admin-Protocol'', ''gsma/rsp/v2.6.0''),
                                     (''Content-Type'', ''application/json'')],
                     resp_body = resp_body resp \<rparr>
            \<and> Option.bind (body_to_json B (resp_body resp)) json_status
                = Some (JStr (if is_failure (resp_body resp) then ''Failed''
                              else ''Executed-Success'')))"
proof (cases "handle S L env st r")
  case (Pair out st')
  show ?thesis
  proof (cases out)
    case (Ret resp)
    note handled = handle_answer_ok [of S L env st r resp st']
    show ?thesis
    proof (cases "\<exists>q. r = NotificationRequest q")
      case True
      with Pair Ret handled show ?thesis
        by (auto simp: no_content_def ADMIN_PROTOCOL_def)
    next
      case False
      then have "answer_ok resp"
        using Pair Ret handled by (cases r) auto
      note facts = answer_ok_json [OF this, of B]
      have "resp = \<lparr> resp_status = 200, resp_headers = [(''X-Admin-Protocol'', ''gsma/rsp/v2.6.0''),
          (''Content-Type'', ''application/json'')], resp_body = resp_body resp \<rparr>"
        using facts by (metis ADMIN_PROTOCOL_def ok_json_def)
      with Pair Ret False facts show ?thesis
        by (cases r) simp_all
    qed
  qed (simp add: Pair)
qed


text \<open>
  A session delivers at most one package. Once it has, any later request with the same
  transactionId is refused as unknown and changes nothing, over any store and any library, as
  long as the random source can be read.
\<close>

theorem delivery_ends_the_session:
  assumes "get_bound_profile_package S L env st req = (Ret resp, st')"
    and "resp_body resp = BoundPackageBody b"
    and "cfg_nonces (app_config st) = os_nonces" and "csprng_up (rng env')"
    and "grq_transaction_id req' = grq_transaction_id req"
  shows "get_bound_profile_package S L' env' st' req'
    = (Ret (failed TRANSACTION_ID UNKNOWN ''no session with this transactionId''), st')"
  using assms(1)
proof (cases rule: get_bound_profile_package_cases)
  case failed
  with assms(2) show ?thesis by blast
next
  case (success otsk_dp ent i upp sess bpp)
  obtain o2 r2 where "nonce_otsk_dp os_nonces (rng env') = (Ret o2, r2)"
    using nonces_up(3) [OF assms(4)] by blast
  with success assms(3,5) show ?thesis
    by (simp add: get_bound_profile_package_def Let_def sess_tab.get_del)
qed

text \<open>
  C19: no request panics. With the library keeping to the EID buffer, a readable random source and
  an unpoisoned lock, any JSON object posted to any path, over any store, whatever the library
  answers, is answered, and the lock is still unpoisoned afterwards.
\<close>

theorem requests_never_panic:
  assumes "eid_in_bounds L" and "cfg_nonces (app_config st) = os_nonces"
    and "csprng_up (rng env)" and "\<not> poisoned (app_sessions st)"
  shows "fst (serve_post S L B env st path obj) \<noteq> Panic
    \<and> \<not> poisoned (app_sessions (snd (serve_post S L B env st path obj)))"
proof -
  have serve: "can_serve L env st"
    using assms by (simp add: can_serve_def)
  have "fst (handle S L env st r) \<noteq> Panic \<and> \<not> poisoned (app_sessions (snd (handle S L env st r)))"
    for r
    using handle_not_Panic [OF serve, of S r] handle_lock(2) [of S L env st r] assms(1,4)
    by (cases "handle S L env st r") auto
  then show ?thesis
    using assms(4)
    by (auto simp: serve_post_def split: option.split outcome.split prod.split)
      (metis fst_conv snd_conv)+
qed

text \<open>
  A poisoned lock is for ever, and blocks every download. Once a handler has panicked while it
  held the sessions, no request clears the poison, and no request is answered with success again:
  each panics, is refused, or is a notification, which takes no lock.
\<close>

theorem poison_is_permanent:
  assumes "poisoned (app_sessions st)"
  shows "case handle S L env st r of
      (out, st') \<Rightarrow> poisoned (app_sessions st')
        \<and> (case out of
             Panic \<Rightarrow> True
           | Ret resp \<Rightarrow> is_failure (resp_body resp) \<or> resp = no_content)"
proof (cases "handle S L env st r")
  case (Pair out st')
  have "is_failure (resp_body resp) \<or> resp = no_content" if out: "out = Ret resp" for resp
  proof (cases r)
    case (InitiateRequest q)
    with Pair out have "initiate_authentication L env st q = (Ret resp, st')" by simp
    then show ?thesis
      using assms from_rsp_error_failed
      by (auto simp: initiate_authentication_def from_rsp_error_def
          split: if_splits outcome.splits prod.splits sum.splits rsp_error.splits)
  next
    case (AuthenticateRequest q)
    with Pair out have "authenticate_client S L st q = (Ret resp, st')" by simp
    then show ?thesis
      using assms
      by (auto simp: authenticate_client_def authenticate_order_def Let_def
          split: sum.splits list.splits)
  next
    case (BoundPackageRequest q)
    with Pair out assms show ?thesis
      by (auto simp: get_bound_profile_package_def Let_def split: outcome.splits)
  next
    case (NotificationRequest q)
    with Pair out show ?thesis using handle_notification_sessions [of S L st q] by simp
  qed
  with Pair handle_lock(1) [OF Pair assms] show ?thesis
    by (auto split: outcome.split)
qed

text \<open>
  A refusal by the library keeps its reason on the way to the LPA. When the library answers
  AuthenticateClient with a non-zero code, the answer is Failed with the transactionId subject and
  the reason refused for -1 and execution error for every other code, with the wrapper's own
  description of the error as the message; the session keeps its order
  and its age, and the store is untouched.
\<close>

theorem refusals_keep_their_reason:
  assumes "working (app_store st)" and "filter offered (db_orders (app_store st)) = [x]"
    and "\<not> poisoned (app_sessions st)"
    and "get_session (arq_transaction_id req) (sessions_of st) = Some ent"
    and "c_authenticate_client L (dp_raw (session ent)) (arq_authenticate_server_response req)
           (ord_metadata x) = (s', code, buf, len)"
    and "code \<noteq> 0"
  shows "authenticate_client sqlite_store L st req =
    (Ret (failed TRANSACTION_ID (if code = -1 then REFUSED else EXECUTION)
            (display_rsp_error (from_code code ''AuthenticateClient''))),
     with_sessions
       (put_entry (arq_transaction_id req) (ent\<lparr>session := (session ent)\<lparr>dp_raw := s'\<rparr>\<rparr>)
         (sessions_of st)) st)"
  using assms
  by (simp add: authenticate_client_def authenticate_order_def working_simps Let_def
      dp_authenticate_client_def from_code_def from_rsp_error_def display_rsp_error_def)

section \<open>Properties of notifications\<close>

lemma keep_notification_writes:
  assumes "db_inv c"
  shows "db_inv (keep_notification sqlite_store c ord v m raw)"
    and "faults (keep_notification sqlite_store c ord v m raw) = faults c"
    and "db_orders (keep_notification sqlite_store c ord v m raw) = db_orders c"
    and "db_notifications (keep_notification sqlite_store c ord v m raw) =
      (case (case v of Some v \<Rightarrow> Some v | None \<Rightarrow> m) of
         None \<Rightarrow> db_notifications c
       | Some k \<Rightarrow>
           if faults c InsertNotification = None
           then db_notifications c
             @ [stored_at (fresh_id (map sn_id (db_notifications c)))
                  (kept_notification (v \<noteq> None) ord k raw)]
           else db_notifications c)"
  using assms
  by (auto simp: keep_notification_def record_notification_writes split: option.split)

lemma move_order_writes:
  assumes "db_inv c"
  shows "db_inv (move_order sqlite_store c ord v)"
    and "db_notifications (move_order sqlite_store c ord v) = db_notifications c"
    and "db_orders (move_order sqlite_store c ord v) =
      (case (v, ord) of
         (Some n, Some x) \<Rightarrow>
           if is_installation_result n \<and> faults c UpdateState = None
           then update_order (ord_id x)
                  (\<lambda>y. y\<lparr>ord_state := if nt_installed n then Downloaded else Failed\<rparr>) (db_orders c)
           else db_orders c
       | _ \<Rightarrow> db_orders c)"
  using assms
  by (auto simp: move_order_def set_state_writes split: option.split)

lemma handle_notification_store:
  "app_store (snd (handle_notification sqlite_store L st req)) =
    (let raw = hrq_pending_notification req;
         ord = notified_order sqlite_store L (app_store st) raw;
         v = verified_notification L ord raw in
     move_order sqlite_store
       (keep_notification sqlite_store (app_store st) ord v (ok (notification_metadata L raw)) raw)
       ord v)"
  by (simp add: handle_notification_def Let_def)

text \<open>
  C17: every notification that can be read is kept, once, as it arrived, if the statement that
  stores it does not fail. Whichever statements the database fails (\<open>faults\<close>), a delivery
  whose metadata the library can read is answered 204. It appends exactly one record with the
  bytes of the request when the insertion works and nothing when it does not, and the failure is
  not reported. The record names the order looked up, which is the first with the notification's
  ICCID, and none when there is none or the lookup failed; it says verified if and only if the
  library verified the signature under the certificate of that order, and gives an installation
  verdict only when it verified.
\<close>

theorem readable_notifications_are_kept:
  assumes "db_inv (app_store st)" and "raw = hrq_pending_notification req"
    and "notification_metadata L raw = Inr meta"
    and "ord = (if faults (app_store st) SelectOneOrder = None
                then named_order L raw (db_orders (app_store st)) else None)"
    and "handle_notification sqlite_store L st req = (out, st')"
  shows "out = Ret no_content
    \<and> (\<exists>n. db_notifications (app_store st') =
            (if faults (app_store st) InsertNotification = None
             then db_notifications (app_store st) @ [n] else db_notifications (app_store st))
         \<and> sn_raw n = raw \<and> sn_order_id n = map_option ord_id ord
         \<and> (case verify_notification L (Option.bind ord ord_euicc_cert) raw of
              Inl _ \<Rightarrow> \<not> sn_verified n \<and> sn_installed n = None
                \<and> sn_seq_number n = nt_seq_number meta
            | Inr v \<Rightarrow> sn_verified n \<and> sn_seq_number n = nt_seq_number v
                \<and> sn_installed n =
                    (if is_installation_result v then Some (nt_installed v) else None)))"
proof -
  have st': "st' = snd (handle_notification sqlite_store L st req)"
    using assms(5) by simp
  have ord: "notified_order sqlite_store L (app_store st) raw = ord"
    unfolding assms(4) by (rule notified_order_eq [OF assms(1)])
  note kept = keep_notification_writes [OF assms(1)]
  let ?v = "verified_notification L ord raw"
  let ?k = "case ?v of Some v \<Rightarrow> v | None \<Rightarrow> meta"
  have "out = Ret no_content"
    using handle_notification_sessions [OF assms(5)] by blast
  then show ?thesis
    unfolding st' handle_notification_store Let_def assms(2) [symmetric] ord
      move_order_writes(2) [OF kept(1)] kept(4)
    using assms(3)
    by (intro conjI exI [of _ "stored_at (fresh_id (map sn_id (db_notifications (app_store st))))
        (kept_notification (?v \<noteq> None) ord ?k raw)"])
      (auto simp: verified_notification_def kept_notification_def stored_at_def
        split: option.split sum.split)
qed

text \<open>
  C18: what a notification does to the orders, whichever statements the database fails
  (\<open>faults\<close>). Only a verified installation result moves one: the order looked up, which is the
  first with the notification's ICCID and whose own certificate the signature was checked against,
  becomes Downloaded or Failed as the eUICC reports, if the statement that writes it does not fail.
  An unverified notification, a notification of another kind, one that matches no order, and one
  whose order could not be looked up move nothing. Whether the notification could be stored makes
  no difference.
\<close>

theorem only_verified_results_move_orders:
  assumes "db_inv (app_store st)" and "raw = hrq_pending_notification req"
    and "ord = (if faults (app_store st) SelectOneOrder = None
                then named_order L raw (db_orders (app_store st)) else None)"
  shows "db_orders (app_store (snd (handle_notification sqlite_store L st req))) =
    (case (verify_notification L (Option.bind ord ord_euicc_cert) raw, ord) of
       (Inr v, Some x) \<Rightarrow>
         if is_installation_result v \<and> faults (app_store st) UpdateState = None
         then update_order (ord_id x)
                (\<lambda>y. y\<lparr>ord_state := if nt_installed v then Downloaded else Failed\<rparr>)
                (db_orders (app_store st))
         else db_orders (app_store st)
     | _ \<Rightarrow> db_orders (app_store st))"
proof -
  have ord: "notified_order sqlite_store L (app_store st) raw = ord"
    unfolding assms(3) by (rule notified_order_eq [OF assms(1)])
  note kept = keep_notification_writes [OF assms(1)]
  show ?thesis
    unfolding handle_notification_store Let_def assms(2) [symmetric] ord
    by (auto simp: move_order_writes(3) [OF kept(1)] kept(2,3) verified_notification_def
        split: sum.split option.split)
qed

text \<open>
  A notification whose metadata the library cannot read, and which does not verify, is
  answered with 204 and not kept: the whole server is as before, over any store.
\<close>

theorem unreadable_notifications_are_dropped:
  assumes "notification_metadata L (hrq_pending_notification req) = Inl e"
    and "verify_notification L None (hrq_pending_notification req) = Inl e'"
  shows "handle_notification S L st req = (Ret no_content, st)"
  using assms
  by (simp add: handle_notification_def Let_def notified_order_def verified_notification_def
      keep_notification_def move_order_def)

text \<open>The same file with another certificate, or none, in one row of the orders table.\<close>

definition with_certificate :: "int \<Rightarrow> bytes option \<Rightarrow> conn \<Rightarrow> conn" where
  "with_certificate k cert c =
     c\<lparr>orders_tab := map_option
         (map (\<lambda>r. if r_id r = k then r\<lparr>r_euicc_cert := cert\<rparr> else r)) (orders_tab c)\<rparr>"

lemma with_certificate_simps [simp]:
  "faults (with_certificate k cert c) = faults c"
  "notifications_tab (with_certificate k cert c) = notifications_tab c"
  "(with_certificate k cert c)\<lparr>notifications_tab := t\<rparr>
     = with_certificate k cert (c\<lparr>notifications_tab := t\<rparr>)"
  by (simp_all add: with_certificate_def)

lemma with_certificate_views:
  assumes "db_inv c"
  shows "db_inv (with_certificate k cert c)"
    and "db_orders (with_certificate k cert c)
      = update_order k (\<lambda>x. x\<lparr>ord_euicc_cert := cert\<rparr>) (db_orders c)"
proof -
  let ?g = "\<lambda>r. if r_id r = k then r\<lparr>r_euicc_cert := cert\<rparr> else r"
  have tab: "with_certificate k cert c = c\<lparr>orders_tab := Some (map ?g (db_rows c))\<rparr>"
    by (simp add: with_certificate_def db_inv_rows(1) [OF assms])
  have keys: "map r_id (map ?g rs) = map r_id rs"
      "map r_matching_id (map ?g rs) = map r_matching_id rs" for rs
    by simp_all
  have "list_all row_ok (map ?g (db_rows c))"
    using db_inv_rows(3) [OF assms] by (auto simp: list_all_iff row_ok_def)
  then show "db_inv (with_certificate k cert c)"
    unfolding tab using assms
    by (intro db_inv_set_rows) (simp_all add: keys db_inv_def del: map_map)
  show "db_orders (with_certificate k cert c)
      = update_order k (\<lambda>x. x\<lparr>ord_euicc_cert := cert\<rparr>) (db_orders c)"
    unfolding tab by (simp add: update_order_def db_orders_def order_of_row_def)
qed

lemma set_state_with_certificate:
  "sqlite_set_state (with_certificate k cert c) i s
     = map_prod (with_certificate k cert) id (sqlite_set_state c i s)"
proof (cases "faults c UpdateState")
  case None
  then show ?thesis
    by (cases "orders_tab c")
      (auto simp: sqlite_set_state_def update_rows_def run_stmt_def with_certificate_def)
qed (simp add: sqlite_set_state_def update_rows_def run_stmt_def)

lemma record_notification_with_certificate:
  "sqlite_record_notification (with_certificate k cert c) n
     = map_prod (with_certificate k cert) id (sqlite_record_notification c n)"
  by (simp add: sqlite_record_notification_def run_stmt_def Let_def prod_eq_iff split: option.split)

lemma keep_with_certificate:
  "keep_notification sqlite_store (with_certificate k cert c) ord v m raw
     = with_certificate k cert (keep_notification sqlite_store c ord v m raw)"
  by (simp add: keep_notification_def record_notification_with_certificate split: option.split)

lemma move_with_certificate:
  "move_order sqlite_store (with_certificate k cert c) ord v
     = with_certificate k cert (move_order sqlite_store c ord v)"
  by (simp add: move_order_def set_state_with_certificate split: option.split)

lemma find_update_other:
  assumes "\<And>x. P (f x) = P x" and "\<And>x. find P os = Some x \<Longrightarrow> ord_id x \<noteq> k"
  shows "find P (update_order k f os) = find P os"
  using assms(2) by (induction os) (auto simp: update_order_def assms(1))

text \<open>An order behind another one with the same ICCID is not what any lookup finds.\<close>

lemma named_order_in_front:
  assumes "db_inv c" and "y \<in> set (db_orders c)"
    and "find (\<lambda>z. ord_iccid z = ord_iccid y) (db_orders c) = Some x" and "ord_id x \<noteq> ord_id y"
    and "find (\<lambda>z. ord_iccid z = i) (db_orders c) = Some z"
  shows "ord_id z \<noteq> ord_id y"
proof
  assume "ord_id z = ord_id y"
  moreover have "z \<in> set (db_orders c)" "ord_iccid z = i"
    using assms(5) by (auto simp: find_Some_iff)
  moreover have "distinct (map ord_id (db_orders c))"
    using sqlite.ids_distinct assms(1) by (simp del: ids_db_orders)
  ultimately have "z = y"
    using assms(2) by (meson distinct_map inj_on_def)
  then have "x = y"
    using assms(3,5) \<open>ord_iccid z = i\<close> by simp
  with assms(4) show False by simp
qed

lemma notified_order_with_certificate:
  assumes "db_inv c"
    and other: "\<And>i z. find (\<lambda>x. ord_iccid x = i) (db_orders c) = Some z \<Longrightarrow> ord_id z \<noteq> k"
  shows "notified_order sqlite_store L (with_certificate k cert c) raw
    = notified_order sqlite_store L c raw"
proof -
  have "find (\<lambda>x. ord_iccid x = i) (update_order k (\<lambda>x. x\<lparr>ord_euicc_cert := cert\<rparr>) (db_orders c))
      = find (\<lambda>x. ord_iccid x = i) (db_orders c)" for i
    by (rule find_update_other) (auto dest: other)
  then show ?thesis
    by (simp add: notified_order_eq with_certificate_views assms(1) named_order_def)
qed

text \<open>
  C35: of several orders with one ICCID only the first can be notified, whichever statements the
  database fails. The ICCID is not unique in the table, and the lookup takes the first row. An order
  behind another one with the same ICCID is left exactly as it is by every notification; and no
  notification is checked with its certificate: with any other certificate in its row, or none,
  the handler gives the same answer and leaves the same server behind, but for that row.
\<close>

theorem shadowed_order_is_never_notified:
  assumes "db_inv (app_store st)" and "y \<in> set (db_orders (app_store st))"
    and "find (\<lambda>z. ord_iccid z = ord_iccid y) (db_orders (app_store st)) = Some x"
    and "ord_id x \<noteq> ord_id y"
    and "handle_notification sqlite_store L st req = (out, st')"
  shows "y \<in> set (db_orders (app_store st'))
    \<and> handle_notification sqlite_store L
        (st\<lparr>app_store := with_certificate (ord_id y) cert (app_store st)\<rparr>) req
      = (out, st'\<lparr>app_store := with_certificate (ord_id y) cert (app_store st')\<rparr>)"
proof
  let ?raw = "hrq_pending_notification req" and ?c = "app_store st"
  note front = named_order_in_front [OF assms(1-4)]
  have same: "notified_order sqlite_store L (with_certificate (ord_id y) cert ?c) ?raw
      = notified_order sqlite_store L ?c ?raw"
    by (rule notified_order_with_certificate [OF assms(1)]) (rule front)
  have other: "ord_id z \<noteq> ord_id y" if "notified_order sqlite_store L ?c ?raw = Some z" for z
    using that front
    by (auto simp: notified_order_eq [OF assms(1)] named_order_def bind_eq_Some_conv
        split: if_splits)
  have keep: "y \<in> set (update_order i f (db_orders ?c))" if "i \<noteq> ord_id y" for i f
    using assms(2) that by (force simp: update_order_def)
  have st': "st' = snd (handle_notification sqlite_store L st req)"
    using assms(5) by simp
  show "y \<in> set (db_orders (app_store st'))"
    unfolding st' handle_notification_store Let_def
      move_order_writes(3) [OF keep_notification_writes(1) [OF assms(1)]]
      keep_notification_writes(3) [OF assms(1)]
    using assms(2) other keep by (auto split: option.split)
  show "handle_notification sqlite_store L
      (st\<lparr>app_store := with_certificate (ord_id y) cert ?c\<rparr>) req
    = (out, st'\<lparr>app_store := with_certificate (ord_id y) cert (app_store st')\<rparr>)"
    using assms(5)
    by (auto simp: handle_notification_def Let_def keep_with_certificate move_with_certificate same)
qed

section \<open>The properties at work\<close>

text \<open>The demo server with a session opened, and with that session bound to the order.\<close>

definition opened_server :: "byte \<Rightarrow> (conn, nat) app_state" where
  "opened_server b =
     with_sessions (insert_session 0 (demo_tid b) \<lparr> dp_raw = 0 \<rparr> (sessions_of demo_server)) demo_server"

definition bound_db :: conn where
  "bound_db = remember_euicc sqlite_store demo_db 1 (Some ''8904'') (Some demo_cert)"

definition bound_server :: "byte \<Rightarrow> (conn, nat) app_state" where
  "bound_server b =
     (with_sessions
        (put_entry (demo_tid b)
          \<lparr> session = \<lparr> dp_raw = 1 \<rparr>, entry_order_id = Some 1, born = 0 \<rparr>
          (sessions_of (opened_server b))) (opened_server b))\<lparr>app_store := bound_db\<rparr>"

lemma working_demo_db [simp]: "working demo_db"
  by (simp add: working_def)

lemma working_bound_db [simp]: "working bound_db"
  by (simp add: bound_db_def store_effects)

lemma bound_db_facts [simp]: "db_inv bound_db" "faults bound_db = (\<lambda>_. None)"
  using working_bound_db by (simp_all add: working_def del: working_bound_db)

lemma offered_demo [simp]: "filter offered (db_orders demo_db) = [demo_order]"
  by (simp add: demo_db_orders offered_def demo_order_def)

lemma bound_db_orders:
  "db_orders bound_db = [bound_to (Some ''8904'') (Some demo_cert) demo_order]"
  by (simp add: bound_db_def store_effects demo_db_orders update_order_def demo_order_def
      del: bound_to.simps)

lemma bound_db_no_notifications [simp]: "db_notifications bound_db = []"
  by (simp add: bound_db_def store_effects)

lemma opened_server_simps [simp]:
  "app_store (opened_server b) = demo_db"
  "cfg_nonces (app_config (opened_server b)) = os_nonces"
  "\<not> poisoned (app_sessions (opened_server b))"
  "get_session (demo_tid b) (sessions_of (opened_server b))
     = Some \<lparr> session = \<lparr> dp_raw = 0 \<rparr>, entry_order_id = None, born = 0 \<rparr>"
  by (simp_all add: opened_server_def sess_tab.get_ins)

lemma bound_server_simps [simp]:
  "app_store (bound_server b) = bound_db"
  "cfg_nonces (app_config (bound_server b)) = os_nonces"
  "\<not> poisoned (app_sessions (bound_server b))"
  "get_session (demo_tid b) (sessions_of (bound_server b))
     = Some \<lparr> session = \<lparr> dp_raw = 1 \<rparr>, entry_order_id = Some 1, born = 0 \<rparr>"
  by (simp_all add: bound_server_def sess_tab.get_put)

lemma demo_tid_arg [simp]:
  "arq_transaction_id (demo_authenticate b) = demo_tid b"
  "grq_transaction_id (demo_get_package b) = demo_tid b"
  by (simp_all add: demo_authenticate_def demo_get_package_def)

lemma demo_find_upp: "find_upp sqlite_store bound_db (Some 1) = Some [1, 2, 3]"
  by (simp add: find_upp_def working_simps bound_db_orders demo_order_def)

theorem initiate_opens_one_session_witness:
  "case initiate_authentication demo_lib (demo_env 1) demo_server demo_initiate of
     (out, st') \<Rightarrow> \<exists>a. out = Ret (ok_json (InitiateBody a)) \<and> app_store st' = demo_db
       \<and> length (irq_euicc_challenge demo_initiate) = 16"
proof -
  obtain a st' where run: "initiate_authentication demo_lib (demo_env 1) demo_server demo_initiate
      = (Ret (ok_json (InitiateBody a)), st')"
    using demo_initiate_step [of demo_server undefined 1] by auto
  from initiate_opens_one_session [OF _ this] run show ?thesis by simp
qed

theorem authenticate_does_not_guess_witness:
  "\<exists>m. authenticate_client sqlite_store demo_lib
      (demo_server\<lparr>app_store := fst (sqlite_set_state demo_db 1 Downloaded)\<rparr>) (demo_authenticate 1)
    = (Ret (failed PROFILE UNKNOWN m),
       demo_server\<lparr>app_store := fst (sqlite_set_state demo_db 1 Downloaded)\<rparr>)"
  using authenticate_does_not_guess
      [of "demo_server\<lparr>app_store := fst (sqlite_set_state demo_db 1 Downloaded)\<rparr>" demo_lib
        "demo_authenticate 1"]
  by (simp add: store_effects demo_db_orders update_order_def offered_def demo_order_def)


lemma demo_delivery:
  "get_bound_profile_package sqlite_store demo_lib (demo_env b) (bound_server b) (demo_get_package b) =
    (Ret (ok_json (BoundPackageBody
       \<lparr> gbr_header = header_success, gbr_transaction_id = demo_tid b,
         gbr_bound_profile_package = [1, 2, 3, b] \<rparr>)),
     (with_sessions (remove_session (demo_tid b) (sessions_of (bound_server b))) (bound_server b))
       \<lparr>app_store := fst (sqlite_set_state bound_db 1 Downloaded)\<rparr>)"
  using demo_package_step [of sqlite_store "bound_server b" 1 "[1, 2, 3]" b] demo_find_upp by simp


theorem delivery_ends_the_session_witness:
  "\<exists>resp st'. get_bound_profile_package sqlite_store demo_lib (demo_env 1) (bound_server 1)
      (demo_get_package 1) = (Ret resp, st')
    \<and> get_bound_profile_package sqlite_store demo_lib (demo_env 2) st' (demo_get_package 1)
      = (Ret (failed TRANSACTION_ID UNKNOWN ''no session with this transactionId''), st')"
  using delivery_ends_the_session [OF demo_delivery [of 1], where env' = "demo_env 2"
      and req' = "demo_get_package 1" and L' = demo_lib] demo_delivery [of 1]
  by (simp add: demo_env_def)

theorem requests_never_panic_witness:
  "fst (serve_post sqlite_store demo_lib hex_engine (demo_env 1) demo_server
      ''/gsma/rsp2/es9plus/initiateAuthentication'' [(''euiccChallenge'', JStr ''xyz'')]) \<noteq> Panic"
  using requests_never_panic [of demo_lib demo_server "demo_env 1"] by (simp add: demo_env_def)

lemma overrun_poisons:
  "\<exists>st'. authenticate_client sqlite_store overrunning_lib (opened_server 1) (demo_authenticate 1)
     = (Panic, st') \<and> poisoned (app_sessions st')"
proof -
  have call: "dp_authenticate_client overrunning_lib s resp md
      = (\<lparr> dp_raw = Suc (dp_raw s) \<rparr>, Inr (from_raw md (length md)))" for s resp md
    by (cases s) (simp add: dp_authenticate_client_def overrunning_lib_def demo_lib_def)
  have "eid overrunning_lib s = Panic" for s
    by (simp add: eid_def overrunning_lib_def)
  then show ?thesis
    by (simp add: authenticate_client_def authenticate_order_def Let_def working_simps call)
qed

theorem poison_is_permanent_witness:
  "\<exists>st. authenticate_client sqlite_store overrunning_lib (opened_server 1) (demo_authenticate 1)
       = (Panic, st)
     \<and> (case handle sqlite_store demo_lib (demo_env 1) st (InitiateRequest demo_initiate) of
          (out, st') \<Rightarrow> poisoned (app_sessions st'))"
proof -
  obtain st where st: "authenticate_client sqlite_store overrunning_lib (opened_server 1)
      (demo_authenticate 1) = (Panic, st)" and poisoned: "poisoned (app_sessions st)"
    using overrun_poisons by blast
  from poison_is_permanent [OF this(2), of sqlite_store demo_lib "demo_env 1"
      "InitiateRequest demo_initiate"] st show ?thesis
    by (auto split: prod.splits)
qed

text \<open>A notification under the certificate the order is bound to, and its metadata.\<close>

definition demo_result :: "bool \<Rightarrow> notification" where
  "demo_result installed =
     \<lparr> is_installation_result = True, nt_seq_number = 7, nt_operation = 0x80,
       nt_iccid = Some demo_iccid, nt_installed = installed \<rparr>"

lemma demo_notification_calls:
  "notification_metadata demo_lib [0xbf, 1] = Inr (demo_result False)"
  "verify_notification demo_lib (Some demo_cert) [0xbf, 1] = Inr (demo_result True)"
  "verify_notification demo_lib None raw = Inl (Refused ''HandleNotification'')"
  "notification_metadata demo_lib [0x30, 0] = Inl (Refused ''notification metadata'')"
  by (simp_all add: notification_metadata_def verify_notification_def demo_lib_def
      demo_notification_def demo_result_def from_code_def)

lemma demo_named_order:
  "named_order demo_lib [0xbf, 1] (db_orders bound_db)
     = Some (bound_to (Some ''8904'') (Some demo_cert) demo_order)"
  by (simp add: named_order_def demo_notification_calls demo_result_def bound_db_orders
      demo_order_def)

text \<open>A library that refuses every eUICC.\<close>

definition refusing_lib :: "nat rsp_lib" where
  "refusing_lib = demo_lib\<lparr>c_authenticate_client := \<lambda>s resp md. (s, -1, [], 0)\<rparr>"

theorem refusals_keep_their_reason_witness:
  "fst (authenticate_client sqlite_store refusing_lib (opened_server 1) (demo_authenticate 1))
     = Ret (failed TRANSACTION_ID REFUSED ''AuthenticateClient: refused'')"
  using refusals_keep_their_reason [of "opened_server 1" demo_order "demo_authenticate 1"
      "\<lparr> session = \<lparr> dp_raw = 0 \<rparr>, entry_order_id = None, born = 0 \<rparr>" refusing_lib 0 "-1" "[]" 0]
  by (simp add: refusing_lib_def display_rsp_error_def from_code_def)

theorem readable_notifications_are_kept_witness:
  "case handle_notification sqlite_store demo_lib (bound_server 1) (demo_notify 1) of
     (out, st') \<Rightarrow> out = Ret no_content
       \<and> map sn_raw (db_notifications (app_store st')) = [[0xbf, 1]]
       \<and> map sn_verified (db_notifications (app_store st')) = [True]"
proof -
  obtain out st' where run: "handle_notification sqlite_store demo_lib (bound_server 1) (demo_notify 1)
      = (out, st')" by force
  show ?thesis
    using readable_notifications_are_kept [OF _ refl _ refl run] run
    by (auto simp: demo_notify_def demo_notification_calls demo_named_order)
qed

theorem only_verified_results_move_orders_witness:
  "map ord_state (db_orders (app_store
     (snd (handle_notification sqlite_store demo_lib (bound_server 1) (demo_notify 1))))) = [Downloaded]"
  using only_verified_results_move_orders [of "bound_server 1" "[0xbf, 1]" "demo_notify 1" _ demo_lib]
  by (simp add: demo_notify_def demo_notification_calls demo_named_order demo_result_def)
    (simp add: bound_db_orders update_order_def)

theorem unreadable_notifications_are_dropped_witness:
  "handle_notification sqlite_store demo_lib (bound_server 1)
     \<lparr> hrq_pending_notification = [0x30, 0] \<rparr> = (Ret no_content, bound_server 1)"
  by (rule unreadable_notifications_are_dropped) (simp_all add: demo_notification_calls)

text \<open>Two orders for one ICCID.\<close>

definition twin_db :: conn where
  "twin_db = fst (sqlite_add_order demo_db
     \<lparr> no_matching_id = ''MATCH-2'', no_iccid = demo_iccid, no_upp = [4], no_metadata = [5] \<rparr>)"

definition twin_order :: order_t where
  "twin_order = new_order_at 2
     \<lparr> no_matching_id = ''MATCH-2'', no_iccid = demo_iccid, no_upp = [4], no_metadata = [5] \<rparr>"

lemma twin_db_facts: "working twin_db" "db_orders twin_db = [demo_order, twin_order]"
proof -
  let ?n = "\<lparr> no_matching_id = ''MATCH-2'', no_iccid = demo_iccid, no_upp = [4], no_metadata = [5] \<rparr>"
  have "fresh_id (map ord_id (db_orders demo_db)) = 2"
    by (simp add: fresh_id_def)
  then have add: "sqlite_add_order demo_db ?n = (twin_db, Inr twin_order)"
    and same: "faults twin_db = faults demo_db"
    by (simp_all add: twin_db_def twin_order_def sqlite_add_order_eq Let_def)
  have "length (no_iccid ?n) = 10"
    by (simp add: demo_iccid_def)
  from sqlite_add_order_effect [OF demo_db_inv this add] same
  show "working twin_db" and "db_orders twin_db = [demo_order, twin_order]"
    by (simp_all add: working_def demo_db_orders)
qed

theorem shadowed_order_is_never_notified_witness:
  "case handle_notification sqlite_store demo_lib
      (demo_server\<lparr>app_store := twin_db\<rparr>) (demo_notify 1) of
     (out, st') \<Rightarrow> twin_order \<in> set (db_orders (app_store st'))
       \<and> handle_notification sqlite_store demo_lib
           (demo_server\<lparr>app_store := with_certificate 2 (Some demo_cert) twin_db\<rparr>) (demo_notify 1)
         = (out, st'\<lparr>app_store := with_certificate 2 (Some demo_cert) (app_store st')\<rparr>)"
proof (cases "handle_notification sqlite_store demo_lib
    (demo_server\<lparr>app_store := twin_db\<rparr>) (demo_notify 1)")
  case (Pair out st')
  have twins: "ord_iccid demo_order = ord_iccid twin_order" "ord_id demo_order = 1"
      "ord_id twin_order = 2"
    by (simp_all add: twin_order_def demo_order_def new_order_at_def)
  show ?thesis
    using shadowed_order_is_never_notified [OF _ _ _ _ Pair, of twin_order demo_order] Pair
    using twin_db_facts(1) by (simp add: twin_db_facts twins working_def)
qed

end
