(* ===== verification/Runs.thy ===== *)
theory Runs
  imports System Downloads
begin

text \<open>
  Properties of whole runs of the program: the server answering requests while the command line
  works on the same database, the database failing now and then, and restarts of the server.
\<close>

section \<open>The invariant holds in every reachable state\<close>

lemma sys_init_inv:
  assumes "sys_init st"
  shows "sys_inv L st"
proof -
  obtain f addr db where db: "sqlite_open (empty_conn f) = (db, Inr ())"
    and st: "st = router_state db (server_config_new addr)"
    using assms by (auto simp: sys_init_def)
  show ?thesis
    using open_fresh(1) [OF db]
    by (simp add: st sys_inv_def router_state_def server_config_new_def sessions_ok_def
        sessions_of_def sess_tab.get_empty)
qed

interpretation server_system: invariant_system sys_init "sys_step L" "sys_inv L" for L
  by unfold_locales (blast intro: sys_init_inv sys_step_keeps_inv)+

section \<open>How the database evolves\<close>

text \<open>What one event may do to the orders.\<close>

fun orders_step :: "event \<Rightarrow> order_t list \<Rightarrow> order_t list \<Rightarrow> bool" where
  "orders_step (Http env r out) xs ys = one_order_step (cause_of r) xs ys"
| "orders_step (Command fs rg cmd res) xs ys =
     (one_order_step ByReset xs ys
      \<or> (\<exists>x. ys = xs @ [x] \<and> ord_state x = Available \<and> ord_id x \<notin> set (map ord_id xs)))"
| "orders_step (Weather f) xs ys = (ys = xs)"
| "orders_step Restart xs ys = (ys = xs)"

lemma sys_step_store:
  assumes inv: "db_inv (app_store st)" and step: "sys_step L st ev st'"
  shows "orders_step ev (db_orders (app_store st)) (db_orders (app_store st'))
    \<and> (\<exists>new. db_notifications (app_store st') = db_notifications (app_store st) @ new)
    \<and> db_inv (app_store st')"
  using step
proof cases
  case (http env r out)
  with sqlite.handle_step [OF inv http(2)] show ?thesis by simp
next
  case (command fs rg cmd db' res)
  with run_order_effect [OF inv command(3)] show ?thesis by auto
next
  case (weather f)
  with inv show ?thesis by simp
next
  case (restart db')
  then have "db' = app_store st"
    using sqlite_open_current [OF inv] by simp
  with restart inv show ?thesis by (simp add: router_state_def)
qed

lemma one_order_step_same:
  assumes "one_order_step c xs ys"
  shows "list_all2 same_order xs ys"
proof -
  obtain i where "list_all2 (\<lambda>x y. y = x \<or> ord_id x = i \<and> order_step c x y) xs ys"
    using assms by (auto simp: one_order_step_def)
  then show ?thesis
    by (rule list_all2_mono) (auto simp: order_step_def same_order_def)
qed

text \<open>Orders are only added at the end and never change what they are an order for.\<close>

definition orders_extend :: "order_t list \<Rightarrow> order_t list \<Rightarrow> bool" where
  "orders_extend xs ys \<longleftrightarrow> list_all2 same_order xs (take (length xs) ys)"

lemma same_order_refl [simp]: "same_order x x"
  by (simp add: same_order_def)

lemma list_all2_same_refl [simp]: "list_all2 same_order xs xs"
  by (auto intro: list_all2_refl)

lemma orders_extend_refl [simp]: "orders_extend xs xs"
  by (simp add: orders_extend_def)

lemma orders_extend_trans:
  assumes "orders_extend xs ys" and "orders_extend ys zs"
  shows "orders_extend xs zs"
proof -
  have len: "length (take (length xs) ys) = length xs"
    using assms(1) by (auto simp: orders_extend_def dest: list_all2_lengthD)
  then have "length xs \<le> length ys"
    by simp
  then have "list_all2 same_order (take (length xs) ys) (take (length xs) zs)"
    using list_all2_takeI [OF assms(2) [unfolded orders_extend_def], of "length xs"]
    by (simp add: min_def)
  with assms(1) show ?thesis
    unfolding orders_extend_def
    by (rule list_all2_trans [rotated]) (auto simp: same_order_def)
qed

lemma orders_step_extend:
  assumes "orders_step ev xs ys"
  shows "orders_extend xs ys"
proof -
  have "orders_extend xs ys" if "one_order_step c xs ys" for c
    using one_order_step_same [OF that] list_all2_lengthD [OF one_order_step_same [OF that]]
    by (simp add: orders_extend_def)
  with assms show ?thesis
    by (cases ev) (auto simp: orders_extend_def)
qed

lemma sys_run_store:
  assumes "sys_run L st evs st'" and "db_inv (app_store st)"
  shows "db_inv (app_store st')
    \<and> orders_extend (db_orders (app_store st)) (db_orders (app_store st'))
    \<and> (\<exists>new. db_notifications (app_store st') = db_notifications (app_store st) @ new)"
  using assms
proof (induction rule: run_of.induct)
  case (run_snoc st evs st' ev st'')
  then show ?case
    using sys_step_store [OF _ run_snoc.hyps(2)] orders_step_extend orders_extend_trans
    by (metis append.assoc)
qed simp

section \<open>What a session has been through\<close>

text \<open>The subject code of a Failed answer.\<close>

definition failure_subject :: "response \<Rightarrow> string option" where
  "failure_subject resp =
     (case resp_body resp of
        FailureBody f \<Rightarrow>
          map_option subject_code
            (fes_status_code_data (function_execution_status (fr_header f)))
      | _ \<Rightarrow> None)"

text \<open>An InitiateAuthentication that handed out the transactionId \<open>k\<close>.\<close>

fun opens :: "bytes \<Rightarrow> event \<Rightarrow> bool" where
  "opens k (Http env (InitiateRequest q) (Ret resp)) =
     (case resp_body resp of InitiateBody b \<Rightarrow> iar_transaction_id b = k | _ \<Rightarrow> False)"
| "opens k _ = False"

text \<open>
  An AuthenticateClient for \<open>k\<close> that got as far as the library's acceptance: it was not refused
  for want of an order, a session, or by the library itself.
\<close>

fun accepts :: "bytes \<Rightarrow> event \<Rightarrow> bool" where
  "accepts k (Http env (AuthenticateRequest q) (Ret resp)) =
     (arq_transaction_id q = k
      \<and> failure_subject resp \<notin> {Some PROFILE, Some TRANSACTION_ID})"
| "accepts k _ = False"

fun is_restart :: "event \<Rightarrow> bool" where
  "is_restart Restart = True"
| "is_restart _ = False"

text \<open>The events since the server was last started, and an acceptance after an opening in them.\<close>

definition since_restart :: "event list \<Rightarrow> event list" where
  "since_restart evs = rev (takeWhile (\<lambda>ev. \<not> is_restart ev) (rev evs))"

definition authenticated :: "bytes \<Rightarrow> event list \<Rightarrow> bool" where
  "authenticated k evs = list_ex (accepts k) (dropWhile (\<lambda>ev. \<not> opens k ev) evs)"

lemma since_restart_snoc [simp]:
  "since_restart (evs @ [ev]) = (if is_restart ev then [] else since_restart evs @ [ev])"
  by (simp add: since_restart_def)

lemma authenticated_snoc: "authenticated k evs \<Longrightarrow> authenticated k (evs @ [ev])"
  by (induction evs) (auto simp: authenticated_def)

lemma authenticated_accept:
  "list_ex (opens k) evs \<Longrightarrow> accepts k ev \<Longrightarrow> authenticated k (evs @ [ev])"
  by (induction evs) (auto simp: authenticated_def)

lemma subject_simps [simp]:
  "failure_subject (failed s r m) = Some s"
  "failure_subject (from_rsp_error e s) = Some s"
proof -
  show fail: "failure_subject (failed s r m) = Some s" for s r m
    by (simp add: failure_subject_def header_failed_def)
  show "failure_subject (from_rsp_error e s) = Some s"
    using from_rsp_error_failed [of e s] fail by metis
qed

lemma codes_differ [simp]: "EXECUTION \<noteq> PROFILE" "EXECUTION \<noteq> TRANSACTION_ID"
  by (simp_all add: EXECUTION_def PROFILE_def TRANSACTION_ID_def)

lemma success_subject [simp]: "failure_subject (ok_json (AuthenticateBody b)) = None"
  by (simp add: failure_subject_def)

lemma initiate_session:
  assumes "initiate_authentication L env st q = (out, st')"
    and "get_session k (sessions_of st') = Some e"
  shows "get_session k (sessions_of st) = Some e
    \<or> entry_order_id e = None \<and> opens k (Http env (InitiateRequest q) out)"
  using assms(1)
proof (cases rule: initiate_authentication_cases)
  case failed
  with assms(2) show ?thesis by simp
next
  case success
  with assms(2) show ?thesis
    by (auto simp: sess_tab.get_ins split: if_splits option.splits)
qed

lemma authenticate_session:
  assumes "authenticate_client S L st q = (out, st')"
    and "get_session k (sessions_of st') = Some e"
  shows "\<exists>e0. get_session k (sessions_of st) = Some e0
    \<and> (entry_order_id e = entry_order_id e0 \<or> accepts k (Http env (AuthenticateRequest q) out))"
  using assms(1)
proof (cases rule: authenticate_client_order)
  case 1
  with assms(2) show ?thesis by simp
next
  case (2 orders ord)
  with assms(2) show ?thesis
    by (auto simp: authenticate_order_def Let_def sess_tab.get_put
        split: if_splits option.splits prod.splits sum.splits outcome.splits)
qed

text \<open>Every session was opened since the restart; a bound one was accepted after that.\<close>

definition trace_ok :: "event list \<Rightarrow> 's server \<Rightarrow> bool" where
  "trace_ok evs st \<longleftrightarrow>
     (\<forall>k e. get_session k (sessions_of st) = Some e \<longrightarrow>
        list_ex (opens k) (since_restart evs)
        \<and> (entry_order_id e = None \<or> authenticated k (since_restart evs)))"

lemma trace_ok_http:
  assumes ok: "trace_ok evs st" and run: "handle S L env st r = (out, st')"
  shows "trace_ok (evs @ [Http env r out]) st'"
  unfolding trace_ok_def
proof (intro allI impI)
  fix k e assume e: "get_session k (sessions_of st') = Some e"
  let ?since = "since_restart evs" and ?ev = "Http env r out"
  have old: "list_ex (opens k) (?since @ [?ev])
      \<and> (entry_order_id e = None \<or> authenticated k (?since @ [?ev]))"
    if "get_session k (sessions_of st) = Some e0"
      and "entry_order_id e = entry_order_id e0 \<or> accepts k ?ev" for e0
    using ok that authenticated_snoc authenticated_accept
    unfolding trace_ok_def by (metis list_ex_append)
  show "list_ex (opens k) (since_restart (evs @ [?ev]))
      \<and> (entry_order_id e = None \<or> authenticated k (since_restart (evs @ [?ev])))"
  proof (cases r)
    case (InitiateRequest q)
    with run have "initiate_authentication L env st q = (out, st')" by simp
    from initiate_session [OF this e] old InitiateRequest show ?thesis by auto
  next
    case (AuthenticateRequest q)
    with run have "authenticate_client S L st q = (out, st')" by simp
    from authenticate_session [OF this e, of env] old AuthenticateRequest show ?thesis by auto
  next
    case (BoundPackageRequest q)
    with run have "get_bound_profile_package S L env st q = (out, st')" by simp
    from get_bound_profile_package_sessions(1) [OF this e] old BoundPackageRequest
    show ?thesis by auto
  next
    case (NotificationRequest q)
    with run have "app_sessions st' = app_sessions st"
      using handle_notification_sessions [of S L st q out st'] by simp
    with e old NotificationRequest show ?thesis by (simp add: sessions_of_def)
  qed
qed

lemma trace_ok_step:
  assumes "trace_ok evs st" and "sys_step L st ev st'"
  shows "trace_ok (evs @ [ev]) st'"
  using assms(2)
proof cases
  case (http env r out)
  with trace_ok_http [OF assms(1)] show ?thesis by blast
next
  case (restart db')
  then show ?thesis
    by (simp add: trace_ok_def router_state_def sessions_of_def sess_tab.get_empty)
qed (use assms(1) in \<open>auto simp: trace_ok_def intro: authenticated_snoc\<close>)

lemma trace_ok_run:
  "sys_run L st0 evs st \<Longrightarrow> sys_init st0 \<Longrightarrow> trace_ok evs st"
proof (induction rule: run_of.induct)
  case (run_nil st)
  then show ?case
    by (auto simp: sys_init_def trace_ok_def router_state_def sessions_of_def sess_tab.get_empty)
qed (blast intro: trace_ok_step)

section \<open>Requests one after another\<close>

fun http_run ::
  "'st store_ops \<Rightarrow> 's rsp_lib \<Rightarrow> ('st, 's) app_state \<Rightarrow> (env \<times> request) list \<Rightarrow>
     response outcome list \<times> ('st, 's) app_state"
where
  "http_run S L st [] = ([], st)"
| "http_run S L st ((env, r) # rest) =
     (let (out, st1) = handle S L env st r;
          (outs, st2) = http_run S L st1 rest in (out # outs, st2))"

lemma find_update_order:
  assumes "distinct (map ord_id os)" and "x \<in> set os" and "\<And>y. ord_id (f y) = ord_id y"
  shows "find (\<lambda>y. ord_id y = ord_id x) (update_order (ord_id x) f os) = Some (f x)"
proof -
  have "f x \<in> set (update_order (ord_id x) f os)"
    using assms(2) by (force simp: update_order_def)
  moreover have "distinct (map ord_id (update_order (ord_id x) f os))"
    using assms(1,3) by simp
  ultimately show ?thesis
    using find_map_distinct_key [of ord_id "update_order (ord_id x) f os" "f x"] assms(3) by simp
qed

lemma bound_to_frame [simp]:
  "ord_id (bound_to e c x) = ord_id x" "ord_upp (bound_to e c x) = ord_upp x"
  by (cases "(e, c, x)" rule: bound_to.cases; simp)+

lemma working_distinct: "working c \<Longrightarrow> distinct (map ord_id (db_orders c))"
  using sqlite.ids_distinct by (simp add: working_simps del: ids_db_orders)

section \<open>A fresh server, one order, and requests to it\<close>

definition fresh_db :: conn where
  "fresh_db =
     \<lparr> user_version = 2, orders_tab = Some [],
       notifications_tab = Some \<lparr> has_verified = True, q_rows = [] \<rparr>, faults = (\<lambda>_. None) \<rparr>"

definition fresh_server :: "(conn, nat) app_state" where
  "fresh_server = router_state fresh_db demo_config"

definition demo_files :: files where
  "demo_files p =
     (if p = ''upp.der'' then Some [1, 2, 3] else if p = ''meta.der'' then Some [0xbf, 0x25] else None)"

definition demo_command :: order_command where
  "demo_command = Add
     \<lparr> oa_upp = ''upp.der'', oa_metadata = ''meta.der'', oa_iccid = Some (cli_hex demo_iccid),
       oa_matching_id = Some ''MATCH-1'', oa_host = None \<rparr>"

lemma fresh_server_init: "sys_init fresh_server"
proof -
  have "sqlite_open (empty_conn (\<lambda>_. None)) = (fresh_db, Inr ())"
    by (simp add: open_defs empty_conn_def fresh_db_def SCHEMA_VERSION_def)
  then show ?thesis
    unfolding sys_init_def fresh_server_def demo_config_def by blast
qed

lemma fresh_db_working: "working fresh_db"
  by (simp add: working_def fresh_db_def db_inv_def db_rows_def db_qrows_def SCHEMA_VERSION_def)

lemma fresh_db_orders: "db_orders fresh_db = []" "db_rows fresh_db = []"
  by (simp_all add: db_orders_def db_rows_def fresh_db_def)

definition demo_printed :: "string list" where
  "demo_printed = order_add_lines demo_order None"

lemma demo_command_run:
  "run_order demo_files demo_rng fresh_db demo_command = (demo_db, Ret (Inr demo_printed))"
proof -
  have iccid: "parse_iccid (cli_hex demo_iccid) = Ret (Inr demo_iccid)"
    using parse_iccid_digits [OF cli_hex_digits, of demo_iccid]
    by (simp add: hex_value_cli_hex demo_iccid_def)
  have db: "db_inv fresh_db" "faults fresh_db = (\<lambda>_. None)"
    using fresh_db_working by (simp_all add: working_def)
  have "new_order_at 1 \<lparr> no_matching_id = ''MATCH-1'', no_iccid = demo_iccid, no_upp = [1, 2, 3],
      no_metadata = [0xbf, 0x25] \<rparr> = demo_order"
    by (simp add: new_order_at_def demo_order_def)
  moreover have "fresh_db\<lparr>orders_tab := Some [order_row_of 1
      \<lparr> no_matching_id = ''MATCH-1'', no_iccid = demo_iccid, no_upp = [1, 2, 3],
        no_metadata = [0xbf, 0x25] \<rparr>]\<rparr> = demo_db"
    by (simp add: fresh_db_def demo_db_def order_row_of_def demo_iccid_def)
  ultimately show ?thesis
    using create_order_ok [OF db, where mid = "Some ''MATCH-1''" and r = demo_rng
        and m = "''MATCH-1''" and iccid = demo_iccid and upp = "[1, 2, 3]"
        and metadata = "[0xbf, 0x25]"]
    by (simp add: run_order_def demo_command_def run_order_add_def demo_files_def chosen_iccid_def
        iccid open_current_no_faults [OF db] fresh_db_orders fresh_id_def demo_printed_def)
qed

lemma demo_reachable:
  "sys_run demo_lib fresh_server
     [Command demo_files demo_rng demo_command (Ret (Inr demo_printed))] demo_server"
proof -
  have "run_order demo_files demo_rng (app_store fresh_server) demo_command
      = (demo_db, Ret (Inr demo_printed))"
    by (simp add: fresh_server_def router_state_def demo_command_run)
  then have "sys_step demo_lib fresh_server
      (Command demo_files demo_rng demo_command (Ret (Inr demo_printed)))
      (fresh_server\<lparr>app_store := demo_db\<rparr>)"
    by (rule sys_step.command)
  moreover have "fresh_server\<lparr>app_store := demo_db\<rparr> = demo_server"
    by (simp add: fresh_server_def demo_server_def router_state_def)
  ultimately show ?thesis
    using run_of.run_snoc [OF run_of.run_nil, of "sys_step demo_lib" fresh_server] by simp
qed

text \<open>Requests as events of a run.\<close>

definition http_events :: "(env \<times> request) list \<Rightarrow> response outcome list \<Rightarrow> event list" where
  "http_events rs outs = map2 (\<lambda>(env, r) out. Http env r out) rs outs"

lemma http_run_events:
  "http_run sqlite_store L st rs = (outs, st') \<Longrightarrow> sys_run L st0 evs st \<Longrightarrow>
     sys_run L st0 (evs @ http_events rs outs) st'"
proof (induction rs arbitrary: st outs evs)
  case (Cons a rs)
  obtain env r where a: "a = (env, r)" by force
  obtain out st1 where one: "handle sqlite_store L env st r = (out, st1)" by force
  obtain outs' where rest: "http_run sqlite_store L st1 rs = (outs', st')"
    and outs: "outs = out # outs'"
    using Cons.prems(1) by (auto simp: a one split: prod.splits)
  have "sys_run L st0 (evs @ [Http env r out]) st1"
    using Cons.prems(2) sys_step.http [OF one] by (rule run_of.run_snoc)
  from Cons.IH [OF rest this] show ?case
    by (simp add: http_events_def a outs)
qed (simp add: http_events_def)

text \<open>The demo library's package for a session, as it is answered.\<close>

definition demo_package :: "byte \<Rightarrow> response" where
  "demo_package b = ok_json (BoundPackageBody
     \<lparr> gbr_header = header_success, gbr_transaction_id = demo_tid b,
       gbr_bound_profile_package = [1, 2, 3, b] \<rparr>)"

lemma demo_tids_differ [simp]: "demo_tid 1 \<noteq> demo_tid 2" "demo_tid 2 \<noteq> demo_tid 1"
  by (simp_all add: demo_tid_def)

lemma MAX_AGE_positive [simp]: "0 < MAX_AGE"
  by (simp add: MAX_AGE_def)

lemma find_upp_working:
  "working c \<Longrightarrow> find_upp sqlite_store c (Some i) =
     map_option ord_upp (find (\<lambda>x. ord_id x = i) (db_orders c))"
  by (simp add: find_upp_def working_simps)

text \<open>The demo server with given sessions and a given database.\<close>

definition server_with :: "nat sessions \<Rightarrow> conn \<Rightarrow> (conn, nat) app_state" where
  "server_with t db =
     \<lparr> app_store = db, app_sessions = \<lparr> guarded = t, poisoned = False \<rparr>, app_config = demo_config \<rparr>"

lemma server_with_simps [simp]:
  "app_store (server_with t db) = db"
  "sessions_of (server_with t db) = t"
  "\<not> poisoned (app_sessions (server_with t db))"
  "cfg_nonces (app_config (server_with t db)) = os_nonces"
  "server_address (app_config (server_with t db)) = ''smdp.example.com''"
  "with_sessions t' (server_with t db) = server_with t' db"
  "(server_with t db)\<lparr>app_store := db'\<rparr> = server_with t db'"
  by (simp_all add: server_with_def sessions_of_def with_sessions_def demo_config_def
      server_config_new_def)

lemma demo_server_with: "demo_server = server_with sessions_default demo_db"
  by (simp add: server_with_def demo_server_def router_state_def)

text \<open>A session just opened, and one bound to the order.\<close>

abbreviation opened_entry :: "nat entry" where
  "opened_entry \<equiv> \<lparr> session = \<lparr> dp_raw = 0 \<rparr>, entry_order_id = None, born = 0 \<rparr>"

abbreviation bound_entry :: "nat entry" where
  "bound_entry \<equiv> \<lparr> session = \<lparr> dp_raw = Suc 0 \<rparr>, entry_order_id = Some 1, born = 0 \<rparr>"

lemma initiate_on:
  "\<exists>a. handle sqlite_store demo_lib (demo_env b) (server_with t db) (InitiateRequest demo_initiate) =
     (Ret (ok_json (InitiateBody a)),
      server_with (insert_session 0 (demo_tid b) \<lparr> dp_raw = 0 \<rparr> t) db)"
  using demo_initiate_step [of "server_with t db" sqlite_store b] by auto

lemma authenticate_on:
  assumes "working db" and "filter offered (db_orders db) = [x]" and "ord_id x = 1"
    and "get_session (demo_tid b) t = Some opened_entry"
  shows "\<exists>a. handle sqlite_store demo_lib env (server_with t db)
      (AuthenticateRequest (demo_authenticate b)) =
    (Ret (ok_json (AuthenticateBody a)),
     server_with (put_entry (demo_tid b) bound_entry t)
       (remember_euicc sqlite_store db 1 (Some ''8904'') (Some demo_cert)))"
  using demo_authenticate_step [of sqlite_store "server_with t db" "db_orders db" x b] assms
  by (simp add: working_simps)

lemma package_on:
  assumes "find_upp sqlite_store db (Some 1) = Some [1, 2, 3]"
    and "get_session (demo_tid b) t = Some bound_entry"
  shows "handle sqlite_store demo_lib (demo_env b) (server_with t db)
      (BoundPackageRequest (demo_get_package b)) =
    (Ret (demo_package b),
     server_with (remove_session (demo_tid b) t) (fst (sqlite_set_state db 1 Downloaded)))"
  using demo_package_step [of sqlite_store "server_with t db" 1 "[1, 2, 3]" b] assms
  by (simp add: demo_package_def)

text \<open>
  Two sessions are both authenticated against the one order before either delivers; the first
  delivery leaves the order Downloaded, and the second goes through all the same.
\<close>

lemma two_downloads_run:
  "\<exists>a1 a2 a3 a4 mid st. http_run sqlite_store demo_lib demo_server
     [(demo_env 1, InitiateRequest demo_initiate), (demo_env 2, InitiateRequest demo_initiate),
      (demo_env 1, AuthenticateRequest (demo_authenticate 1)),
      (demo_env 2, AuthenticateRequest (demo_authenticate 2)),
      (demo_env 1, BoundPackageRequest (demo_get_package 1))]
     = ([Ret (ok_json (InitiateBody a1)), Ret (ok_json (InitiateBody a2)),
         Ret (ok_json (AuthenticateBody a3)), Ret (ok_json (AuthenticateBody a4)),
         Ret (demo_package 1)], mid)
   \<and> db_orders (app_store mid)
       = [(bound_to (Some ''8904'') (Some demo_cert) demo_order)\<lparr>ord_state := Downloaded\<rparr>]
   \<and> handle sqlite_store demo_lib (demo_env 2) mid (BoundPackageRequest (demo_get_package 2))
       = (Ret (demo_package 2), st)"
proof -
  let ?x1 = "bound_to (Some ''8904'') (Some demo_cert) demo_order"
  define t1 where "t1 = insert_session 0 (demo_tid 1) \<lparr> dp_raw = 0 \<rparr> (sessions_default :: nat sessions)"
  define t2 where "t2 = insert_session 0 (demo_tid 2) \<lparr> dp_raw = 0 \<rparr> t1"
  define t3 where "t3 = put_entry (demo_tid 1) bound_entry t2"
  define t4 where "t4 = put_entry (demo_tid 2) bound_entry t3"
  define t5 where "t5 = remove_session (demo_tid 1) t4"
  define db2 where "db2 = remember_euicc sqlite_store bound_db 1 (Some ''8904'') (Some demo_cert)"
  define db3 where "db3 = fst (sqlite_set_state db2 1 Downloaded)"
  note defs = t1_def t2_def t3_def t4_def t5_def
  have x0: "ord_id demo_order = 1" "ord_upp demo_order = [1, 2, 3]"
    by (simp_all add: demo_order_def)
  have db2: "working db2" "db_orders db2 = [bound_to (Some ''8904'') (Some demo_cert) ?x1]"
    by (simp_all add: db2_def store_effects bound_db_orders update_order_def x0
        del: bound_to.simps)
  have db3: "working db3"
    "db_orders db3 = [(bound_to (Some ''8904'') (Some demo_cert) ?x1)\<lparr>ord_state := Downloaded\<rparr>]"
    using db2 by (simp_all add: db3_def store_effects update_order_def x0 del: bound_to.simps)
  have upp: "find_upp sqlite_store db2 (Some 1) = Some [1, 2, 3]"
    "find_upp sqlite_store db3 (Some 1) = Some [1, 2, 3]"
    using db2 db3 by (simp_all add: find_upp_working x0 del: bound_to.simps)
  have one: "\<exists>a. handle sqlite_store demo_lib (demo_env 1) demo_server (InitiateRequest demo_initiate)
      = (Ret (ok_json (InitiateBody a)), server_with t1 demo_db)"
    unfolding demo_server_with t1_def by (rule initiate_on)
  have two: "\<exists>a. handle sqlite_store demo_lib (demo_env 2) (server_with t1 demo_db)
      (InitiateRequest demo_initiate) = (Ret (ok_json (InitiateBody a)), server_with t2 demo_db)"
    unfolding t2_def by (rule initiate_on)
  have three: "\<exists>a. handle sqlite_store demo_lib (demo_env 1) (server_with t2 demo_db)
      (AuthenticateRequest (demo_authenticate 1))
      = (Ret (ok_json (AuthenticateBody a)), server_with t3 bound_db)"
    unfolding t3_def bound_db_def
    by (rule authenticate_on [where x = demo_order]) (simp_all add: defs sess_tab.get_ins x0)
  have four: "\<exists>a. handle sqlite_store demo_lib (demo_env 2) (server_with t3 bound_db)
      (AuthenticateRequest (demo_authenticate 2))
      = (Ret (ok_json (AuthenticateBody a)), server_with t4 db2)"
    unfolding t4_def db2_def
    by (rule authenticate_on [where x = ?x1])
      (simp_all add: defs sess_tab.get_ins sess_tab.get_put x0 bound_db_orders offered_def)
  have five: "handle sqlite_store demo_lib (demo_env 1) (server_with t4 db2)
      (BoundPackageRequest (demo_get_package 1)) = (Ret (demo_package 1), server_with t5 db3)"
    unfolding t5_def db3_def
    by (rule package_on [OF upp(1)]) (simp add: t3_def t4_def sess_tab.get_put)
  have six: "\<exists>st. handle sqlite_store demo_lib (demo_env 2) (server_with t5 db3)
      (BoundPackageRequest (demo_get_package 2)) = (Ret (demo_package 2), st)"
    by (rule exI, rule package_on [OF upp(2)])
      (simp add: t4_def t5_def sess_tab.get_put sess_tab.get_del)
  have "bound_to (Some ''8904'') (Some demo_cert) ?x1 = ?x1"
    by simp
  then have final: "db_orders db3 = [?x1\<lparr>ord_state := Downloaded\<rparr>]"
    using db3(2) by metis
  obtain a1 a2 a3 a4 st where
    "handle sqlite_store demo_lib (demo_env 1) demo_server (InitiateRequest demo_initiate)
       = (Ret (ok_json (InitiateBody a1)), server_with t1 demo_db)"
    "handle sqlite_store demo_lib (demo_env 2) (server_with t1 demo_db)
       (InitiateRequest demo_initiate) = (Ret (ok_json (InitiateBody a2)), server_with t2 demo_db)"
    "handle sqlite_store demo_lib (demo_env 1) (server_with t2 demo_db)
       (AuthenticateRequest (demo_authenticate 1))
       = (Ret (ok_json (AuthenticateBody a3)), server_with t3 bound_db)"
    "handle sqlite_store demo_lib (demo_env 2) (server_with t3 bound_db)
       (AuthenticateRequest (demo_authenticate 2))
       = (Ret (ok_json (AuthenticateBody a4)), server_with t4 db2)"
    "handle sqlite_store demo_lib (demo_env 2) (server_with t5 db3)
       (BoundPackageRequest (demo_get_package 2)) = (Ret (demo_package 2), st)"
    using one two three four six by blast
  with five final show ?thesis
    by (intro exI [of _ a1] exI [of _ a2] exI [of _ a3] exI [of _ a4]
        exI [of _ "server_with t5 db3"] exI [of _ st])
      (simp del: handle.simps bound_to.simps)
qed

section \<open>Properties\<close>

text \<open>
  What holds in every state the program can reach from a database it created itself: the
  database is one this version can work with (unique MatchingIDs, readable rows, current schema),
  sessions have 16-byte transactionIds and refer only to orders that exist, and the lock is not
  poisoned if the library keeps to the EID buffer. No sequence of requests, commands, database
  failures and restarts breaks any of it.
\<close>

theorem reachable_states_are_sound:
  assumes "sys_init st0" and "sys_run L st0 evs st"
  shows "db_inv (app_store st) \<and> sessions_ok (order_ids st) (sessions_of st)
    \<and> (eid_in_bounds L \<longrightarrow> \<not> poisoned (app_sessions st))"
  using server_system.reachable_inv [OF assms(2,1)] by (simp add: sys_inv_def)

text \<open>
  Nothing that was stored is ever lost or rewritten. Along any run the orders present at the
  start stay where they are with the same identity, MatchingID, ICCID, UPP and metadata, new
  orders come after them, and the notifications present at the start are an unchanged prefix of
  those at the end.
\<close>

theorem stored_data_survives_every_run:
  assumes "sys_run L st evs st'" and "db_inv (app_store st)"
  shows "orders_extend (db_orders (app_store st)) (db_orders (app_store st'))
    \<and> (\<exists>new. db_notifications (app_store st') = db_notifications (app_store st) @ new)"
  using sys_run_store [OF assms] by blast

text \<open>
  The life cycle of an order. In every reachable state each event changes at most one order,
  and only as its kind allows: InitiateAuthentication none at all, AuthenticateClient moves an Available or Bound order to Bound and
  is the only one to record an eUICC, GetBoundProfilePackage moves to Downloaded, HandleNotification
  to Downloaded or Failed, a reset to Available; adding an order appends an Available one with a
  new id; failures of the database and restarts change no order.
\<close>

theorem orders_follow_their_life_cycle:
  assumes "sys_init st0" and "sys_run L st0 evs st" and "sys_step L st ev st'"
  shows "orders_step ev (db_orders (app_store st)) (db_orders (app_store st'))"
  using server_system.reachable_inv [OF assms(2,1)] sys_step_store [OF _ assms(3)]
  by (simp add: sys_inv_def)

text \<open>
  C1: no Profile package without authentication. In any run from a freshly created server, a
  delivered package is preceded, since the server was last started, by an InitiateAuthentication
  that handed out its transactionId and, after that, an AuthenticateClient under the same
  transactionId that the library accepted.
\<close>

theorem no_package_without_authentication:
  assumes "sys_init st0" and "sys_run L st0 evs st"
    and "sys_step L st (Http env (BoundPackageRequest q) (Ret resp)) st'"
    and "resp_body resp = BoundPackageBody b"
  shows "authenticated (grq_transaction_id q) (since_restart evs)"
proof -
  have "get_bound_profile_package sqlite_store L env st q = (Ret resp, st')"
    using assms(3) by (simp add: sys_step_Http_iff)
  then show ?thesis
  proof (cases rule: get_bound_profile_package_cases)
    case failed
    with assms(4) show ?thesis by blast
  next
    case (success otsk_dp ent i upp sess bpp)
    have "entry_order_id ent = None \<or> authenticated (grq_transaction_id q) (since_restart evs)"
      using trace_ok_run [OF assms(2,1)] success(3) unfolding trace_ok_def by blast
    with success(4) show ?thesis by simp
  qed
qed

text \<open>
  C7: a download completes. On a working database with exactly one offered order, when the library
  accepts each step, the three requests of a download are all answered with success: the first
  hands out the drawn transactionId, the last delivers exactly the package the library made from
  that order's UPP, and afterwards that order is Downloaded and carries the eUICC the library
  reported.
\<close>

theorem download_completes:
  assumes "working (app_store st)" and "filter offered (db_orders (app_store st)) = [x]"
    and "cfg_nonces (app_config st) = os_nonces" and "\<not> poisoned (app_sessions st)"
    and "length (irq_euicc_challenge q1) = 16"
    and "nonce_transaction_id os_nonces (rng env1) = (Ret tid, r1)"
    and "nonce_server_challenge os_nonces r1 = (Ret sc, r2)"
    and "nonce_otsk_dp os_nonces (rng env3) = (Ret otsk, r3)"
    and "initiate L (irq_euicc_challenge q1) (irq_euicc_info1 q1) tid sc
           (server_address (app_config st)) (Some (irq_smdp_address q1)) = Inr (s0, d0)"
    and "initiate_fields L (as_slice d0) = Inr f"
    and "dp_authenticate_client L s0 (arq_authenticate_server_response q2) (ord_metadata x)
           = (s1, Inr d1)"
    and "eid L s1 = Ret er" and "authenticate_fields L (as_slice d1) = Inr g"
    and "dp_get_bound_profile_package L s1 (grq_prepare_download_response q3) (ord_upp x) otsk
           = (s2, Inr bpp)"
    and "arq_transaction_id q2 = tid" and "grq_transaction_id q3 = tid"
  shows "case http_run sqlite_store L st
      [(env1, InitiateRequest q1), (env2, AuthenticateRequest q2), (env3, BoundPackageRequest q3)] of
      (outs, st') \<Rightarrow>
        (\<exists>b1 b2. outs =
           [Ret (ok_json (InitiateBody b1)), Ret (ok_json (AuthenticateBody b2)),
            Ret (ok_json (BoundPackageBody
              \<lparr> gbr_header = header_success, gbr_transaction_id = tid,
                gbr_bound_profile_package = as_slice bpp \<rparr>))]
           \<and> iar_transaction_id b1 = tid)
        \<and> db_orders (app_store st') = update_order (ord_id x)
            (\<lambda>y. (bound_to (ok er) (ok (euicc_cert L s1)) y)\<lparr>ord_state := Downloaded\<rparr>)
            (db_orders (app_store st))
        \<and> working (app_store st')"
proof -
  let ?db1 = "remember_euicc sqlite_store (app_store st) (ord_id x) (ok er) (ok (euicc_cert L s1))"
  note remembered = remember_euicc_ok [OF assms(1), of "ord_id x" "ok er" "ok (euicc_cert L s1)"]
  have x: "x \<in> set (db_orders (app_store st))"
    using arg_cong [OF assms(2), of set] by auto
  have found: "find (\<lambda>y. ord_id y = ord_id x) (db_orders ?db1)
      = Some (bound_to (ok er) (ok (euicc_cert L s1)) x)"
    unfolding remembered(2)
    by (rule find_update_order [OF working_distinct [OF assms(1)] x]) simp
  have listed: "sqlite_list_orders ?db1 = Inr (db_orders ?db1)"
    using remembered(1) by (rule working_simps)
  note final = set_state_ok [OF remembered(1), of "ord_id x" Downloaded]
  obtain b1 st1 where one: "handle sqlite_store L env1 st (InitiateRequest q1)
      = (Ret (ok_json (InitiateBody b1)), st1)"
    and b1: "iar_transaction_id b1 = tid"
    and st1: "st1 = with_sessions (insert_session (now env1) tid s0 (sessions_of st)) st"
    using assms by (auto simp: initiate_authentication_def)
  obtain b2 st2 ent where two: "handle sqlite_store L env2 st1 (AuthenticateRequest q2)
      = (Ret (ok_json (AuthenticateBody b2)), st2)"
    and st2: "get_session tid (sessions_of st2) = Some ent" "session ent = s1"
      "entry_order_id ent = Some (ord_id x)" "app_store st2 = ?db1"
      "app_config st2 = app_config st" "\<not> poisoned (app_sessions st2)"
    using assms
    by (auto simp: authenticate_client_def authenticate_order_def Let_def st1 working_simps
        sess_tab.get_ins sess_tab.get_put)
  have three: "handle sqlite_store L env3 st2 (BoundPackageRequest q3)
      = (Ret (ok_json (BoundPackageBody
           \<lparr> gbr_header = header_success, gbr_transaction_id = tid,
             gbr_bound_profile_package = as_slice bpp \<rparr>)),
         (with_sessions (remove_session tid (sessions_of st2)) st2)
           \<lparr>app_store := fst (sqlite_set_state ?db1 (ord_id x) Downloaded)\<rparr>)"
    using assms st2 found listed
    by (simp add: get_bound_profile_package_def Let_def find_upp_def)
  have "update_order (ord_id x) (\<lambda>x. x\<lparr>ord_state := Downloaded\<rparr>) (db_orders ?db1)
      = update_order (ord_id x)
          (\<lambda>y. (bound_to (ok er) (ok (euicc_cert L s1)) y)\<lparr>ord_state := Downloaded\<rparr>)
          (db_orders (app_store st))"
    unfolding remembered(2) by (rule update_order_update_order) simp
  with final one two three b1 show ?thesis
    by simp
qed

text \<open>
  C23: one order can be delivered twice. There is a run from a freshly created server in which one
  order is added, two InitiateAuthentications are answered, AuthenticateClient is answered with
  success under both transactionIds, and the first session is handed its package. The state
  this run reaches holds that order alone, in the state Downloaded; and there the request of the
  second session is still answered with a package made from the same UPP. GetBoundProfilePackage
  looks only at which order its session is bound to, never at the state of that order.
\<close>

theorem one_order_delivered_twice:
  "\<exists>st0 mid st a1 a2 a3 a4 x.
     sys_init st0
     \<and> sys_run demo_lib st0
         [Command demo_files demo_rng demo_command (Ret (Inr demo_printed)),
          Http (demo_env 1) (InitiateRequest demo_initiate) (Ret (ok_json (InitiateBody a1))),
          Http (demo_env 2) (InitiateRequest demo_initiate) (Ret (ok_json (InitiateBody a2))),
          Http (demo_env 1) (AuthenticateRequest (demo_authenticate 1))
            (Ret (ok_json (AuthenticateBody a3))),
          Http (demo_env 2) (AuthenticateRequest (demo_authenticate 2))
            (Ret (ok_json (AuthenticateBody a4))),
          Http (demo_env 1) (BoundPackageRequest (demo_get_package 1))
            (Ret (ok_json (BoundPackageBody
              \<lparr> gbr_header = header_success, gbr_transaction_id = demo_tid 1,
                gbr_bound_profile_package = ord_upp x @ [1] \<rparr>)))] mid
     \<and> db_orders (app_store mid) = [x] \<and> ord_state x = Downloaded
     \<and> demo_tid 1 \<noteq> demo_tid 2
     \<and> sys_step demo_lib mid
         (Http (demo_env 2) (BoundPackageRequest (demo_get_package 2))
            (Ret (ok_json (BoundPackageBody
              \<lparr> gbr_header = header_success, gbr_transaction_id = demo_tid 2,
                gbr_bound_profile_package = ord_upp x @ [2] \<rparr>)))) st"
proof -
  define x where "x = (bound_to (Some ''8904'') (Some demo_cert) demo_order)\<lparr>ord_state := Downloaded\<rparr>"
  have x: "ord_state x = Downloaded" "ord_upp x = [1, 2, 3]"
    by (simp_all add: x_def demo_order_def)
  obtain a1 a2 a3 a4 mid st where run: "http_run sqlite_store demo_lib demo_server
     [(demo_env 1, InitiateRequest demo_initiate), (demo_env 2, InitiateRequest demo_initiate),
      (demo_env 1, AuthenticateRequest (demo_authenticate 1)),
      (demo_env 2, AuthenticateRequest (demo_authenticate 2)),
      (demo_env 1, BoundPackageRequest (demo_get_package 1))]
     = ([Ret (ok_json (InitiateBody a1)), Ret (ok_json (InitiateBody a2)),
         Ret (ok_json (AuthenticateBody a3)), Ret (ok_json (AuthenticateBody a4)),
         Ret (demo_package 1)], mid)"
    and mid: "db_orders (app_store mid) = [x]"
    and second: "handle sqlite_store demo_lib (demo_env 2) mid
         (BoundPackageRequest (demo_get_package 2)) = (Ret (demo_package 2), st)"
    using two_downloads_run unfolding x_def by blast
  note events = http_run_events [OF run demo_reachable, unfolded http_events_def]
  show ?thesis
    using fresh_server_init events mid x sys_step.http [OF second]
    by (intro exI [of _ fresh_server] exI [of _ mid] exI [of _ st] exI [of _ a1] exI [of _ a2]
        exI [of _ a3] exI [of _ a4] exI [of _ x]) (simp add: demo_package_def)
qed

section \<open>The properties at work\<close>

lemma fresh_run:
  "sys_init fresh_server"
  "sys_run demo_lib fresh_server
     [Command demo_files demo_rng demo_command (Ret (Inr demo_printed))] demo_server"
  by (rule fresh_server_init demo_reachable)+

theorem reachable_states_are_sound_witness:
  "db_inv (app_store demo_server) \<and> sessions_ok (order_ids demo_server) (sessions_of demo_server)
   \<and> \<not> poisoned (app_sessions demo_server)"
  using reachable_states_are_sound [OF fresh_run] demo_lib_in_bounds by blast

theorem stored_data_survives_every_run_witness:
  "sys_run demo_lib demo_server [Weather (\<lambda>_. Some ''locked'')]
     (demo_server\<lparr>app_store := demo_db\<lparr>faults := \<lambda>_. Some ''locked''\<rparr>\<rparr>)
   \<and> orders_extend (db_orders demo_db) (db_orders (demo_db\<lparr>faults := \<lambda>_. Some ''locked''\<rparr>))"
proof -
  have "sys_run demo_lib demo_server ([] @ [Weather (\<lambda>_. Some ''locked'')])
     (demo_server\<lparr>app_store := (app_store demo_server)\<lparr>faults := \<lambda>_. Some ''locked''\<rparr>\<rparr>)"
    by (rule run_of.run_snoc, rule run_of.run_nil, rule sys_step.weather)
  then have run: "sys_run demo_lib demo_server [Weather (\<lambda>_. Some ''locked'')]
     (demo_server\<lparr>app_store := demo_db\<lparr>faults := \<lambda>_. Some ''locked''\<rparr>\<rparr>)"
    by simp
  from stored_data_survives_every_run [OF this] run show ?thesis by simp
qed

theorem orders_follow_their_life_cycle_witness:
  "\<exists>out st'. sys_step demo_lib demo_server (Http (demo_env 1) (InitiateRequest demo_initiate) out) st'
     \<and> one_order_step ByNothing (db_orders demo_db) (db_orders (app_store st'))"
proof -
  obtain out st' where "handle sqlite_store demo_lib (demo_env 1) demo_server
      (InitiateRequest demo_initiate) = (out, st')" by force
  then have step: "sys_step demo_lib demo_server
      (Http (demo_env 1) (InitiateRequest demo_initiate) out) st'"
    by (rule sys_step.http)
  from orders_follow_their_life_cycle [OF fresh_run this] step show ?thesis by auto
qed

text \<open>One download on the demo server, up to the request for the package.\<close>

lemma one_download_run:
  "\<exists>outs. http_run sqlite_store demo_lib demo_server
     [(demo_env 1, InitiateRequest demo_initiate),
      (demo_env 1, AuthenticateRequest (demo_authenticate 1))]
     = (outs, server_with
          (put_entry (demo_tid 1) bound_entry
            (insert_session 0 (demo_tid 1) \<lparr> dp_raw = 0 \<rparr> sessions_default)) bound_db)"
proof -
  have one: "\<exists>a. handle sqlite_store demo_lib (demo_env 1) demo_server (InitiateRequest demo_initiate)
      = (Ret (ok_json (InitiateBody a)), server_with (insert_session 0 (demo_tid 1) \<lparr> dp_raw = 0 \<rparr>
           sessions_default) demo_db)"
    unfolding demo_server_with by (rule initiate_on)
  have two: "\<exists>a. handle sqlite_store demo_lib (demo_env 1)
      (server_with (insert_session 0 (demo_tid 1) \<lparr> dp_raw = 0 \<rparr> sessions_default) demo_db)
      (AuthenticateRequest (demo_authenticate 1))
      = (Ret (ok_json (AuthenticateBody a)), server_with
           (put_entry (demo_tid 1) bound_entry
             (insert_session 0 (demo_tid 1) \<lparr> dp_raw = 0 \<rparr> sessions_default)) bound_db)"
    unfolding bound_db_def
    by (rule authenticate_on [where x = demo_order])
      (simp_all add: sess_tab.get_ins demo_order_def)
  from one two show ?thesis
    by (auto simp del: handle.simps)
qed

text \<open>One download, up to and with the delivery.\<close>

lemma delivered_run:
  "\<exists>evs st st'. sys_run demo_lib fresh_server evs st
     \<and> sys_step demo_lib st
         (Http (demo_env 1) (BoundPackageRequest (demo_get_package 1)) (Ret (demo_package 1))) st'"
proof -
  let ?t = "put_entry (demo_tid 1) bound_entry
      (insert_session 0 (demo_tid 1) \<lparr> dp_raw = 0 \<rparr> sessions_default)"
  obtain outs where "http_run sqlite_store demo_lib demo_server
     [(demo_env 1, InitiateRequest demo_initiate),
      (demo_env 1, AuthenticateRequest (demo_authenticate 1))] = (outs, server_with ?t bound_db)"
    using one_download_run by blast
  from http_run_events [OF this fresh_run(2)] obtain evs
    where run: "sys_run demo_lib fresh_server evs (server_with ?t bound_db)" by blast
  have "handle sqlite_store demo_lib (demo_env 1) (server_with ?t bound_db)
      (BoundPackageRequest (demo_get_package 1)) =
    (Ret (demo_package 1),
     server_with (remove_session (demo_tid 1) ?t) (fst (sqlite_set_state bound_db 1 Downloaded)))"
    by (rule package_on [OF demo_find_upp]) (simp add: sess_tab.get_put)
  from sys_step.http [OF this] run show ?thesis by blast
qed

theorem no_package_without_authentication_witness:
  "\<exists>evs st st'. sys_run demo_lib fresh_server evs st
     \<and> sys_step demo_lib st
         (Http (demo_env 1) (BoundPackageRequest (demo_get_package 1)) (Ret (demo_package 1))) st'
     \<and> authenticated (demo_tid 1) (since_restart evs)"
proof -
  obtain evs st st' where run: "sys_run demo_lib fresh_server evs st"
    and step: "sys_step demo_lib st
         (Http (demo_env 1) (BoundPackageRequest (demo_get_package 1)) (Ret (demo_package 1))) st'"
    using delivered_run by blast
  have "authenticated (demo_tid 1) (since_restart evs)"
    using no_package_without_authentication [OF fresh_run(1) run step]
    by (simp add: demo_package_def demo_get_package_def)
  with run step show ?thesis by blast
qed

theorem download_completes_witness:
  "case http_run sqlite_store demo_lib demo_server
      [(demo_env 1, InitiateRequest demo_initiate),
       (demo_env 1, AuthenticateRequest (demo_authenticate 1)),
       (demo_env 1, BoundPackageRequest (demo_get_package 1))] of
     (outs, st') \<Rightarrow> length outs = 3 \<and> map ord_state (db_orders (app_store st')) = [Downloaded]"
proof -
  let ?reqs = "[(demo_env 1, InitiateRequest demo_initiate),
       (demo_env 1, AuthenticateRequest (demo_authenticate 1)),
       (demo_env 1, BoundPackageRequest (demo_get_package 1))]"
  obtain outs st' where run: "http_run sqlite_store demo_lib demo_server ?reqs = (outs, st')"
    by force
  have start: "working (app_store demo_server)"
      "filter offered (db_orders (app_store demo_server)) = [demo_order]"
      "cfg_nonces (app_config demo_server) = os_nonces" "\<not> poisoned (app_sessions demo_server)"
    by simp_all
  have "initiate demo_lib (irq_euicc_challenge demo_initiate) (irq_euicc_info1 demo_initiate)
      (demo_tid 1) (replicate 16 1) (server_address (app_config demo_server))
      (Some (irq_smdp_address demo_initiate)) = Inr (\<lparr> dp_raw = 0 \<rparr>, from_raw (demo_tid 1) 16)"
    and "length (irq_euicc_challenge demo_initiate) = 16"
    by (simp_all add: demo_lib_calls demo_initiate_def demo_tid_def)
  note final = download_completes [of demo_server demo_order demo_initiate "demo_env 1" "demo_tid 1"
      _ _ _ "demo_env 1" _ _ demo_lib, OF start this(2) demo_nonces this(1) demo_lib_fields(1)
      demo_lib_calls(2) demo_lib_eid demo_lib_fields(2) demo_lib_calls(3) demo_tid_arg,
      where ?env2.0 = "demo_env 1"]
  show ?thesis
    using final run by (auto simp: demo_db_orders update_order_def simp del: http_run.simps)
qed

end
