(* ===== verification/Sites.thy ===== *)
theory Sites
  imports Interference Runs
begin

text \<open>
  Several processes on one database file: the server, in the middle of a request or idle, and
  any number of running commands, each making its calls one at a time. The processes are
  interleaved at the calls, which is what the file's lock makes of them, a command may be killed
  between two calls, and the server may crash in the middle of a request and be started again.
\<close>

section \<open>A site\<close>

record 's site =
  site_db :: conn
  site_memory :: "'s memory"
  site_job :: "(request \<times> 's job) option"
  site_commands :: "cli_job list"

datatype site_event =
    Accept env request
  | ServerCall
  | Answer "response outcome"
  | Start files os_random order_command
  | CommandCall nat
  | CommandEnd nat
  | Disturb "sql_stmt \<Rightarrow> string option"
  | Crash

definition restarted :: "'s memory \<Rightarrow> 's memory" where
  "restarted m = router_state () (app_config m)"

inductive site_step :: "'s rsp_lib \<Rightarrow> 's site \<Rightarrow> site_event \<Rightarrow> 's site \<Rightarrow> bool" for L where
  accept: "site_job s = None \<Longrightarrow>
     site_step L s (Accept env r)
       (s\<lparr>site_job := Some (r, handle_program L env (site_memory s) r)\<rparr>)"
| server_call: "site_job s = Some (r, Call c k) \<Longrightarrow>
     call_store sqlite_store (site_db s) c = (db', a) \<Longrightarrow>
     site_step L s ServerCall (s\<lparr>site_db := db', site_job := Some (r, k a)\<rparr>)"
| answer: "site_job s = Some (r, Return (out, m)) \<Longrightarrow>
     site_step L s (Answer out) (s\<lparr>site_memory := m, site_job := None\<rparr>)"
| start: "site_step L s (Start fs rg cmd)
       (s\<lparr>site_commands := site_commands s @ [order_program fs rg cmd]\<rparr>)"
| command_call: "i < length (site_commands s) \<Longrightarrow> site_commands s ! i = Call c k \<Longrightarrow>
     call_db (site_db s) c = (db', a) \<Longrightarrow>
     site_step L s (CommandCall i)
       (s\<lparr>site_db := db', site_commands := (site_commands s)[i := k a]\<rparr>)"
| command_end: "i < length (site_commands s) \<Longrightarrow>
     site_step L s (CommandEnd i)
       (s\<lparr>site_commands := take i (site_commands s) @ drop (Suc i) (site_commands s)\<rparr>)"
| disturb: "site_step L s (Disturb f) (s\<lparr>site_db := (site_db s)\<lparr>faults := f\<rparr>\<rparr>)"
| crash: "sqlite_open (site_db s) = (db', Inr ()) \<Longrightarrow>
     site_step L s Crash
       (s\<lparr>site_db := db', site_memory := restarted (site_memory s), site_job := None\<rparr>)"

abbreviation site_run :: "'s rsp_lib \<Rightarrow> 's site \<Rightarrow> site_event list \<Rightarrow> 's site \<Rightarrow> bool" where
  "site_run L \<equiv> run_of (site_step L)"

text \<open>The server just started on a new file, no command running.\<close>

definition site_of :: "'s server \<Rightarrow> 's site" where
  "site_of st =
     \<lparr> site_db = app_store st, site_memory = memory_of st, site_job = None, site_commands = [] \<rparr>"

definition site_init :: "'s site \<Rightarrow> bool" where
  "site_init s \<longleftrightarrow> (\<exists>st. sys_init st \<and> s = site_of st)"

section \<open>The invariant of a site\<close>

definition site_inv :: "'s rsp_lib \<Rightarrow> 's site \<Rightarrow> bool" where
  "site_inv L s \<longleftrightarrow>
     db_inv (site_db s) \<and> memory_fits L (ids_in (site_db s)) (site_memory s)
     \<and> (\<forall>r p. site_job s = Some (r, p) \<longrightarrow> job_ok L r p (site_db s))
     \<and> (\<forall>p \<in> set (site_commands s). calls_only cli_call p)"

text \<open>What one event may do to the orders.\<close>

definition site_orders_step :: "'s site \<Rightarrow> site_event \<Rightarrow> order_t list \<Rightarrow> order_t list \<Rightarrow> bool" where
  "site_orders_step s ev xs ys \<longleftrightarrow>
     (case ev of
        ServerCall \<Rightarrow>
          (case site_job s of
             None \<Rightarrow> False
           | Some (r, p) \<Rightarrow> one_order_step (cause_of r) xs ys)
      | CommandCall i \<Rightarrow> reset_or_added xs ys
      | _ \<Rightarrow> ys = xs)"

lemma memory_fits_restarted: "memory_fits L ids m \<Longrightarrow> memory_fits L ids (restarted m)"
  by (simp add: memory_fits_def restarted_def router_state_def sessions_of_def sessions_ok_def
      sess_tab.get_empty)

lemma site_step_effect:
  assumes inv: "site_inv L s" and step: "site_step L s ev s'"
  shows "db_step (site_orders_step s ev) (site_db s) (site_db s') \<and> site_inv L s'"
proof -
  have db: "db_inv (site_db s)" and fits: "memory_fits L (ids_in (site_db s)) (site_memory s)"
    and job: "\<And>r p. site_job s = Some (r, p) \<Longrightarrow> job_ok L r p (site_db s)"
    and commands: "\<And>p. p \<in> set (site_commands s) \<Longrightarrow> calls_only cli_call p"
    using inv by (auto simp: site_inv_def)
  have same: "db_step (site_orders_step s ev) (site_db s) (site_db s)"
    if "site_orders_step s ev (db_orders (site_db s)) (db_orders (site_db s))"
    using db that by (simp add: db_step_def)
  from step show ?thesis
  proof cases
    case (accept env r)
    with inv same handle_program_ok [OF db fits] show ?thesis
      by (simp add: site_orders_step_def site_inv_def)
  next
    case (server_call r c k db' a)
    have "db_step (one_order_step (cause_of r)) (site_db s) db' \<and> job_ok L r (k a) db'"
      using assured_Call [OF job [OF server_call(3), unfolded job_ok_def] server_call(4)]
      by (simp add: job_ok_def)
    moreover from this have "memory_fits L (ids_in db') (site_memory s)"
      using ids_in_one_order_step fits unfolding db_step_def by metis
    ultimately show ?thesis
      using server_call commands
      by (simp add: site_orders_step_def db_step_def site_inv_def)
  next
    case (answer r out m)
    have "memory_fits L (ids_in (site_db s)) m"
      using assured_Return [OF job [OF answer(3), unfolded job_ok_def]] by simp
    with inv same answer show ?thesis by (simp add: site_orders_step_def site_inv_def)
  next
    case (start fs rg cmd)
    with inv same order_program_calls show ?thesis
      by (auto simp: site_orders_step_def site_inv_def)
  next
    case (command_call i c k db' a)
    have prog: "calls_only cli_call (Call c k)"
      using commands [OF nth_mem [OF command_call(3)]] command_call(4) by simp
    then have call: "cli_call c" and rest: "calls_only cli_call (k a)"
      by simp_all
    have db': "db' = fst (call_db (site_db s) c)"
      using command_call(5) by simp
    then have effect: "db_step reset_or_added (site_db s) db'"
      using command_db_step [OF db call] by simp
    have other: "other_step (site_db s) db'"
      using call db' by (auto simp: other_step_def)
    have "memory_fits L (ids_in db') (site_memory s)"
      using memory_fits_mono [OF fits ids_in_reset_or_added] effect by (simp add: db_step_def)
    then show ?thesis
      using command_call effect rest commands job_ok_other [OF job other]
      by (auto simp: site_orders_step_def db_step_def site_inv_def dest!: set_update_subset_insert [THEN subsetD])
  next
    case (command_end i)
    with inv same show ?thesis
      by (auto simp: site_orders_step_def site_inv_def dest: in_set_takeD in_set_dropD)
  next
    case (disturb f)
    have "other_step (site_db s) ((site_db s)\<lparr>faults := f\<rparr>)"
      by (auto simp: other_step_def)
    with disturb db fits commands job_ok_other [OF job this] show ?thesis
      by (simp add: site_orders_step_def site_inv_def db_step_def ids_in_def)
  next
    case (crash db')
    have "db' = site_db s"
      using sqlite_open_current [OF db] crash(3) by simp
    with crash inv same fits show ?thesis
      by (simp add: site_orders_step_def site_inv_def memory_fits_restarted)
  qed
qed

lemma site_init_inv: "site_init s \<Longrightarrow> site_inv L s"
  using server_system.init_inv [of _ L]
  by (auto simp: site_init_def site_of_def site_inv_def sys_inv_memory)

interpretation site_system: invariant_system site_init "site_step L" "site_inv L" for L
  by unfold_locales (blast intro: site_init_inv site_step_effect [THEN conjunct2])+

lemma site_orders_step_extend:
  assumes "site_orders_step s ev xs ys"
  shows "orders_extend xs ys"
proof -
  have "orders_extend xs ys" if "one_order_step c xs ys" for c
    using orders_step_extend [of "Http env (InitiateRequest q) out" xs ys for env q out]
      one_order_step_same [OF that] list_all2_lengthD [OF one_order_step_same [OF that]]
    by (simp add: orders_extend_def)
  with assms show ?thesis
    by (auto simp: site_orders_step_def reset_or_added_def orders_extend_def
        split: site_event.splits option.splits)
qed

lemma site_run_store:
  assumes "site_run L s evs s'" and "site_inv L s"
  shows "orders_extend (db_orders (site_db s)) (db_orders (site_db s'))
    \<and> (\<exists>new. db_notifications (site_db s') = db_notifications (site_db s) @ new)"
  using assms
proof (induction rule: run_of.induct)
  case (run_snoc s evs s' ev s'')
  have "site_inv L s'"
    using run_snoc.prems run_snoc.hyps(1) by (blast intro: site_system.run_inv)
  from site_step_effect [OF this run_snoc.hyps(2)] run_snoc show ?case
    unfolding db_step_def
    using site_orders_step_extend orders_extend_trans by (metis append.assoc)
qed simp

section \<open>Atomic runs are runs of the site\<close>

lemma site_run_Cons:
  "site_step L s ev s' \<Longrightarrow> site_run L s' evs s'' \<Longrightarrow> site_run L s (ev # evs) s''"
  using run_of_append [OF _ run_of_one] by fastforce

text \<open>A job run to its end, and a command, the only one, run to its end.\<close>

lemma job_site_run:
  "exec (call_store sqlite_store) p db = (db', out, m) \<Longrightarrow>
     \<exists>evs. site_run L \<lparr> site_db = db, site_memory = m0, site_job = Some (r, p), site_commands = ps \<rparr>
       (evs @ [Answer out])
       \<lparr> site_db = db', site_memory = m, site_job = None, site_commands = ps \<rparr>"
proof (induction p arbitrary: db)
  case (Return a)
  have "site_step L \<lparr> site_db = db, site_memory = m0, site_job = Some (r, Return (out, m)),
      site_commands = ps \<rparr> (Answer out)
      \<lparr> site_db = db, site_memory = m, site_job = None, site_commands = ps \<rparr>"
    using site_step.answer [of "\<lparr> site_db = db, site_memory = m0,
      site_job = Some (r, Return (out, m)), site_commands = ps \<rparr>" r out m] by simp
  with Return run_of_one [of "site_step L"] show ?case by (metis append_Nil exec.simps(1) prod.inject)
next
  case (Call c k)
  obtain db1 a where call: "call_store sqlite_store db c = (db1, a)" by force
  then have rest: "exec (call_store sqlite_store) (k a) db1 = (db', out, m)"
    using Call.prems by simp
  have "site_step L \<lparr> site_db = db, site_memory = m0, site_job = Some (r, Call c k),
      site_commands = ps \<rparr> ServerCall
      \<lparr> site_db = db1, site_memory = m0, site_job = Some (r, k a), site_commands = ps \<rparr>"
    using site_step.server_call [of "\<lparr> site_db = db, site_memory = m0,
      site_job = Some (r, Call c k), site_commands = ps \<rparr>" r c k db1 a] call by simp
  from site_run_Cons [OF this] Call.IH [OF _ rest] show ?case
    by (metis append_Cons rangeI)
qed

lemma command_site_run:
  "exec call_db p db = (db', res) \<Longrightarrow>
     \<exists>evs. site_run L \<lparr> site_db = db, site_memory = m, site_job = j, site_commands = [p] \<rparr> evs
       \<lparr> site_db = db', site_memory = m, site_job = j, site_commands = [] \<rparr>"
proof (induction p arbitrary: db)
  case (Return a)
  have "site_step L \<lparr> site_db = db, site_memory = m, site_job = j, site_commands = [Return a] \<rparr>
      (CommandEnd 0) \<lparr> site_db = db, site_memory = m, site_job = j, site_commands = [] \<rparr>"
    using site_step.command_end [of 0 "\<lparr> site_db = db, site_memory = m, site_job = j,
      site_commands = [Return a] \<rparr>" L] by simp
  with Return run_of_one [of "site_step L"] show ?case by (metis exec.simps(1) prod.inject)
next
  case (Call c k)
  obtain db1 a where call: "call_db db c = (db1, a)" by force
  then have rest: "exec call_db (k a) db1 = (db', res)"
    using Call.prems by simp
  have "site_step L \<lparr> site_db = db, site_memory = m, site_job = j, site_commands = [Call c k] \<rparr>
      (CommandCall 0) \<lparr> site_db = db1, site_memory = m, site_job = j, site_commands = [k a] \<rparr>"
    using site_step.command_call [of 0 "\<lparr> site_db = db, site_memory = m, site_job = j,
      site_commands = [Call c k] \<rparr>" c k db1 a L] call by simp
  from site_run_Cons [OF this] Call.IH [OF _ rest] show ?case
    by (metis rangeI)
qed

lemma sys_step_site_run:
  assumes "sys_step L st ev st'"
  shows "\<exists>evs. site_run L (site_of st) evs (site_of st')"
  using assms
proof cases
  case (http env r out)
  obtain db' out' m where run: "exec (call_store sqlite_store)
      (handle_program L env (memory_of st) r) (app_store st) = (db', out', m)"
    by (metis prod.exhaust)
  have "runs_as sqlite_store (handle_program L env (memory_of st) r) (app_store st) = (out, st')"
    using http by (simp only: runs_as_handle)
  then have end': "out' = out" "st' = with_store db' m"
    using run by (simp_all add: runs_as_def)
  have "site_step L (site_of st) (Accept env r)
      \<lparr> site_db = app_store st, site_memory = memory_of st,
        site_job = Some (r, handle_program L env (memory_of st) r), site_commands = [] \<rparr>"
    using site_step.accept [of "site_of st" L env r] by (simp add: site_of_def)
  moreover have "site_of st' = \<lparr> site_db = db', site_memory = m, site_job = None, site_commands = [] \<rparr>"
    by (simp add: end' site_of_def)
  ultimately show ?thesis
    using job_site_run [OF run, of L "memory_of st" r "[]"] site_run_Cons by metis
next
  case (command fs rg cmd db' res)
  have run: "exec call_db (order_program fs rg cmd) (app_store st) = (db', res)"
    using command by (simp add: exec_order_program)
  have "site_step L (site_of st) (Start fs rg cmd)
      \<lparr> site_db = app_store st, site_memory = memory_of st, site_job = None,
        site_commands = [order_program fs rg cmd] \<rparr>"
    using site_step.start [of L "site_of st" fs rg cmd] by (simp add: site_of_def)
  moreover have "site_of st' = \<lparr> site_db = db', site_memory = memory_of st, site_job = None,
      site_commands = [] \<rparr>"
    by (simp add: command site_of_def)
  ultimately show ?thesis
    using command_site_run [OF run, of L "memory_of st" None] site_run_Cons by metis
next
  case (weather f)
  have "site_step L (site_of st) (Disturb f) (site_of st')"
    using site_step.disturb [of L "site_of st" f] weather by (simp add: site_of_def)
  then show ?thesis using run_of_one [of "site_step L"] by blast
next
  case (restart db')
  have "site_step L (site_of st) Crash (site_of st')"
    using site_step.crash [of "site_of st" db' L] restart
    by (simp add: site_of_def restarted_def memory_of_def router_state_def)
  then show ?thesis using run_of_one [of "site_step L"] by blast
qed

lemma sys_run_site_run: "sys_run L st evs st' \<Longrightarrow> \<exists>evs'. site_run L (site_of st) evs' (site_of st')"
proof (induction rule: run_of.induct)
  case (run_nil st)
  then show ?case by (blast intro: run_of.run_nil)
next
  case (run_snoc st evs st' ev st'')
  then show ?case using sys_step_site_run run_of_append by metis
qed

section \<open>A request ends\<close>

fun ends_job :: "site_event \<Rightarrow> bool" where
  "ends_job (Answer out) = True"
| "ends_job Crash = True"
| "ends_job _ = False"

lemma job_after:
  assumes "site_run L s evs s'" and "site_job s = Some (r, p)" and "within p n"
    and "\<not> list_ex ends_job evs"
  shows "count_list evs ServerCall \<le> n
    \<and> (\<exists>p'. site_job s' = Some (r, p') \<and> within p' (n - count_list evs ServerCall))"
  using assms
proof (induction rule: run_of.induct)
  case (run_snoc s evs s' ev s'')
  then obtain p' where job: "site_job s' = Some (r, p')"
    and le: "count_list evs ServerCall \<le> n" and w: "within p' (n - count_list evs ServerCall)"
    by auto
  from run_snoc.hyps(2) show ?case
  proof cases
    case (server_call r1 c k db' a)
    with job w le have "0 < n - count_list evs ServerCall"
      and "within (k a) (n - count_list evs ServerCall - 1)" by auto
    with server_call job show ?thesis by (auto simp: less_diff_conv2)
  qed (use job le w run_snoc.prems in auto)
qed simp

section \<open>Properties\<close>

text \<open>
  C4: the invariant survives interleaving and crashes. Whatever way the calls of the server and of
  any number of commands are interleaved on one file, with commands killed between two calls and
  the server crashing in the middle of a request, the database stays one this version can work
  with, every session of the server has a 16-byte transactionId and refers only to an order that
  exists, and the lock is not poisoned while the library keeps to the EID buffer.
\<close>

theorem interleaved_states_are_sound:
  assumes "site_init s0" and "site_run L s0 evs s"
  shows "db_inv (site_db s) \<and> sessions_ok (ids_in (site_db s)) (sessions_of (site_memory s))
    \<and> (eid_in_bounds L \<longrightarrow> \<not> poisoned (app_sessions (site_memory s)))"
  using site_system.reachable_inv [OF assms(2,1)] by (simp add: site_inv_def memory_fits_def)

text \<open>
  C3: the life cycle survives interleaving. Each single call, in every reachable state of the
  site, changes at most one order and only as its caller may: a call of the request in progress
  as that request's kind allows (in particular, AuthenticateClient only ever binds an order that is
  Available or Bound at the moment of the write, although it chose the order in an earlier call and
  commands may have run since), a command's call by setting one order to Available or adding one;
  accepting, answering, starting, killing and crashing change no order.
\<close>

theorem interleaved_calls_follow_the_life_cycle:
  assumes "site_init s0" and "site_run L s0 evs s" and "site_step L s ev s'"
  shows "site_orders_step s ev (db_orders (site_db s)) (db_orders (site_db s'))"
  using site_step_effect [OF site_system.reachable_inv [OF assms(2,1)] assms(3)]
  by (simp add: db_step_def)

text \<open>
  C5: no interleaving and no crash loses data. Between any two states of a run of the site the
  orders keep their place, identity, MatchingID, ICCID, UPP and metadata, new orders come after
  them, and the notifications are only appended to.
\<close>

theorem interleaving_loses_nothing:
  assumes "site_init s0" and "site_run L s0 evs1 s1" and "site_run L s1 evs2 s2"
  shows "orders_extend (db_orders (site_db s1)) (db_orders (site_db s2))
    \<and> (\<exists>new. db_notifications (site_db s2) = db_notifications (site_db s1) @ new)"
  using site_run_store [OF assms(3) site_system.reachable_inv [OF assms(2,1)]] .

text \<open>
  C14: every request ends. From the moment a request is accepted, and as long as the server neither
  answers it nor crashes, whatever commands and database failures come in between, the server makes
  at most three calls for it (none for InitiateAuthentication, two for GetBoundProfilePackage), and
  it is never stuck: either a next call can be made, and the bound is not reached, or the answer
  can be given.
\<close>

theorem requests_end_within_three_calls:
  assumes "site_run L s0 (evs @ Accept env r # mid) s" and "\<not> list_ex ends_job mid"
  shows "count_list mid ServerCall \<le> call_bound r \<and> call_bound r \<le> 3
    \<and> (count_list mid ServerCall < call_bound r \<and> (\<exists>s'. site_step L s ServerCall s')
       \<or> (\<exists>out s'. site_step L s (Answer out) s'))"
proof -
  obtain s1 s2 where "site_step L s1 (Accept env r) s2" and run: "site_run L s2 mid s"
    using run_of_append_split [of "site_step L" s0 "evs @ [Accept env r]" mid s] assms(1)
    by (auto elim: run_of.cases)
  then have job2: "site_job s2 = Some (r, handle_program L env (site_memory s1) r)"
    by cases simp
  note after = job_after [OF run job2 handle_program_within assms(2)]
  then obtain p where job: "site_job s = Some (r, p)"
    and w: "within p (call_bound r - count_list mid ServerCall)" by blast
  have "call_bound r \<le> 3" by (cases r) simp_all
  moreover have "count_list mid ServerCall < call_bound r \<and> (\<exists>s'. site_step L s ServerCall s')
       \<or> (\<exists>out s'. site_step L s (Answer out) s')"
  proof (cases p)
    case (Return a)
    then show ?thesis using site_step.answer [of s r "fst a" "snd a" L] job by auto
  next
    case (Call c k)
    obtain db' a where "call_store sqlite_store (site_db s) c = (db', a)" by force
    with site_step.server_call [of s r c k db' a L] job w Call show ?thesis by auto
  qed
  ultimately show ?thesis using after by blast
qed

section \<open>The properties at work\<close>

text \<open>AuthenticateClient about to make its first call while a reset of the order has started.\<close>

definition demo_site :: "nat site" where
  "demo_site = (site_of demo_server)
     \<lparr>site_job := Some (AuthenticateRequest (demo_authenticate 1),
        handle_program demo_lib (demo_env 1) (memory_of demo_server)
          (AuthenticateRequest (demo_authenticate 1))),
      site_commands := [order_program demo_files demo_rng (Reset 1)]\<rparr>"

lemma demo_site_init: "site_init (site_of fresh_server)"
  using fresh_server_init by (auto simp: site_init_def)

lemma demo_site_reached:
  "\<exists>evs. site_run demo_lib (site_of fresh_server)
     (evs @ Accept (demo_env 1) (AuthenticateRequest (demo_authenticate 1))
        # [Start demo_files demo_rng (Reset 1)]) demo_site"
proof -
  obtain evs where run: "site_run demo_lib (site_of fresh_server) evs (site_of demo_server)"
    using sys_run_site_run [OF demo_reachable] by blast
  have "site_step demo_lib (site_of demo_server)
      (Accept (demo_env 1) (AuthenticateRequest (demo_authenticate 1)))
      ((site_of demo_server)\<lparr>site_job := Some (AuthenticateRequest (demo_authenticate 1),
        handle_program demo_lib (demo_env 1) (site_memory (site_of demo_server))
          (AuthenticateRequest (demo_authenticate 1)))\<rparr>)" (is "site_step _ _ ?ev1 ?s1")
    by (rule site_step.accept) (simp add: site_of_def)
  moreover have "site_step demo_lib ?s1 (Start demo_files demo_rng (Reset 1)) demo_site"
    using site_step.start [of demo_lib ?s1 demo_files demo_rng "Reset 1"]
    by (simp add: demo_site_def site_of_def)
  ultimately have "site_run demo_lib (site_of demo_server)
      [?ev1, Start demo_files demo_rng (Reset 1)] demo_site"
    using site_run_Cons run_of_one by metis
  from run_of_append [OF this run] show ?thesis by auto
qed

lemma demo_site_call: "\<exists>s'. site_step demo_lib demo_site ServerCall s'"
proof -
  obtain k where "site_job demo_site = Some (AuthenticateRequest (demo_authenticate 1), Call ListAll k)"
    by (simp add: demo_site_def authenticate_program_def)
  moreover obtain db' a where "call_store sqlite_store (site_db demo_site) ListAll = (db', a)"
    by force
  ultimately show ?thesis
    using site_step.server_call by blast
qed

theorem interleaved_states_are_sound_witness:
  "db_inv (site_db demo_site)"
  using demo_site_reached interleaved_states_are_sound [OF demo_site_init] by blast

theorem interleaved_calls_follow_the_life_cycle_witness:
  "\<exists>s'. site_step demo_lib demo_site ServerCall s'
     \<and> one_order_step ByAuthenticate (db_orders demo_db) (db_orders (site_db s'))"
proof -
  obtain s' where step: "site_step demo_lib demo_site ServerCall s'"
    using demo_site_call by blast
  have "site_orders_step demo_site ServerCall (db_orders (site_db demo_site)) (db_orders (site_db s'))"
    using demo_site_reached interleaved_calls_follow_the_life_cycle [OF demo_site_init _ step] by blast
  with step show ?thesis
    by (auto simp: site_orders_step_def demo_site_def site_of_def)
qed

theorem interleaving_loses_nothing_witness:
  "\<exists>s2. site_run demo_lib demo_site [ServerCall] s2
     \<and> orders_extend (db_orders demo_db) (db_orders (site_db s2))"
proof -
  obtain s2 where run: "site_run demo_lib demo_site [ServerCall] s2"
    using demo_site_call run_of_one [of "site_step demo_lib"] by blast
  have "orders_extend (db_orders (site_db demo_site)) (db_orders (site_db s2))"
    using demo_site_reached interleaving_loses_nothing [OF demo_site_init _ run] by blast
  with run show ?thesis by (auto simp: demo_site_def site_of_def)
qed

theorem requests_end_within_three_calls_witness:
  "count_list [Start demo_files demo_rng (Reset 1)] ServerCall \<le> 3
   \<and> ((\<exists>s'. site_step demo_lib demo_site ServerCall s')
      \<or> (\<exists>out s'. site_step demo_lib demo_site (Answer out) s'))"
proof -
  obtain evs where "site_run demo_lib (site_of fresh_server)
     (evs @ Accept (demo_env 1) (AuthenticateRequest (demo_authenticate 1))
        # [Start demo_files demo_rng (Reset 1)]) demo_site"
    using demo_site_reached by blast
  from requests_end_within_three_calls [OF this] show ?thesis by auto
qed

end
