(* ===== verification/Serve.thy ===== *)
theory Serve
  imports Sites
begin

text \<open>
  \<open>crates/smdp/src/bin/smdp.rs\<close>: \<open>serve\<close>, the choice between the subcommands, and
  \<open>main\<close>. What clap has parsed is the input: a flag with a default that is not given has the
  default, and \<open>requires\<close> refuses one TLS flag without the other. Sockets and TLS are the record
  \<open>network\<close>: what \<open>SocketAddr\<close> parses and prints, whether the certificate loads, whether the
  address can be bound and how serving ends. Between a successful start and that end the server
  is the one of \<open>System\<close> and \<open>Sites\<close>.
\<close>

section \<open>The command line\<close>

record serve_args =
  sv_db :: "string option"
  sv_addr :: "string option"
  sv_server_address :: string
  sv_tls_cert :: "string option"
  sv_tls_key :: "string option"

datatype smdp_command = Serve serve_args | Order "string option" order_command

definition default_db :: string where "default_db = ''smdp.db''"
definition default_addr :: string where "default_addr = ''127.0.0.1:8080''"

definition or_default :: "'a \<Rightarrow> 'a option \<Rightarrow> 'a" where
  "or_default d x = (case x of None \<Rightarrow> d | Some a \<Rightarrow> a)"

text \<open>What clap's \<open>requires\<close> guarantees of the arguments it lets through.\<close>

definition clap_accepts :: "serve_args \<Rightarrow> bool" where
  "clap_accepts a \<longleftrightarrow> (sv_tls_cert a = None) = (sv_tls_key a = None)"

text \<open>\<open>Option::zip\<close>.\<close>

fun option_zip :: "'a option \<Rightarrow> 'b option \<Rightarrow> ('a \<times> 'b) option" where
  "option_zip (Some a) (Some b) = Some (a, b)"
| "option_zip _ _ = None"

section \<open>Starting the server\<close>

record 'addr network =
  parse_addr :: "string \<Rightarrow> string + 'addr"
  show_addr :: "'addr \<Rightarrow> string"
  load_pem :: "string \<Rightarrow> string \<Rightarrow> string + unit"
  bind_tcp :: "'addr \<Rightarrow> string + unit"
  serve_https :: "'addr \<Rightarrow> string + unit"
  serve_http :: "'addr \<Rightarrow> string + unit"

text \<open>What it printed when it announced itself, and the state it answers the first request in.\<close>

record 's listening =
  announced :: string
  started :: "'s server"

definition announce_https :: "string \<Rightarrow> string \<Rightarrow> string" where
  "announce_https bound addr =
     ''smdp: listening on https://'' @ bound @ '' as '' @ addr"

definition announce_http :: "string \<Rightarrow> string \<Rightarrow> string" where
  "announce_http bound addr =
     ''smdp: listening on http://'' @ bound @ '' as '' @ addr
     @ '' -- NO TLS, which SGP.22 section 6.1 requires on ES9+''"

definition listen ::
  "'addr network \<Rightarrow> string \<Rightarrow> string \<Rightarrow> (string \<times> string) option \<Rightarrow> 's server \<Rightarrow>
     's listening option \<times> (string + unit)"
where
  "listen N addr own tls app =
     (case parse_addr N addr of
        Inl e \<Rightarrow> (None, Inl (addr @ '' is not an address: '' @ e))
      | Inr bound \<Rightarrow>
          (case tls of
             Some (cert, key) \<Rightarrow>
               (case load_pem N cert key of
                  Inl e \<Rightarrow> (None, Inl (cert @ '' / '' @ key @ '': '' @ e))
                | Inr _ \<Rightarrow>
                    (Some \<lparr> announced = announce_https (show_addr N bound) own,
                            started = app \<rparr>, serve_https N bound))
           | None \<Rightarrow>
               (case bind_tcp N bound of
                  Inl e \<Rightarrow> (None, Inl (addr @ '': '' @ e))
                | Inr _ \<Rightarrow>
                    (Some \<lparr> announced = announce_http (show_addr N bound) own,
                            started = app \<rparr>, serve_http N bound))))"

definition serve ::
  "'addr network \<Rightarrow> conn \<Rightarrow> string \<Rightarrow> string \<Rightarrow> (string \<times> string) option \<Rightarrow>
     conn \<times> 's listening option \<times> (string + unit)"
where
  "serve N db addr own tls =
     (case sqlite_open db of
        (db1, Inl e) \<Rightarrow> (db1, None, Inl (display_store_error e))
      | (db1, Inr _) \<Rightarrow>
          (db1, listen N addr own tls (router_state db1 (server_config_new own))))"

section \<open>The program\<close>

text \<open>The database files by path; a path where there is no file is an empty connection.\<close>

type_synonym disk = "string \<Rightarrow> conn"

datatype 's ran = Served "'s listening option" "string + unit" | Ran cli_result

definition run_smdp ::
  "'addr network \<Rightarrow> files \<Rightarrow> os_random \<Rightarrow> disk \<Rightarrow> smdp_command \<Rightarrow> disk \<times> 's ran"
where
  "run_smdp N fs r disk cmd =
     (case cmd of
        Serve a \<Rightarrow>
          (let path = or_default default_db (sv_db a) in
           case serve N (disk path) (or_default default_addr (sv_addr a)) (sv_server_address a)
                  (option_zip (sv_tls_cert a) (sv_tls_key a)) of
             (db, l, res) \<Rightarrow> (disk(path := db), Served l res))
      | Order db_arg oc \<Rightarrow>
          (let path = or_default default_db db_arg in
           case run_order fs r (disk path) oc of
             (db, res) \<Rightarrow> (disk(path := db), Ran res)))"

text \<open>\<open>main\<close>: the exit code.\<close>

fun main_exit :: "'s ran \<Rightarrow> nat" where
  "main_exit (Served l (Inr _)) = 0"
| "main_exit (Served l (Inl _)) = 1"
| "main_exit (Ran res) = exit_code res"

fun db_path :: "smdp_command \<Rightarrow> string" where
  "db_path (Serve a) = or_default default_db (sv_db a)"
| "db_path (Order db_arg oc) = or_default default_db db_arg"

section \<open>What starting does\<close>

lemma listen_started:
  "listen N addr sa tls app = (Some l, res) \<Longrightarrow> started l = app"
  by (auto simp: listen_def split: sum.splits option.splits)

lemma serve_started:
  assumes "serve N db addr sa tls = (db', Some l, res)"
  shows "sqlite_open db = (db', Inr ()) \<and> started l = router_state db' (server_config_new sa)"
  using assms by (auto simp: serve_def dest: listen_started split: prod.splits sum.splits)

lemma announced_scheme:
  assumes "listen N addr sa tls app = (Some l, res)"
  shows "\<exists>bound. parse_addr N addr = Inr bound
    \<and> (case tls of
         None \<Rightarrow> announced l = announce_http (show_addr N bound) sa \<and> bind_tcp N bound = Inr ()
       | Some (cert, key) \<Rightarrow> announced l = announce_https (show_addr N bound) sa
            \<and> load_pem N cert key = Inr ())"
  using assms by (auto simp: listen_def split: sum.splits option.splits)

lemma run_smdp_other_files: "p \<noteq> db_path cmd \<Longrightarrow> fst (run_smdp N fs r disk cmd) p = disk p"
  by (auto simp: run_smdp_def Let_def split: smdp_command.splits prod.split)

section \<open>Properties\<close>

text \<open>
  C26: \<open>smdp serve\<close> starts the system the run theorems speak of. When it gets as far as serving
  requests, the database has been opened and the first request finds a server with no sessions on
  it: on a path with no file that state is an initial state of the system, and of the site; on a
  database that was current before, it satisfies the system's invariant; and until it serves, the
  file is exactly what opening it makes of it, whether or not the address or the certificate is any
  good.
\<close>

theorem serve_starts_the_system:
  fixes L :: "'s rsp_lib"
  shows "fst (serve N db addr sa tls) = fst (sqlite_open db)
   \<and> (\<forall>l res. snd (serve N db addr sa tls) = (Some l, res) \<longrightarrow>
        sessions_of (started l) = sessions_default
        \<and> (\<forall>f. db = empty_conn f \<longrightarrow> sys_init (started l) \<and> site_init (site_of (started l)))
        \<and> (db_inv db \<longrightarrow> sys_inv L (started l) \<and> app_store (started l) = db))"
proof (intro conjI allI impI)
  show "fst (serve N db addr sa tls) = fst (sqlite_open db)"
    by (simp add: serve_def split: prod.split sum.split)
  fix l :: "'s listening" and res assume "snd (serve N db addr sa tls) = (Some l, res)"
  then obtain db' where *: "sqlite_open db = (db', Inr ())"
    and l: "started l = router_state db' (server_config_new sa)"
    using serve_started by (metis surj_pair snd_conv)
  show "sessions_of (started l) = sessions_default"
    by (simp add: l router_state_def sessions_of_def)
  show init: "sys_init (started l)" if "db = empty_conn f" for f
    using * l that unfolding sys_init_def by blast
  show "site_init (site_of (started l))" if "db = empty_conn f" for f
    using init [OF that] by (auto simp: site_init_def)
  assume inv: "db_inv db"
  then have "db' = db" using sqlite_open_current [OF inv] * by simp
  with inv show "app_store (started l) = db" and "sys_inv L (started l)"
    by (simp_all add: l router_state_def sys_inv_def server_config_new_def sessions_ok_def
        sessions_of_def sess_tab.get_empty)
qed

text \<open>
  C40: cleartext is announced and never chosen behind the operator's back. With the arguments clap
  lets through, a server that serves requests was given a certificate exactly when it announces
  https, then with a certificate and key that loaded; otherwise its announcement says that there
  is no TLS, and the address was bound before it was printed.
\<close>

theorem cleartext_is_announced:
  assumes "clap_accepts a" and "run_smdp N fs r disk (Serve a) = (disk', Served (Some l) res)"
  shows "\<exists>bound. parse_addr N (or_default default_addr (sv_addr a)) = Inr bound
    \<and> (case sv_tls_cert a of
         None \<Rightarrow> announced l = announce_http (show_addr N bound) (sv_server_address a)
                 \<and> bind_tcp N bound = Inr ()
       | Some cert \<Rightarrow> announced l = announce_https (show_addr N bound) (sv_server_address a)
                 \<and> (\<exists>key. sv_tls_key a = Some key \<and> load_pem N cert key = Inr ()))"
proof -
  let ?tls = "option_zip (sv_tls_cert a) (sv_tls_key a)"
  obtain db' where "listen N (or_default default_addr (sv_addr a)) (sv_server_address a) ?tls
      (router_state db' (server_config_new (sv_server_address a))) = (Some l, res)"
    using assms(2) by (auto simp: run_smdp_def serve_def Let_def split: prod.splits sum.splits)
  from announced_scheme [OF this] assms(1) show ?thesis
    by (cases "sv_tls_cert a"; cases "sv_tls_key a") (auto simp: clap_accepts_def)
qed

text \<open>
  A command works on one file. Whatever the subcommand does, no database file but the one
  named by its \<open>--db\<close> (or the default) changes, and the process exits with 0 exactly when the
  subcommand succeeded.
\<close>

theorem one_file_per_command:
  fixes ran :: "'s ran"
  assumes "run_smdp N fs r disk cmd = (disk', ran)"
  shows "(\<forall>p. p \<noteq> db_path cmd \<longrightarrow> disk' p = disk p)
    \<and> (main_exit ran = 0 \<longleftrightarrow> (\<exists>l. ran = Served l (Inr ())) \<or> (\<exists>out. ran = Ran (Ret (Inr out))))"
proof (intro conjI allI impI)
  show "disk' p = disk p" if "p \<noteq> db_path cmd" for p
    using run_smdp_other_files [OF that, of N fs r disk] assms by (metis fst_conv)
  show "main_exit ran = 0 \<longleftrightarrow> (\<exists>l. ran = Served l (Inr ())) \<or> (\<exists>out. ran = Ran (Ret (Inr out)))"
  proof (cases ran)
    case (Served l res)
    then show ?thesis by (cases res) auto
  next
    case (Ran res)
    then show ?thesis by (auto simp: exit_code_def split: outcome.splits sum.splits)
  qed
qed

text \<open>
  The https announcement does not mean that the address was bound. The address is bound as part
  of serving, after the line is printed: there is a network and a start on a new file that
  announces https and ends with the error that the address is in use.
\<close>

theorem https_announced_before_bound:
  "\<exists>(N :: unit network) a l. clap_accepts a
     \<and> snd (run_smdp N fs r (\<lambda>_. empty_conn (\<lambda>_. None)) (Serve a))
         = Served (Some l) (Inl ''Address already in use'')
     \<and> announced l = announce_https ''127.0.0.1:8443'' ''smdp.example.com''"
proof -
  let ?N = "\<lparr> parse_addr = (\<lambda>_. Inr ()), show_addr = (\<lambda>_. ''127.0.0.1:8443''),
     load_pem = (\<lambda>_ _. Inr ()), bind_tcp = (\<lambda>_. Inl ''Address already in use''),
     serve_https = (\<lambda>_. Inl ''Address already in use''),
     serve_http = (\<lambda>_. Inl ''Address already in use'') \<rparr>"
  let ?a = "\<lparr> sv_db = None, sv_addr = Some ''127.0.0.1:8443'', sv_server_address = ''smdp.example.com'',
     sv_tls_cert = Some ''c.pem'', sv_tls_key = Some ''k.pem'' \<rparr>"
  have "sqlite_open (empty_conn (\<lambda>_. None)) = (fresh_db, Inr ())"
    by (simp add: open_defs empty_conn_def fresh_db_def SCHEMA_VERSION_def)
  then show ?thesis
    by (intro exI [of _ ?N] exI [of _ ?a])
      (simp add: clap_accepts_def run_smdp_def serve_def listen_def or_default_def)
qed

section \<open>The properties at work\<close>

definition demo_network :: "unit network" where
  "demo_network =
     \<lparr> parse_addr = (\<lambda>_. Inr ()), show_addr = (\<lambda>_. ''127.0.0.1:8080''), load_pem = (\<lambda>_ _. Inr ()),
       bind_tcp = (\<lambda>_. Inr ()), serve_https = (\<lambda>_. Inr ()), serve_http = (\<lambda>_. Inr ()) \<rparr>"

definition demo_serve :: serve_args where
  "demo_serve =
     \<lparr> sv_db = None, sv_addr = None, sv_server_address = ''smdp.example.com'', sv_tls_cert = None,
       sv_tls_key = None \<rparr>"

theorem serve_starts_the_system_witness:
  "\<exists>l :: nat listening. snd (serve demo_network (empty_conn (\<lambda>_. None)) ''a'' ''smdp.example.com'' None)
     = (Some l, Inr ()) \<and> sys_init (started l)"
proof -
  have "sqlite_open (empty_conn (\<lambda>_. None)) = (fresh_db, Inr ())"
    by (simp add: open_defs empty_conn_def fresh_db_def SCHEMA_VERSION_def)
  then obtain l :: "nat listening" where
    "snd (serve demo_network (empty_conn (\<lambda>_. None)) ''a'' ''smdp.example.com'' None) = (Some l, Inr ())"
    by (simp add: serve_def listen_def demo_network_def)
  with serve_starts_the_system [of demo_network "empty_conn (\<lambda>_. None)" "''a''" "''smdp.example.com''"
      None demo_lib] show ?thesis
    by blast
qed

theorem cleartext_is_announced_witness:
  "\<exists>(l :: nat listening) disk'.
     run_smdp demo_network demo_files demo_rng (\<lambda>_. fresh_db) (Serve demo_serve)
       = (disk', Served (Some l) (Inr ()))
     \<and> announced l = announce_http ''127.0.0.1:8080'' ''smdp.example.com''"
proof -
  have accepts: "clap_accepts demo_serve"
    by (simp add: clap_accepts_def demo_serve_def)
  have "sqlite_open fresh_db = (fresh_db, Inr ())"
    using fresh_db_working open_current_no_faults by (simp add: working_def)
  then obtain l :: "nat listening" and disk' where run:
    "run_smdp demo_network demo_files demo_rng (\<lambda>_. fresh_db) (Serve demo_serve)
       = (disk', Served (Some l) (Inr ()))"
    by (simp add: run_smdp_def serve_def listen_def demo_network_def demo_serve_def Let_def)
  from cleartext_is_announced [OF accepts run] run show ?thesis
    by (auto simp: demo_serve_def demo_network_def)
qed

theorem one_file_per_command_witness:
  "\<exists>disk' (ran :: nat ran).
     run_smdp demo_network demo_files demo_rng (\<lambda>_. fresh_db) (Serve demo_serve) = (disk', ran)
     \<and> disk' ''other.db'' = fresh_db"
proof -
  obtain disk' and ran :: "nat ran" where run:
    "run_smdp demo_network demo_files demo_rng (\<lambda>_. fresh_db) (Serve demo_serve) = (disk', ran)"
    by force
  from one_file_per_command [OF run] run show ?thesis
    by (auto simp: demo_serve_def or_default_def default_db_def)
qed

end
