(* ===== verification/Protocol.thy ===== *)
theory Protocol
  imports Runs
begin

text \<open>
  The download protocol as the server means it, without requests, responses, bytes or SQL: which
  phase each session is in and which state each order is in. The locale \<open>forward_simulation\<close>
  lifts a step-by-step refinement to runs; it is interpreted on the whole program, so that what is
  proved of the protocol (a session delivers at most once) holds of every run of the server.
\<close>

section \<open>The protocol\<close>

datatype phase = PhOpened | PhBound int

record protocol =
  p_sessions :: "bytes \<rightharpoonup> phase"
  p_orders :: "(int \<times> order_state) list"

datatype action =
    Opens bytes
  | Accepts bytes
  | Delivers bytes
  | Reports
  | Administers
  | Restarts
  | Stutters

definition p_set :: "int \<Rightarrow> order_state \<Rightarrow> (int \<times> order_state) list \<Rightarrow> (int \<times> order_state) list" where
  "p_set i s os = map (\<lambda>(j, t). if j = i then (j, s) else (j, t)) os"

definition p_offered :: "(int \<times> order_state) list \<Rightarrow> int list" where
  "p_offered os = map fst (filter (\<lambda>(j, t). t \<le> Bound) os)"

text \<open>
  A write may be refused by the database, and its error is dropped: each rule leaves the orders
  either as they are or changed as it says. Opening a session may drop others that are too old.
\<close>

inductive proto_step :: "protocol \<Rightarrow> action \<Rightarrow> protocol \<Rightarrow> bool" where
  opens: "m \<subseteq>\<^sub>m p_sessions a \<Longrightarrow>
     proto_step a (Opens k) (a\<lparr>p_sessions := m(k \<mapsto> PhOpened)\<rparr>)"
| accepts: "k \<in> dom (p_sessions a) \<Longrightarrow> p_offered (p_orders a) = [i] \<Longrightarrow>
     os = p_orders a \<or> os = p_set i Bound (p_orders a) \<Longrightarrow>
     proto_step a (Accepts k) \<lparr> p_sessions = (p_sessions a)(k \<mapsto> PhBound i), p_orders = os \<rparr>"
| delivers: "p_sessions a k = Some (PhBound i) \<Longrightarrow> i \<in> fst ` set (p_orders a) \<Longrightarrow>
     os = p_orders a \<or> os = p_set i Downloaded (p_orders a) \<Longrightarrow>
     proto_step a (Delivers k) \<lparr> p_sessions = (p_sessions a)(k := None), p_orders = os \<rparr>"
| reports: "os = p_orders a \<or> (\<exists>i. os = p_set i s (p_orders a)) \<Longrightarrow> s = Downloaded \<or> s = Failed \<Longrightarrow>
     proto_step a Reports (a\<lparr>p_orders := os\<rparr>)"
| administers: "os = p_orders a \<or> (\<exists>i. os = p_set i Available (p_orders a))
       \<or> (\<exists>i. i \<notin> fst ` set (p_orders a) \<and> os = p_orders a @ [(i, Available)]) \<Longrightarrow>
     proto_step a Administers (a\<lparr>p_orders := os\<rparr>)"
| restarts: "proto_step a Restarts (a\<lparr>p_sessions := Map.empty\<rparr>)"
| stutters: "proto_step a Stutters a"

inductive_cases proto_step_elim: "proto_step a ac a'"

section \<open>Forward simulation\<close>

locale forward_simulation = invariant_system init step I
  for init :: "'st \<Rightarrow> bool"
    and step :: "'st \<Rightarrow> 'ev \<Rightarrow> 'st \<Rightarrow> bool"
    and I :: "'st \<Rightarrow> bool" +
  fixes a_step :: "'ab \<Rightarrow> 'ac \<Rightarrow> 'ab \<Rightarrow> bool"
    and view_of :: "'st \<Rightarrow> 'ab"
    and label :: "'ev \<Rightarrow> 'ac"
  assumes simulates: "I st \<Longrightarrow> step st ev st' \<Longrightarrow> a_step (view_of st) (label ev) (view_of st')"
begin

lemma run_simulates:
  "run_of step st evs st' \<Longrightarrow> I st \<Longrightarrow> run_of a_step (view_of st) (map label evs) (view_of st')"
proof (induction rule: run_of.induct)
  case (run_nil st)
  then show ?case by (simp add: run_of.run_nil)
next
  case (run_snoc st evs st' ev st'')
  have "I st'"
    using run_snoc.hyps(1) run_snoc.prems by (rule run_inv)
  from run_of.run_snoc [OF run_snoc.IH [OF run_snoc.prems] simulates [OF this run_snoc.hyps(2)]]
  show ?case by simp
qed

end

section \<open>The protocol in the server\<close>

definition phase_of :: "'s entry \<Rightarrow> phase" where
  "phase_of e = (case entry_order_id e of None \<Rightarrow> PhOpened | Some i \<Rightarrow> PhBound i)"

definition p_view :: "order_t list \<Rightarrow> (int \<times> order_state) list" where
  "p_view os = map (\<lambda>x. (ord_id x, ord_state x)) os"

definition protocol_of :: "'s server \<Rightarrow> protocol" where
  "protocol_of st =
     \<lparr> p_sessions = (\<lambda>k. map_option phase_of (get_session k (sessions_of st))),
       p_orders = p_view (db_orders (app_store st)) \<rparr>"

text \<open>What a request did, read off its answer.\<close>

fun action_of :: "event \<Rightarrow> action" where
  "action_of (Http env (InitiateRequest q) out) =
     (case out of
        Ret resp \<Rightarrow>
          (case resp_body resp of InitiateBody b \<Rightarrow> Opens (iar_transaction_id b) | _ \<Rightarrow> Stutters)
      | Panic \<Rightarrow> Stutters)"
| "action_of (Http env (AuthenticateRequest q) out) =
     (if accepts (arq_transaction_id q) (Http env (AuthenticateRequest q) out)
      then Accepts (arq_transaction_id q) else Stutters)"
| "action_of (Http env (BoundPackageRequest q) out) =
     (case out of
        Ret resp \<Rightarrow>
          (case resp_body resp of
             BoundPackageBody b \<Rightarrow> Delivers (grq_transaction_id q) | _ \<Rightarrow> Stutters)
      | Panic \<Rightarrow> Stutters)"
| "action_of (Http env (NotificationRequest q) out) = Reports"
| "action_of (Command fs rg cmd res) = Administers"
| "action_of (Weather f) = Stutters"
| "action_of Restart = Restarts"

section \<open>Each event is a step of the protocol\<close>

lemma phase_of_simps [simp]:
  "phase_of (e\<lparr>session := x\<rparr>) = phase_of e"
  "phase_of (e\<lparr>session := x, entry_order_id := Some i\<rparr>) = PhBound i"
  "phase_of \<lparr> session = x, entry_order_id = j, born = t \<rparr>
     = (case j of None \<Rightarrow> PhOpened | Some i \<Rightarrow> PhBound i)"
  "entry_order_id e = Some i \<Longrightarrow> phase_of e = PhBound i"
  by (simp_all add: phase_of_def)

lemma p_view_update [simp]:
  assumes "\<And>x. ord_id (f x) = ord_id x" and "\<And>x. ord_state (f x) = s"
  shows "p_view (update_order i f os) = p_set i s (p_view os)"
  using assms by (induction os) (auto simp: p_view_def p_set_def update_order_def)

lemma p_view_update_same:
  assumes "\<And>x. ord_id (f x) = ord_id x" and "\<And>x. ord_state (f x) = ord_state x"
  shows "p_view (update_order i f os) = p_view os"
  using assms by (induction os) (auto simp: p_view_def update_order_def)

lemma p_offered_view: "p_offered (p_view os) = map ord_id (filter offered os)"
  by (induction os) (auto simp: p_offered_def p_view_def offered_le_Bound)

lemma fst_p_view: "fst ` set (p_view os) = set (map ord_id os)"
  by (simp add: p_view_def image_image)

lemma set_state_view:
  assumes "db_inv db"
  shows "p_view (db_orders (fst (sqlite_set_state db i s))) \<in>
    {p_view (db_orders db), p_set i s (p_view (db_orders db))}"
  using sqlite.set_state_fst(3) [OF assms, of i s] by auto

lemma bind_euicc_view:
  assumes "db_inv db"
  shows "p_view (db_orders (fst (sqlite_bind_euicc db i e c))) = p_view (db_orders db)"
  using sqlite.bind_euicc_fst(3) [OF assms, of i e c] by (auto simp: p_view_update_same)

lemma remember_euicc_view:
  assumes inv: "db_inv db"
  shows "p_view (db_orders (remember_euicc sqlite_store db i e c)) \<in>
    {p_view (db_orders db), p_set i Bound (p_view (db_orders db))}"
proof -
  have "db_inv (fst (sqlite_bind_euicc db i x y))" for x y
    using sqlite.bind_euicc_fst(1) [OF inv, of i x y] by simp
  from set_state_view [OF this] set_state_view [OF inv] bind_euicc_view [OF inv]
  show ?thesis
    by (auto simp: remember_euicc_def Let_def split: option.split)
qed

lemma protocol_eqI:
  assumes "\<And>k. map_option phase_of (get_session k (sessions_of st)) = p_sessions a k"
    and "p_view (db_orders (app_store st)) = p_orders a"
  shows "protocol_of st = a"
  using assms by (simp add: protocol_of_def)

lemma initiate_simulates:
  assumes "initiate_authentication L env st q = (out, st')"
  shows "proto_step (protocol_of st) (action_of (Http env (InitiateRequest q) out)) (protocol_of st')"
  using assms
proof (cases rule: initiate_authentication_cases)
  case failed
  then show ?thesis
    using proto_step.stutters by (auto split: outcome.split body.split)
next
  case (success tid rng1 schal rng2 sess der f)
  let ?m = "\<lambda>k. if k = tid then None
    else map_option phase_of (get_session k (sessions_of st'))"
  have le: "?m \<subseteq>\<^sub>m p_sessions (protocol_of st)"
    using success(8) by (auto simp: map_le_def protocol_of_def sess_tab.get_ins split: if_splits option.splits)
  have "protocol_of st' = (protocol_of st)\<lparr>p_sessions := ?m(tid \<mapsto> PhOpened)\<rparr>"
    by (rule protocol_eqI) (simp_all add: success(8) protocol_of_def sess_tab.get_ins)
  with proto_step.opens [OF le, of tid] success(7) show ?thesis by simp
qed

definition remembered :: "'st store_ops \<Rightarrow> 'st \<Rightarrow> int \<Rightarrow> 'st \<Rightarrow> bool" where
  "remembered S db i db' \<longleftrightarrow> db' = db \<or> (\<exists>e c. db' = remember_euicc S db i e c)"

lemma remembered_intros [simp]: "remembered S db i db" "remembered S db i (remember_euicc S db i e c)"
  by (auto simp: remembered_def)

lemma remembered_view:
  assumes "db_inv db" and "remembered sqlite_store db i db'"
  shows "p_view (db_orders db') \<in> {p_view (db_orders db), p_set i Bound (p_view (db_orders db))}"
  using assms(2) unfolding remembered_def
proof (elim disjE exE)
  fix e c assume "db' = remember_euicc sqlite_store db i e c"
  with remember_euicc_view [OF assms(1), of i e c] show ?thesis by simp
qed simp

lemma authenticate_order_not_accepted:
  assumes "authenticate_order S L st q ord = (out, st')"
    and "\<not> accepts (arq_transaction_id q) (Http env (AuthenticateRequest q) out)"
  shows "map_option phase_of (get_session k (sessions_of st'))
      = map_option phase_of (get_session k (sessions_of st))
    \<and> app_store st' = app_store st"
  using assms
  by (auto simp: authenticate_order_def Let_def sess_tab.get_put
      split: if_splits option.splits prod.splits sum.splits outcome.splits)

lemma authenticate_order_accepted:
  assumes run: "authenticate_order S L st q ord = (out, st')"
    and acc: "accepts (arq_transaction_id q) (Http env (AuthenticateRequest q) out)"
  shows "get_session (arq_transaction_id q) (sessions_of st) \<noteq> None"
    and "map_option phase_of (get_session k (sessions_of st')) =
      (if k = arq_transaction_id q then Some (PhBound (ord_id ord))
       else map_option phase_of (get_session k (sessions_of st)))"
    and "remembered S (app_store st) (ord_id ord) (app_store st')"
  using run acc
  by (auto simp: authenticate_order_def Let_def sess_tab.get_put
      split: if_splits option.splits prod.splits sum.splits outcome.splits)

lemma authenticate_not_listed:
  assumes "authenticate_client S L st q = (out, st)"
    and "\<nexists>orders ord. list_orders S (app_store st) = Inr orders \<and> filter offered orders = [ord]"
  shows "\<not> accepts k (Http env (AuthenticateRequest q) out)"
  using assms
  by (auto simp: authenticate_client_def split: sum.splits list.splits)

lemma authenticate_simulates:
  assumes inv: "db_inv (app_store st)" and run: "authenticate_client sqlite_store L st q = (out, st')"
  shows "proto_step (protocol_of st) (action_of (Http env (AuthenticateRequest q) out))
    (protocol_of st')"
proof (cases "\<exists>orders ord. list_orders sqlite_store (app_store st) = Inr orders
    \<and> filter offered orders = [ord]")
  case False
  then have "st' = st"
    using run by (auto simp: authenticate_client_def split: sum.splits list.splits)
  with authenticate_not_listed [of sqlite_store L st q out] run False show ?thesis
    by (auto intro: proto_step.stutters)
next
  case True
  then obtain ord where one: "filter offered (db_orders (app_store st)) = [ord]"
    and "list_orders sqlite_store (app_store st) = Inr (db_orders (app_store st))"
    using sqlite.list_orders_Inr [OF inv] by blast
  then have sub: "authenticate_order sqlite_store L st q ord = (out, st')"
    using run by (simp add: authenticate_client_def)
  show ?thesis
  proof (cases "accepts (arq_transaction_id q) (Http env (AuthenticateRequest q) out)")
    case False
    with authenticate_order_not_accepted [OF sub False]
    have "protocol_of st' = protocol_of st" by (simp add: protocol_of_def)
    with False show ?thesis by (auto intro: proto_step.stutters)
  next
    case True
    note acc = authenticate_order_accepted [OF sub True]
    let ?os = "p_view (db_orders (app_store st'))"
    note os = remembered_view [OF inv acc(3)]
    have "proto_step (protocol_of st) (Accepts (arq_transaction_id q))
        \<lparr> p_sessions = (p_sessions (protocol_of st))(arq_transaction_id q \<mapsto> PhBound (ord_id ord)),
          p_orders = ?os \<rparr>"
      using acc(1) os one
      by (intro proto_step.accepts) (auto simp: protocol_of_def p_offered_view)
    moreover have "protocol_of st' =
        \<lparr> p_sessions = (p_sessions (protocol_of st))(arq_transaction_id q \<mapsto> PhBound (ord_id ord)),
          p_orders = ?os \<rparr>"
      by (rule protocol_eqI) (simp_all add: acc(2) protocol_of_def)
    ultimately show ?thesis using True by simp
  qed
qed

lemma bound_package_not_delivered:
  assumes "get_bound_profile_package S L env st q = (out, st')"
    and "\<forall>resp b. out = Ret resp \<longrightarrow> resp_body resp \<noteq> BoundPackageBody b"
  shows "map_option phase_of (get_session k (sessions_of st'))
      = map_option phase_of (get_session k (sessions_of st))
    \<and> app_store st' = app_store st"
  using assms
  by (auto simp: get_bound_profile_package_def Let_def sess_tab.get_put
      split: if_splits option.splits prod.splits sum.splits outcome.splits)

lemma find_upp_known:
  assumes "db_inv db" and "find_upp sqlite_store db (Some i) = Some u"
  shows "i \<in> fst ` set (p_view (db_orders db))"
proof -
  obtain xs x where "list_orders sqlite_store db = Inr xs" and "find (\<lambda>x. ord_id x = i) xs = Some x"
    using assms(2) by (auto simp: find_upp_def split: option.splits)
  with sqlite.list_orders_Inr [OF assms(1)] have "x \<in> set (db_orders db)" and "ord_id x = i"
    by (auto simp: find_Some_iff)
  then show ?thesis by (auto simp: p_view_def image_image)
qed

lemma bound_package_simulates:
  assumes inv: "db_inv (app_store st)"
    and run: "get_bound_profile_package sqlite_store L env st q = (out, st')"
  shows "proto_step (protocol_of st) (action_of (Http env (BoundPackageRequest q) out))
    (protocol_of st')"
  using run
proof (cases rule: get_bound_profile_package_cases)
  case failed
  with bound_package_not_delivered [OF run]
  have "protocol_of st' = protocol_of st" by (simp add: protocol_of_def)
  with failed(2) show ?thesis
    using proto_step.stutters by (auto split: outcome.split body.split)
next
  case (success otsk_dp ent i upp sess bpp)
  let ?k = "grq_transaction_id q" and ?os = "p_view (db_orders (app_store st'))"
  have "proto_step (protocol_of st) (Delivers ?k)
      \<lparr> p_sessions = (p_sessions (protocol_of st))(?k := None), p_orders = ?os \<rparr>"
    using success(3,4,8) find_upp_known [OF inv success(5)] set_state_view [OF inv, of i Downloaded]
    by (intro proto_step.delivers) (auto simp: protocol_of_def)
  moreover have "protocol_of st' =
      \<lparr> p_sessions = (p_sessions (protocol_of st))(?k := None), p_orders = ?os \<rparr>"
    using success(8) by (intro protocol_eqI) (auto simp: protocol_of_def sess_tab.get_del)
  ultimately show ?thesis using success(7) by simp
qed

lemma move_order_cases:
  obtains "move_order S db ord v = db"
  | i s where "s = Downloaded \<or> s = Failed" "move_order S db ord v = fst (set_state S db i s)"
proof (cases "\<exists>n x. v = Some n \<and> ord = Some x \<and> is_installation_result n")
  case True
  then obtain n x where "v = Some n" "ord = Some x" "is_installation_result n" by blast
  then show ?thesis
    by (intro that(2) [where i = "ord_id x" and s = "if nt_installed n then Downloaded else Failed"])
      (simp_all add: move_order_def)
next
  case False
  then show ?thesis by (auto simp: move_order_def intro!: that(1) split: option.split)
qed

lemma move_order_view:
  assumes inv: "db_inv db"
  shows "\<exists>s. (s = Downloaded \<or> s = Failed)
    \<and> (p_view (db_orders (move_order sqlite_store db ord v)) = p_view (db_orders db)
       \<or> (\<exists>i. p_view (db_orders (move_order sqlite_store db ord v)) = p_set i s (p_view (db_orders db))))"
proof (cases rule: move_order_cases [of sqlite_store db ord v])
  case (2 i s)
  with set_state_view [OF inv, of i s] show ?thesis by auto
qed auto

lemma notification_simulates:
  assumes inv: "db_inv (app_store st)" and run: "handle_notification sqlite_store L st q = (out, st')"
  shows "proto_step (protocol_of st) Reports (protocol_of st')"
proof -
  obtain ord v m raw where store:
    "app_store st' = move_order sqlite_store
       (keep_notification sqlite_store (app_store st) ord v m raw) ord v"
    using run by (auto simp: handle_notification_def Let_def)
  note kept = sqlite.keep_notification_frame [OF inv, of ord v m raw]
  obtain s where s: "s = Downloaded \<or> s = Failed"
    and moved: "p_view (db_orders (app_store st')) = p_view (db_orders (app_store st))
       \<or> (\<exists>i. p_view (db_orders (app_store st')) = p_set i s (p_view (db_orders (app_store st))))"
    using move_order_view [OF kept(1), of ord v] unfolding store kept(2) by blast
  have "protocol_of st' = (protocol_of st)\<lparr>p_orders := p_view (db_orders (app_store st'))\<rparr>"
    using handle_notification_sessions [OF run]
    by (intro protocol_eqI) (simp_all add: protocol_of_def sessions_of_def)
  with proto_step.reports [of "p_view (db_orders (app_store st'))" "protocol_of st" s] s moved
  show ?thesis by (auto simp: protocol_of_def)
qed

lemma add_view: "p_view (os @ [x]) = p_view os @ [(ord_id x, ord_state x)]"
  by (simp add: p_view_def)

lemma run_order_view:
  assumes inv: "db_inv db" and run: "run_order fs r db cmd = (db', res)"
  shows "p_view (db_orders db') = p_view (db_orders db)
    \<or> (\<exists>i. p_view (db_orders db') = p_set i Available (p_view (db_orders db)))
    \<or> (\<exists>i. i \<notin> fst ` set (p_view (db_orders db))
          \<and> p_view (db_orders db') = p_view (db_orders db) @ [(i, Available)])"
proof (cases cmd)
  case (Add args)
  then have "run_order_add fs r db args = (db', res)"
    using run by (simp add: run_order_def)
  from run_order_add_effect [OF inv this] show ?thesis
    unfolding fst_p_view using add_view by auto
next
  case (Reset i)
  then obtain u where "run_order_reset db i = (db', u)"
    using run by (auto simp: run_order_def split: prod.splits)
  from run_order_reset_effect [OF inv this] show ?thesis by auto
next
  case ListOrders
  then obtain u where "run_order_list db = (db', u)"
    using run by (auto simp: run_order_def split: prod.splits)
  from run_order_list_effect [OF inv this] show ?thesis by simp
qed

lemma sys_step_simulates:
  assumes inv: "sys_inv L st" and step: "sys_step L st ev st'"
  shows "proto_step (protocol_of st) (action_of ev) (protocol_of st')"
proof -
  have db: "db_inv (app_store st)" using inv by (simp add: sys_inv_def)
  from step show ?thesis
  proof cases
    case (http env r out)
    then show ?thesis
      using initiate_simulates authenticate_simulates [OF db] bound_package_simulates [OF db]
        notification_simulates [OF db]
      by (cases r) (simp_all del: action_of.simps(1-3))
  next
    case (command fs rg cmd db' res)
    have "protocol_of st' = (protocol_of st)\<lparr>p_orders := p_view (db_orders db')\<rparr>"
      by (rule protocol_eqI) (simp_all add: command protocol_of_def sessions_of_def)
    with proto_step.administers [of "p_view (db_orders db')" "protocol_of st"]
      run_order_view [OF db command(3)] command(1)
    show ?thesis by (simp add: protocol_of_def)
  next
    case (weather f)
    have "protocol_of st' = protocol_of st"
      by (rule protocol_eqI) (simp_all add: weather protocol_of_def sessions_of_def)
    with weather show ?thesis by (simp add: proto_step.stutters)
  next
    case (restart db')
    have "db' = app_store st"
      using sqlite_open_current [OF db] restart(3) by simp
    then have "protocol_of st' = (protocol_of st)\<lparr>p_sessions := Map.empty\<rparr>"
      by (intro protocol_eqI)
        (simp_all add: restart protocol_of_def router_state_def sessions_of_def sess_tab.get_empty)
    with restart show ?thesis by (simp add: proto_step.restarts)
  qed
qed

interpretation download: forward_simulation sys_init "sys_step L" "sys_inv L" proto_step protocol_of
    action_of for L
  by unfold_locales (rule sys_step_simulates)

section \<open>What the protocol guarantees\<close>

lemma proto_session_count:
  assumes "run_of proto_step a acs a'" and "p_sessions a = Map.empty"
  shows "count_list acs (Delivers k) + (if k \<in> dom (p_sessions a') then 1 else 0)
    \<le> count_list acs (Opens k)"
  using assms
proof (induction rule: run_of.induct)
  case (run_snoc a acs a' ac a'')
  then have IH: "count_list acs (Delivers k) + (if k \<in> dom (p_sessions a') then 1 else 0)
      \<le> count_list acs (Opens k)" by simp
  from run_snoc.hyps(2) show ?case
  proof cases
    case (opens m j)
    have "m k = None \<or> p_sessions a' k \<noteq> None"
      using opens(3) unfolding map_le_def by (metis domIff)
    with IH opens show ?thesis by (auto split: if_splits)
  qed (use IH in \<open>auto split: if_splits\<close>)
qed simp

lemma protocol_init: "sys_init st \<Longrightarrow> p_sessions (protocol_of st) = Map.empty"
  by (auto simp: sys_init_def protocol_of_def router_state_def sessions_of_def sess_tab.get_empty)

section \<open>Which order a session is bound to\<close>

text \<open>
  In a run that did \<open>evs\<close>: the last acceptance of the session \<open>k\<close>, with no opening of it and no
  restart since, found the order \<open>i\<close> to be the only one on offer.
\<close>

definition bound_by ::
  "'s rsp_lib \<Rightarrow> 's server \<Rightarrow> event list \<Rightarrow> 's server \<Rightarrow> bytes \<Rightarrow> int \<Rightarrow> bool"
where
  "bound_by L st0 evs st k i \<longleftrightarrow>
     (\<exists>evs1 ev evs2 st1 x.
        evs = evs1 @ ev # evs2 \<and> action_of ev = Accepts k
        \<and> action_of ` set evs2 \<inter> {Accepts k, Opens k, Restarts} = {}
        \<and> sys_run L st0 evs1 st1 \<and> sys_run L st1 (ev # evs2) st
        \<and> filter offered (db_orders (app_store st1)) = [x] \<and> ord_id x = i)"

lemma bound_by_snoc:
  assumes "bound_by L st0 evs st k i" and "sys_step L st ev st'"
    and "action_of ev \<notin> {Accepts k, Opens k, Restarts}"
  shows "bound_by L st0 (evs @ [ev]) st' k i"
proof -
  obtain evs1 ev1 evs2 st1 x where *: "evs = evs1 @ ev1 # evs2" "action_of ev1 = Accepts k"
    "action_of ` set evs2 \<inter> {Accepts k, Opens k, Restarts} = {}"
    "sys_run L st0 evs1 st1" "sys_run L st1 (ev1 # evs2) st"
    "filter offered (db_orders (app_store st1)) = [x]" "ord_id x = i"
    using assms(1) by (auto simp: bound_by_def)
  have "evs @ [ev] = evs1 @ ev1 # (evs2 @ [ev])"
    and "action_of ` set (evs2 @ [ev]) \<inter> {Accepts k, Opens k, Restarts} = {}"
    and "sys_run L st1 (ev1 # (evs2 @ [ev])) st'"
    using * assms(3) run_of.run_snoc [OF *(5) assms(2)] by auto
  with * show ?thesis unfolding bound_by_def by blast
qed

lemma bound_by_accept:
  assumes "sys_run L st0 evs st" and "sys_step L st ev st'" and "action_of ev = Accepts k"
    and "p_offered (p_orders (protocol_of st)) = [i]"
  shows "bound_by L st0 (evs @ [ev]) st' k i"
proof -
  have "map ord_id (filter offered (db_orders (app_store st))) = [i]"
    using assms(4) by (simp add: protocol_of_def p_offered_view)
  then obtain x where "filter offered (db_orders (app_store st)) = [x]" "ord_id x = i"
    by (cases "filter offered (db_orders (app_store st))") auto
  with assms(1,3) run_of_one [of "sys_step L", OF assms(2)] show ?thesis
    unfolding bound_by_def by (intro exI [of _ evs] exI [of _ ev] exI [of _ "[]"] exI [of _ st]) auto
qed

lemma session_bound_by:
  assumes "sys_run L st0 evs st" and "sys_init st0"
    and "p_sessions (protocol_of st) k = Some (PhBound i)"
  shows "bound_by L st0 evs st k i"
  using assms
proof (induction arbitrary: k i rule: run_of.induct)
  case (run_nil st)
  then show ?case using protocol_init by (metis option.distinct(1))
next
  case (run_snoc st0 evs st ev st')
  have "sys_inv L st"
    using run_snoc.hyps(1) run_snoc.prems(1) by (rule server_system.reachable_inv)
  from sys_step_simulates [OF this run_snoc.hyps(2)] show ?case
  proof (cases rule: proto_step.cases)
    case (opens m j)
    with run_snoc.prems(2) have "k \<noteq> j" and "p_sessions (protocol_of st) k = Some (PhBound i)"
      by (auto simp: map_le_def dom_def split: if_splits)
    with run_snoc opens(1) show ?thesis by (intro bound_by_snoc [OF _ run_snoc.hyps(2)]) auto
  next
    case (accepts j i' os)
    show ?thesis
    proof (cases "k = j")
      case True
      with accepts run_snoc.prems(2) have "i' = i" by simp
      with True accepts bound_by_accept [OF run_snoc.hyps] show ?thesis by simp
    next
      case False
      with run_snoc accepts show ?thesis by (intro bound_by_snoc [OF _ run_snoc.hyps(2)]) auto
    qed
  qed (use run_snoc in \<open>auto intro!: bound_by_snoc [OF _ run_snoc.hyps(2)] split: if_splits\<close>)
qed

text \<open>An order found later under the same id has the same UPP.\<close>

lemma same_upp:
  assumes ext: "orders_extend xs (db_orders db)" and inv: "db_inv db" and x: "x \<in> set xs"
    and upp: "find_upp sqlite_store db (Some (ord_id x)) = Some u"
  shows "u = ord_upp x"
proof -
  obtain n where n: "n < length xs" "xs ! n = x"
    using x by (auto simp: in_set_conv_nth)
  have all: "list_all2 same_order xs (take (length xs) (db_orders db))"
    using ext by (simp add: orders_extend_def)
  then have len: "length xs \<le> length (db_orders db)"
    by (auto dest: list_all2_lengthD)
  define y where "y = db_orders db ! n"
  have same: "same_order x y" and y: "y \<in> set (db_orders db)"
    using list_all2_nthD [OF all n(1)] n len by (simp_all add: y_def)
  obtain os where "list_orders sqlite_store db = Inr os"
    and "map_option ord_upp (find (\<lambda>z. ord_id z = ord_id x) os) = Some u"
    using upp by (auto simp: find_upp_def split: option.splits)
  then have "map_option ord_upp (find (\<lambda>z. ord_id z = ord_id x) (db_orders db)) = Some u"
    using sqlite.list_orders_Inr [OF inv] by simp
  moreover have "find (\<lambda>z. ord_id z = ord_id y) (db_orders db) = Some y"
    using sqlite.ids_distinct [OF inv] y by (rule find_map_distinct_key)
  ultimately show ?thesis using same by (simp add: same_order_def)
qed

section \<open>Properties\<close>

text \<open>
  C6: the program refines the download protocol. Seen as phases of sessions and states of
  orders, every event of a run from a freshly created server is the protocol step its answer
  announces: a handed-out transactionId opens a session; an accepted AuthenticateClient binds the
  session to the one order on offer and makes at most that order Bound; a delivered package ends a
  bound session and makes at most its order Downloaded; notifications, commands and restarts do
  what the protocol says; and every refused request, panic and database failure is a stutter.
\<close>

theorem program_refines_the_protocol:
  assumes "sys_init st0" and "sys_run L st0 evs st"
  shows "run_of proto_step (protocol_of st0) (map action_of evs) (protocol_of st)
    \<and> p_sessions (protocol_of st0) = Map.empty"
  using download.run_simulates [OF assms(2) server_system.init_inv [OF assms(1)]]
    protocol_init [OF assms(1)] by blast

text \<open>
  C12: a session delivers at most once. In any run from a freshly created server, the packages
  delivered under a transactionId are at most as many as the InitiateAuthentications that
  handed that transactionId out: a repeated GetBoundProfilePackage never gets a second package.
\<close>

theorem a_session_delivers_at_most_once:
  assumes "sys_init st0" and "sys_run L st0 evs st"
  shows "count_list (map action_of evs) (Delivers k) \<le> count_list (map action_of evs) (Opens k)"
proof -
  have "run_of proto_step (protocol_of st0) (map action_of evs) (protocol_of st)"
    using download.run_simulates [OF assms(2) server_system.init_inv [OF assms(1)]] .
  from proto_session_count [OF this protocol_init [OF assms(1)], of k] show ?thesis by linarith
qed

text \<open>
  C2: the Profile that is delivered is the one that was on offer. When a run from a freshly
  created server delivers a package, then its last accepted AuthenticateClient under that
  transactionId, with no new opening of it and no restart since, found exactly one order on offer,
  and the package is what the library made from that very order's UPP, whatever was added, reset,
  reported or delivered in between.
\<close>

theorem the_profile_on_offer_is_delivered:
  assumes init: "sys_init st0" and run: "sys_run L st0 evs st"
    and "sys_step L st (Http env (BoundPackageRequest q) (Ret resp)) st'"
    and "resp_body resp = BoundPackageBody b"
  shows "\<exists>evs1 ev evs2 st1 x sess sess' otsk bpp.
    evs = evs1 @ ev # evs2 \<and> action_of ev = Accepts (grq_transaction_id q)
    \<and> action_of ` set evs2
        \<inter> {Accepts (grq_transaction_id q), Opens (grq_transaction_id q), Restarts} = {}
    \<and> sys_run L st0 evs1 st1 \<and> filter offered (db_orders (app_store st1)) = [x]
    \<and> dp_get_bound_profile_package L sess (grq_prepare_download_response q) (ord_upp x) otsk
        = (sess', Inr bpp)
    \<and> gbr_bound_profile_package b = as_slice bpp"
proof -
  have inv: "db_inv (app_store st)"
    using server_system.reachable_inv [OF run init] by (simp add: sys_inv_def)
  have "get_bound_profile_package sqlite_store L env st q = (Ret resp, st')"
    using assms(3) by (simp add: sys_step_Http_iff)
  then show ?thesis
  proof (cases rule: get_bound_profile_package_cases)
    case failed
    with assms(4) show ?thesis by blast
  next
    case (success otsk_dp ent i upp sess bpp)
    have "bound_by L st0 evs st (grq_transaction_id q) i"
      using session_bound_by [OF run init] success(3,4) by (simp add: protocol_of_def)
    then obtain evs1 ev evs2 st1 x where at: "evs = evs1 @ ev # evs2"
      "action_of ev = Accepts (grq_transaction_id q)"
      "action_of ` set evs2
        \<inter> {Accepts (grq_transaction_id q), Opens (grq_transaction_id q), Restarts} = {}"
      "sys_run L st0 evs1 st1" "sys_run L st1 (ev # evs2) st"
      "filter offered (db_orders (app_store st1)) = [x]" "ord_id x = i"
      unfolding bound_by_def by blast
    have "db_inv (app_store st1)"
      using server_system.reachable_inv [OF at(4) init] by (simp add: sys_inv_def)
    then have "orders_extend (db_orders (app_store st1)) (db_orders (app_store st))"
      using sys_run_store [OF at(5)] by blast
    moreover have "x \<in> set (db_orders (app_store st1))"
      using arg_cong [OF at(6), of set] by auto
    ultimately have "upp = ord_upp x"
      using same_upp [OF _ inv] success(5) at(7) by blast
    moreover have "gbr_bound_profile_package b = as_slice bpp"
      using success(7) assms(4) by auto
    ultimately show ?thesis
      using at(1-4,6) success(6)
      by (intro exI [of _ evs1] exI [of _ ev] exI [of _ evs2] exI [of _ st1] exI [of _ x]
          exI [of _ "session ent"] exI [of _ sess] exI [of _ otsk_dp] exI [of _ bpp]) simp
  qed
qed

section \<open>The properties at work\<close>

theorem program_refines_the_protocol_witness:
  "run_of proto_step (protocol_of fresh_server) [Administers] (protocol_of demo_server)"
  using program_refines_the_protocol [OF fresh_run] by simp

theorem a_session_delivers_at_most_once_witness:
  "\<exists>evs st. sys_run demo_lib fresh_server evs st \<and> Delivers (demo_tid 1) \<in> set (map action_of evs)
     \<and> count_list (map action_of evs) (Delivers (demo_tid 1))
         \<le> count_list (map action_of evs) (Opens (demo_tid 1))"
proof -
  obtain evs st st' where run: "sys_run demo_lib fresh_server evs st"
    and step: "sys_step demo_lib st
         (Http (demo_env 1) (BoundPackageRequest (demo_get_package 1)) (Ret (demo_package 1))) st'"
    using delivered_run by blast
  note all = run_of.run_snoc [OF run step]
  have "action_of (Http (demo_env 1) (BoundPackageRequest (demo_get_package 1)) (Ret (demo_package 1)))
      = Delivers (demo_tid 1)"
    by (simp add: demo_package_def demo_get_package_def)
  with all a_session_delivers_at_most_once [OF fresh_run(1) all, of "demo_tid 1"] show ?thesis
    by (intro exI conjI) (assumption | simp)+
qed

theorem the_profile_on_offer_is_delivered_witness:
  "\<exists>evs1 st1 x sess sess' otsk bpp. sys_run demo_lib fresh_server evs1 st1
     \<and> filter offered (db_orders (app_store st1)) = [x]
     \<and> dp_get_bound_profile_package demo_lib sess [0x30] (ord_upp x) otsk = (sess', Inr bpp)
     \<and> [1, 2, 3, 1] = as_slice bpp"
proof -
  obtain evs st st' where run: "sys_run demo_lib fresh_server evs st"
    and step: "sys_step demo_lib st
         (Http (demo_env 1) (BoundPackageRequest (demo_get_package 1)) (Ret (demo_package 1))) st'"
    using delivered_run by blast
  from the_profile_on_offer_is_delivered [OF fresh_run(1) this] show ?thesis
    by (auto simp: demo_package_def demo_get_package_def) blast
qed

end
