(* ===== verification/Lifetimes.thy ===== *)
theory Lifetimes
  imports Protocol
begin

text \<open>
  How many sessions the server keeps in memory, and for how long. The table is swept in one
  place only, when a session is inserted: right after a successful InitiateAuthentication it holds
  no more sessions than were opened in the last ten minutes, and between two of them it holds
  every session however old it becomes. A download that was accepted is served, whatever happens in
  between, if its session is spared.
\<close>

section \<open>When a session was opened\<close>

text \<open>The transactionId an event handed out and the time it did so.\<close>

fun opening_of :: "event \<Rightarrow> (bytes \<times> instant) option" where
  "opening_of (Http env (InitiateRequest q) (Ret resp)) =
     (case resp_body resp of
        InitiateBody b \<Rightarrow> Some (iar_transaction_id b, now env)
      | _ \<Rightarrow> None)"
| "opening_of _ = None"

definition openings :: "event list \<Rightarrow> (bytes \<times> instant) list" where
  "openings evs = List.map_filter opening_of (since_restart evs)"

text \<open>The openings that are younger than \<open>MAX_AGE\<close> at a given time.\<close>

definition recent_openings :: "instant \<Rightarrow> event list \<Rightarrow> (bytes \<times> instant) list" where
  "recent_openings t evs = filter (\<lambda>(k, t0). t - t0 < MAX_AGE) (openings evs)"

definition live_sessions :: "'s server \<Rightarrow> bytes set" where
  "live_sessions st = {k. get_session k (sessions_of st) \<noteq> None}"

lemma openings_snoc [simp]:
  "openings (evs @ [ev]) =
     (if is_restart ev then []
      else openings evs @ (case opening_of ev of None \<Rightarrow> [] | Some p \<Rightarrow> [p]))"
  by (auto simp: openings_def List.map_filter_def split: option.split)

lemma opening_of_opens: "opening_of ev = Some (k, t) \<Longrightarrow> action_of ev = Opens k"
  by (cases ev rule: opening_of.cases) (auto split: body.splits)

text \<open>Every session in the table was opened at the time it is said to have been born.\<close>

definition births_ok :: "event list \<Rightarrow> 's server \<Rightarrow> bool" where
  "births_ok evs st \<longleftrightarrow>
     (\<forall>k e. get_session k (sessions_of st) = Some e \<longrightarrow> (k, born e) \<in> set (openings evs))"

lemma authenticate_order_births:
  "authenticate_order S L st q ord = (out, st') \<Longrightarrow> get_session k (sessions_of st') = Some e \<Longrightarrow>
     \<exists>e0. get_session k (sessions_of st) = Some e0 \<and> born e0 = born e"
  by (auto simp: authenticate_order_def Let_def sess_tab.get_put
      split: if_splits option.splits prod.splits sum.splits outcome.splits)

lemma bound_package_births:
  "get_bound_profile_package S L env st q = (out, st') \<Longrightarrow>
     get_session k (sessions_of st') = Some e \<Longrightarrow>
     \<exists>e0. get_session k (sessions_of st) = Some e0 \<and> born e0 = born e"
  by (auto simp: get_bound_profile_package_def Let_def sess_tab.get_put sess_tab.get_del
      split: if_splits option.splits prod.splits sum.splits outcome.splits)

lemma handle_births:
  assumes run: "handle S L env st r = (out, st')" and e: "get_session k (sessions_of st') = Some e"
  shows "(\<exists>e0. get_session k (sessions_of st) = Some e0 \<and> born e0 = born e)
    \<or> opening_of (Http env r out) = Some (k, born e)"
proof (cases r)
  case (InitiateRequest q)
  then have "initiate_authentication L env st q = (out, st')" using run by simp
  then show ?thesis
  proof (cases rule: initiate_authentication_cases)
    case failed
    with e show ?thesis by blast
  next
    case success
    with e InitiateRequest show ?thesis by (auto simp: sess_tab.get_ins split: if_splits option.splits)
  qed
next
  case (AuthenticateRequest q)
  then have "authenticate_client S L st q = (out, st')" using run by simp
  then show ?thesis
    by (cases rule: authenticate_client_order) (use e authenticate_order_births in \<open>blast+\<close>)
next
  case (BoundPackageRequest q)
  then have "get_bound_profile_package S L env st q = (out, st')" using run by simp
  from bound_package_births [OF this e] show ?thesis by blast
next
  case (NotificationRequest q)
  then have "handle_notification S L st q = (out, st')" using run by simp
  from handle_notification_sessions [OF this] e show ?thesis by (simp add: sessions_of_def)
qed

lemma births_ok_step:
  assumes ok: "births_ok evs st" and step: "sys_step L st ev st'"
  shows "births_ok (evs @ [ev]) st'"
  using step
proof cases
  case (http env r out)
  have "\<not> is_restart ev" using http by simp
  then show ?thesis
    using ok handle_births [OF http(2)] unfolding births_ok_def http(1) by fastforce
next
  case (restart db')
  then show ?thesis
    by (simp add: births_ok_def router_state_def sessions_of_def sess_tab.get_empty)
qed (use ok in \<open>auto simp: births_ok_def sessions_of_def\<close>)

lemma births_ok_run: "sys_run L st0 evs st \<Longrightarrow> sys_init st0 \<Longrightarrow> births_ok evs st"
proof (induction rule: run_of.induct)
  case (run_nil st)
  then show ?case
    by (auto simp: sys_init_def births_ok_def router_state_def sessions_of_def sess_tab.get_empty)
qed (blast intro: births_ok_step)

section \<open>How many there are\<close>

lemma card_fst_le:
  assumes "A \<subseteq> fst ` set xs"
  shows "finite A \<and> card A \<le> length xs"
  using assms surj_card_le [of "set xs" A fst] card_length [of xs] finite_subset
  by (meson List.finite_set finite_imageI order_trans)

lemma swept_live_sessions:
  assumes run: "initiate_authentication L env st q = (Ret resp, st')"
    and "resp_body resp = InitiateBody b" and ok: "births_ok evs st'"
  shows "live_sessions st' \<subseteq> fst ` set (recent_openings (now env) evs)"
  using run
proof (cases rule: initiate_authentication_cases)
  case failed
  with assms(2) show ?thesis by blast
next
  case (success tid rng1 schal rng2 sess der f)
  show ?thesis
  proof
    fix k assume "k \<in> live_sessions st'"
    then obtain e where e: "get_session k (sessions_of st') = Some e"
      by (auto simp: live_sessions_def)
    have "now env - born e < MAX_AGE"
      using sess_tab.ins_only_young e success(8) by fastforce
    with ok e show "k \<in> fst ` set (recent_openings (now env) evs)"
      by (force simp: births_ok_def recent_openings_def)
  qed
qed

lemma live_sessions_openings: "births_ok evs st \<Longrightarrow> live_sessions st \<subseteq> fst ` set (openings evs)"
  by (force simp: births_ok_def live_sessions_def)

section \<open>How long they stay\<close>

lemma handle_keeps_session:
  assumes run: "handle S L env st r = (out, st')" and k: "k \<in> live_sessions st"
    and quiet: "\<forall>j. action_of (Http env r out) \<noteq> Opens j" "action_of (Http env r out) \<noteq> Delivers k"
  shows "k \<in> live_sessions st'"
proof (cases r)
  case (InitiateRequest q)
  then have "initiate_authentication L env st q = (out, st')" using run by simp
  then show ?thesis
    by (cases rule: initiate_authentication_cases) (use k quiet InitiateRequest in auto)
next
  case (AuthenticateRequest q)
  then have "authenticate_client S L st q = (out, st')" using run by simp
  then show ?thesis
  proof (cases rule: authenticate_client_order)
    case (2 orders ord)
    from 2(3) k show ?thesis
      by (auto simp: live_sessions_def authenticate_order_def Let_def sess_tab.get_put
          split: if_splits option.splits prod.splits sum.splits outcome.splits)
  qed (use k in simp)
next
  case (BoundPackageRequest q)
  then have pkg: "get_bound_profile_package S L env st q = (out, st')" using run by simp
  then show ?thesis
  proof (cases rule: get_bound_profile_package_cases)
    case failed
    with bound_package_not_delivered [OF pkg, of k] k show ?thesis
      by (auto simp: live_sessions_def)
  next
    case success
    with quiet(2) k BoundPackageRequest show ?thesis
      by (auto simp: live_sessions_def sess_tab.get_del)
  qed
next
  case (NotificationRequest q)
  then have "handle_notification S L st q = (out, st')" using run by simp
  from handle_notification_sessions [OF this] k show ?thesis
    by (simp add: live_sessions_def sessions_of_def)
qed

definition quiet_for :: "bytes \<Rightarrow> event \<Rightarrow> bool" where
  "quiet_for k ev \<longleftrightarrow> (\<forall>j. action_of ev \<noteq> Opens j) \<and> action_of ev \<noteq> Delivers k \<and> action_of ev \<noteq> Restarts"

lemma quiet_step_keeps_session:
  assumes "sys_step L st ev st'" and "k \<in> live_sessions st" and "quiet_for k ev"
  shows "k \<in> live_sessions st'"
  using assms(1)
proof cases
  case (http env r out)
  with handle_keeps_session [OF http(2) assms(2)] assms(3) show ?thesis
    by (simp add: quiet_for_def)
qed (use assms(2,3) in \<open>auto simp: live_sessions_def sessions_of_def quiet_for_def\<close>)

lemma quiet_run_keeps_session:
  "sys_run L st evs st' \<Longrightarrow> list_all (quiet_for k) evs \<Longrightarrow> k \<in> live_sessions st \<Longrightarrow>
     k \<in> live_sessions st'"
  by (induction rule: run_of.induct) (auto intro: quiet_step_keeps_session)

text \<open>
  Events that leave a session opened at \<open>t0\<close> exactly as it is: no restart, no request under its
  transactionId, and no InitiateAuthentication that is ten minutes or more after \<open>t0\<close> or hands
  the transactionId out again.
\<close>

definition spares :: "bytes \<Rightarrow> instant \<Rightarrow> event \<Rightarrow> bool" where
  "spares k t0 ev \<longleftrightarrow>
     action_of ev \<noteq> Restarts \<and> action_of ev \<noteq> Opens k
     \<and> (case ev of
          Http env (InitiateRequest q) _ \<Rightarrow> now env - t0 < MAX_AGE
        | Http env (AuthenticateRequest q) _ \<Rightarrow> arq_transaction_id q \<noteq> k
        | Http env (BoundPackageRequest q) _ \<Rightarrow> grq_transaction_id q \<noteq> k
        | _ \<Rightarrow> True)"

lemma handle_spares_session:
  assumes run: "handle S L env st r = (out, st')"
    and k: "get_session k (sessions_of st) = Some e"
    and sp: "spares k (born e) (Http env r out)"
  shows "get_session k (sessions_of st') = Some e"
proof (cases r)
  case (InitiateRequest q)
  then have "initiate_authentication L env st q = (out, st')" using run by simp
  then show ?thesis
    by (cases rule: initiate_authentication_cases)
      (use k sp InitiateRequest in \<open>auto simp: spares_def sess_tab.get_ins\<close>)
next
  case (AuthenticateRequest q)
  then have "authenticate_client S L st q = (out, st')" using run by simp
  then show ?thesis
  proof (cases rule: authenticate_client_order)
    case (2 orders ord)
    from 2(3) k sp AuthenticateRequest show ?thesis
      by (auto simp: spares_def authenticate_order_def Let_def sess_tab.get_put
          split: if_splits option.splits prod.splits sum.splits outcome.splits)
  qed (use k in simp)
next
  case (BoundPackageRequest q)
  then have "get_bound_profile_package S L env st q = (out, st')" using run by simp
  with k sp BoundPackageRequest show ?thesis
    by (auto simp: spares_def get_bound_profile_package_def Let_def sess_tab.get_put sess_tab.get_del
        split: if_splits option.splits prod.splits sum.splits outcome.splits)
next
  case (NotificationRequest q)
  then have "handle_notification S L st q = (out, st')" using run by simp
  from handle_notification_sessions [OF this] k show ?thesis by (simp add: sessions_of_def)
qed

lemma spared_run_keeps_session:
  "sys_run L st evs st' \<Longrightarrow> get_session k (sessions_of st) = Some e \<Longrightarrow>
     list_all (spares k (born e)) evs \<Longrightarrow> get_session k (sessions_of st') = Some e"
proof (induction rule: run_of.induct)
  case (run_snoc st evs mid ev st')
  then have mid: "get_session k (sessions_of mid) = Some e" and sp: "spares k (born e) ev"
    by auto
  show ?case
    using run_snoc.hyps(2)
  proof cases
    case (http env r out)
    with handle_spares_session [OF http(2) mid] sp show ?thesis by simp
  qed (use mid sp in \<open>auto simp: sessions_of_def spares_def\<close>)
qed

text \<open>An order that was there once is found later under the same id, with the same UPP.\<close>

lemma upp_still_there:
  assumes ext: "orders_extend xs (db_orders db)" and inv: "db_inv db" and x: "x \<in> set xs"
    and "faults db SelectOrders = None"
  shows "find_upp sqlite_store db (Some (ord_id x)) = Some (ord_upp x)"
proof -
  obtain n where n: "n < length xs" "xs ! n = x"
    using x by (auto simp: in_set_conv_nth)
  have all: "list_all2 same_order xs (take (length xs) (db_orders db))"
    using ext by (simp add: orders_extend_def)
  then have "length xs \<le> length (db_orders db)"
    by (auto dest: list_all2_lengthD)
  then have "same_order x (db_orders db ! n)" and "db_orders db ! n \<in> set (db_orders db)"
    using list_all2_nthD [OF all n(1)] n by simp_all
  then have "find (\<lambda>z. ord_id z = ord_id x) (db_orders db) \<noteq> None"
    by (auto simp: find_None_iff same_order_def)
  then obtain u where "find_upp sqlite_store db (Some (ord_id x)) = Some u"
    using assms(4) by (auto simp: find_upp_def sqlite_list_orders_eq [OF inv])
  with same_upp [OF ext inv x this] show ?thesis by simp
qed

text \<open>The answer under a bound session whose order can be read.\<close>

lemma package_answer:
  assumes "cfg_nonces (app_config st) = os_nonces" and "\<not> poisoned (app_sessions st)"
    and "csprng_up (rng env)" and "get_session (grq_transaction_id req) (sessions_of st) = Some ent"
    and "entry_order_id ent = Some i" and "find_upp S (app_store st) (Some i) = Some upp"
  shows "\<exists>out st'. get_bound_profile_package S L env st req = (Ret out, st')
    \<and> (case dp_get_bound_profile_package L (session ent) (grq_prepare_download_response req) upp
            (map (\<lambda>k. tape (rng env) (pos (rng env) + k)) [0..<32]) of
        (_, Inr bpp) \<Rightarrow>
          out = ok_json (BoundPackageBody
            \<lparr> gbr_header = header_success, gbr_transaction_id = grq_transaction_id req,
              gbr_bound_profile_package = as_slice bpp \<rparr>)
          \<and> get_session (grq_transaction_id req) (sessions_of st') = None
      | (sess, Inl e) \<Rightarrow>
          out = from_rsp_error e TRANSACTION_ID
          \<and> get_session (grq_transaction_id req) (sessions_of st')
              = Some (ent\<lparr>session := sess, entry_order_id := Some i\<rparr>))"
proof -
  let ?otsk = "map (\<lambda>k. tape (rng env) (pos (rng env) + k)) [0..<32]"
  have "map (tape (rng env)) [pos (rng env) ..< pos (rng env) + 32] = ?otsk"
    by (rule nth_equalityI) simp_all
  then have otsk: "fst (nonce_otsk_dp os_nonces (rng env)) = Ret ?otsk"
    using assms(3)
    by (simp add: os_nonces_def os_nonces_fill_def getrandom_fill_def del: upt_rec_numeral)
  obtain sess r where dp: "dp_get_bound_profile_package L (session ent)
      (grq_prepare_download_response req) upp ?otsk = (sess, r)"
    by force
  have same: "ent\<lparr>session := sess, entry_order_id := Some i\<rparr> = ent\<lparr>session := sess\<rparr>"
    using assms(5) by simp
  show ?thesis
    unfolding dp same using assms otsk dp
    by (cases r)
      (simp_all add: get_bound_profile_package_def Let_def sess_tab.get_del sess_tab.get_put
        del: upt_rec_numeral)
qed

section \<open>Properties\<close>

text \<open>
  C24: memory is bounded where it is swept. In every state that any run from a freshly created
  server reaches, whatever library, faults and poison it has met, the table holds at most as many
  sessions as were opened since the server was last started; and in every state that a successful
  InitiateAuthentication leads to from there, it holds at most as many as were opened in the ten
  minutes before it, itself included.
\<close>

theorem sessions_are_bounded_by_openings:
  assumes "sys_init st0" and "sys_run L st0 evs st"
  shows "finite (live_sessions st) \<and> card (live_sessions st) \<le> length (openings evs)
    \<and> (\<forall>env q resp b st'.
      sys_step L st (Http env (InitiateRequest q) (Ret resp)) st' \<and> resp_body resp = InitiateBody b
      \<longrightarrow> finite (live_sessions st')
        \<and> card (live_sessions st')
            \<le> length (recent_openings (now env) (evs @ [Http env (InitiateRequest q) (Ret resp)])))"
proof -
  have ok: "births_ok evs st"
    using births_ok_run [OF assms(2,1)] .
  have now: "finite (live_sessions st)" "card (live_sessions st) \<le> length (openings evs)"
    using live_sessions_openings [OF ok] card_fst_le by blast+
  have "finite (live_sessions st')
      \<and> card (live_sessions st')
          \<le> length (recent_openings (now env) (evs @ [Http env (InitiateRequest q) (Ret resp)]))"
    if step: "sys_step L st (Http env (InitiateRequest q) (Ret resp)) st'"
      and opened: "resp_body resp = InitiateBody b" for env q resp b st'
  proof -
    have "initiate_authentication L env st q = (Ret resp, st')"
      using step by (simp add: sys_step_Http_iff)
    from swept_live_sessions [OF this opened births_ok_step [OF ok step]] show ?thesis
      using card_fst_le by blast
  qed
  with now show ?thesis by blast
qed

text \<open>
  C25: a session that never finishes stays in memory. As long as no InitiateAuthentication succeeds,
  no package is delivered under its transactionId and the server is not restarted, a session
  stays in the table and can be found by its transactionId, whatever else happens and however much
  time passes: nothing but an insertion sweeps, and neither AuthenticateClient nor
  GetBoundProfilePackage looks at a session's age.
\<close>

theorem sessions_stay_until_the_next_opening:
  assumes "sys_run L st evs st'" and "list_all (quiet_for k) evs"
    and "get_session k (sessions_of st) \<noteq> None"
  shows "get_session k (sessions_of st') \<noteq> None"
  using quiet_run_keeps_session [OF assms(1,2)] assms(3) by (simp add: live_sessions_def)

text \<open>
  C8: an accepted download is served. Say an AuthenticateClient succeeds in a run from a freshly
  created server, and afterwards anything happens that spares its session (\<open>spares\<close>): other
  downloads, notifications, commands, failures of the database, in any number and order, as long
  as the server is not restarted, no request comes under the same transactionId, none hands it out
  again, and no InitiateAuthentication comes ten minutes or more after this session was opened.
  Then, when the orders can be read and the random source works, the next GetBoundProfilePackage under that transactionId passes the session, the UPP
  of the one order that was on offer, and 32 fresh random bytes to the library; if the library makes a
  package, the package is the answer and the session is gone; if it refuses, its reason is the
  answer, and the session is still there, still bound to that order. The library is assumed to
  keep to the EID buffer.
\<close>

theorem accepted_downloads_are_served:
  assumes "sys_init st0" and "sys_run L st0 evs0 st" and "eid_in_bounds L"
    and "sys_step L st (Http env1 (AuthenticateRequest q1) (Ret resp)) st1"
    and "resp_body resp = AuthenticateBody b"
    and "get_session (arq_transaction_id q1) (sessions_of st1) = Some ent"
    and "sys_run L st1 evs st2" and "list_all (spares (arq_transaction_id q1) (born ent)) evs"
    and "faults (app_store st2) SelectOrders = None" and "csprng_up (rng env2)"
    and "grq_transaction_id q2 = arq_transaction_id q1"
  shows "\<exists>x out st3. filter offered (db_orders (app_store st)) = [x]
    \<and> sys_step L st2 (Http env2 (BoundPackageRequest q2) (Ret out)) st3
    \<and> (case dp_get_bound_profile_package L (session ent) (grq_prepare_download_response q2)
            (ord_upp x) (map (\<lambda>k. tape (rng env2) (pos (rng env2) + k)) [0..<32]) of
        (_, Inr bpp) \<Rightarrow>
          out = ok_json (BoundPackageBody
            \<lparr> gbr_header = header_success, gbr_transaction_id = arq_transaction_id q1,
              gbr_bound_profile_package = as_slice bpp \<rparr>)
          \<and> get_session (arq_transaction_id q1) (sessions_of st3) = None
      | (sess, Inl e) \<Rightarrow>
          out = from_rsp_error e TRANSACTION_ID
          \<and> get_session (arq_transaction_id q1) (sessions_of st3)
              = Some (ent\<lparr>session := sess, entry_order_id := Some (ord_id x)\<rparr>))"
proof -
  have inv: "sys_inv L st" using server_system.reachable_inv [OF assms(2,1)] .
  have inv1: "sys_inv L st1" using sys_step_keeps_inv [OF inv assms(4)] .
  have inv2: "sys_inv L st2" using server_system.run_inv [OF assms(7) inv1] .
  have db: "db_inv (app_store st)" "db_inv (app_store st1)" "db_inv (app_store st2)"
    using inv inv1 inv2 by (simp_all add: sys_inv_def)
  have up: "cfg_nonces (app_config st2) = os_nonces" "\<not> poisoned (app_sessions st2)"
    using inv2 assms(3) by (simp_all add: sys_inv_def)
  have "authenticate_client sqlite_store L st q1 = (Ret resp, st1)"
    using assms(4) by (simp add: sys_step_Http_iff)
  then obtain x where offer: "filter offered (db_orders (app_store st)) = [x]"
    and bound: "entry_order_id ent = Some (ord_id x)"
  proof (cases rule: authenticate_client_cases)
    case failed
    with assms(5) show ?thesis by blast
  next
    case (success orders x ent0 sess der er g)
    moreover have "orders = db_orders (app_store st)"
      using sqlite.list_orders_Inr [OF db(1)] success(1) by simp
    ultimately show ?thesis
      using assms(6) that [of x] by (auto simp: sess_tab.get_put)
  qed
  have "run_of (sys_step L) st [Http env1 (AuthenticateRequest q1) (Ret resp)] st1"
    using assms(4) by (rule run_of_one)
  then have "orders_extend (db_orders (app_store st)) (db_orders (app_store st2))"
    using sys_run_store [OF _ db(1)] sys_run_store [OF assms(7) db(2)] orders_extend_trans by blast
  moreover have "x \<in> set (db_orders (app_store st))"
    using arg_cong [OF offer, of set] by auto
  ultimately have upp: "find_upp sqlite_store (app_store st2) (Some (ord_id x)) = Some (ord_upp x)"
    using upp_still_there [OF _ db(3) _ assms(9)] by blast
  have found: "get_session (grq_transaction_id q2) (sessions_of st2) = Some ent"
    unfolding assms(11) using spared_run_keeps_session [OF assms(7,6,8)] .
  obtain out st3 where "get_bound_profile_package sqlite_store L env2 st2 q2 = (Ret out, st3)"
    and "case dp_get_bound_profile_package L (session ent) (grq_prepare_download_response q2)
            (ord_upp x) (map (\<lambda>k. tape (rng env2) (pos (rng env2) + k)) [0..<32]) of
        (_, Inr bpp) \<Rightarrow>
          out = ok_json (BoundPackageBody
            \<lparr> gbr_header = header_success, gbr_transaction_id = arq_transaction_id q1,
              gbr_bound_profile_package = as_slice bpp \<rparr>)
          \<and> get_session (arq_transaction_id q1) (sessions_of st3) = None
      | (sess, Inl e) \<Rightarrow>
          out = from_rsp_error e TRANSACTION_ID
          \<and> get_session (arq_transaction_id q1) (sessions_of st3)
              = Some (ent\<lparr>session := sess, entry_order_id := Some (ord_id x)\<rparr>)"
    using package_answer [OF up assms(10) found bound upp, of L, unfolded assms(11)]
    by (elim exE conjE) (rule that)
  with offer show ?thesis
    by (intro exI [of _ x] exI [of _ out] exI [of _ st3]) (simp add: sys_step_Http_iff)
qed

section \<open>The properties at work\<close>

theorem sessions_are_bounded_by_openings_witness:
  "\<exists>resp st'. sys_step demo_lib demo_server (Http (demo_env 1) (InitiateRequest demo_initiate) (Ret resp)) st'
     \<and> finite (live_sessions st') \<and> card (live_sessions st') \<le> 1"
proof -
  obtain a st' where "handle sqlite_store demo_lib (demo_env 1) demo_server
      (InitiateRequest demo_initiate) = (Ret (ok_json (InitiateBody a)), st')"
    using initiate_on unfolding demo_server_with by blast
  then have step: "sys_step demo_lib demo_server
      (Http (demo_env 1) (InitiateRequest demo_initiate) (Ret (ok_json (InitiateBody a)))) st'"
    by (rule sys_step.http)
  have "length (recent_openings (now (demo_env 1))
      ([Command demo_files demo_rng demo_command (Ret (Inr demo_printed))]
        @ [Http (demo_env 1) (InitiateRequest demo_initiate) (Ret (ok_json (InitiateBody a)))])) = 1"
    by (simp add: recent_openings_def openings_def since_restart_def List.map_filter_def)
  with sessions_are_bounded_by_openings [OF fresh_run] step show ?thesis
    by (intro exI conjI) fastforce+
qed

text \<open>An hour later a session opened at time 0 is still there.\<close>

theorem sessions_stay_until_the_next_opening_witness:
  "get_session (demo_tid 1) (sessions_of (server_with
      (put_entry (demo_tid 1) bound_entry sessions_default) demo_db)) \<noteq> None
   \<and> (\<exists>out st'. sys_run demo_lib
        (server_with (put_entry (demo_tid 1) bound_entry sessions_default) demo_db)
        [Http ((demo_env 1)\<lparr>now := 3600 * 10 ^ 9\<rparr>) (NotificationRequest (demo_notify 1)) out] st'
      \<and> get_session (demo_tid 1) (sessions_of st') \<noteq> None)"
proof -
  let ?st = "server_with (put_entry (demo_tid 1) bound_entry sessions_default) demo_db"
  obtain out st' where "handle sqlite_store demo_lib ((demo_env 1)\<lparr>now := 3600 * 10 ^ 9\<rparr>) ?st
      (NotificationRequest (demo_notify 1)) = (out, st')"
    by force
  from run_of_one [of "sys_step demo_lib", OF sys_step.http [OF this]]
  have run: "sys_run demo_lib ?st [Http ((demo_env 1)\<lparr>now := 3600 * 10 ^ 9\<rparr>)
      (NotificationRequest (demo_notify 1)) out] st'" .
  have found: "get_session (demo_tid 1) (sessions_of ?st) \<noteq> None"
    by (simp add: sess_tab.get_put)
  have "list_all (quiet_for (demo_tid 1)) [Http ((demo_env 1)\<lparr>now := 3600 * 10 ^ 9\<rparr>)
      (NotificationRequest (demo_notify 1)) out]"
    by (simp add: quiet_for_def)
  from sessions_stay_until_the_next_opening [OF run this found] run found show ?thesis by blast
qed

text \<open>A session accepted at time 0 is served nine minutes later, another one opened in between.\<close>

lemma initiate_later:
  "\<exists>a. handle sqlite_store demo_lib ((demo_env b)\<lparr>now := t\<rparr>) (server_with tab db)
      (InitiateRequest demo_initiate)
    = (Ret (ok_json (InitiateBody a)),
       server_with (insert_session t (demo_tid b) \<lparr> dp_raw = 0 \<rparr> tab) db)
    \<and> iar_transaction_id a = demo_tid b"
  by (simp add: initiate_authentication_def demo_initiate_def demo_facts)

theorem accepted_downloads_are_served_witness:
  "\<exists>evs st st1 st2 st3 a a'. sys_run demo_lib fresh_server evs st
     \<and> sys_step demo_lib st (Http (demo_env 1) (AuthenticateRequest (demo_authenticate 1))
         (Ret (ok_json (AuthenticateBody a)))) st1
     \<and> sys_run demo_lib st1
         [Http ((demo_env 2)\<lparr>now := 540 * 10 ^ 9\<rparr>) (InitiateRequest demo_initiate)
            (Ret (ok_json (InitiateBody a')))] st2
     \<and> sys_step demo_lib st2 (Http (demo_env 1) (BoundPackageRequest (demo_get_package 1))
         (Ret (demo_package 1))) st3"
proof -
  let ?t = "insert_session 0 (demo_tid 1) \<lparr> dp_raw = 0 \<rparr> (sessions_default :: nat sessions)"
  let ?t1 = "put_entry (demo_tid 1) bound_entry ?t"
  let ?later = "(demo_env 2)\<lparr>now := 540 * 10 ^ 9\<rparr>"
  obtain a0 where "handle sqlite_store demo_lib (demo_env 1) demo_server (InitiateRequest demo_initiate)
      = (Ret (ok_json (InitiateBody a0)), server_with ?t demo_db)"
    unfolding demo_server_with using initiate_on by blast
  from run_of.run_snoc [OF fresh_run(2) sys_step.http [OF this]]
  obtain evs where run: "sys_run demo_lib fresh_server evs (server_with ?t demo_db)" by blast
  have "get_session (demo_tid 1) ?t = Some opened_entry" and "ord_id demo_order = 1"
    by (simp_all add: sess_tab.get_ins demo_order_def)
  from authenticate_on [OF working_demo_db offered_demo this(2,1), of "demo_env 1"]
  obtain a where "handle sqlite_store demo_lib (demo_env 1) (server_with ?t demo_db)
      (AuthenticateRequest (demo_authenticate 1))
      = (Ret (ok_json (AuthenticateBody a)), server_with ?t1 bound_db)"
    unfolding bound_db_def by blast
  note auth = sys_step.http [OF this]
  obtain a' st2 where later: "handle sqlite_store demo_lib ?later (server_with ?t1 bound_db)
      (InitiateRequest demo_initiate) = (Ret (ok_json (InitiateBody a')), st2)"
    and other: "iar_transaction_id a' = demo_tid 2" and st2: "app_store st2 = bound_db"
    using initiate_later [where b = 2 and t = "540 * 10 ^ 9" and tab = ?t1 and db = bound_db] by auto
  note quiet = run_of_one [of "sys_step demo_lib", OF sys_step.http [OF later]]
  have "list_all (spares (demo_tid 1) (born bound_entry))
      [Http ?later (InitiateRequest demo_initiate) (Ret (ok_json (InitiateBody a')))]"
    by (simp add: spares_def other MAX_AGE_def)
  moreover have "get_session (demo_tid 1) (sessions_of (server_with ?t1 bound_db)) = Some bound_entry"
    by (simp add: sess_tab.get_put)
  moreover have "csprng_up (rng (demo_env 1))"
      "map (\<lambda>k. tape (rng (demo_env 1)) (pos (rng (demo_env 1)) + k)) [0..<32] = replicate 32 1"
      "as_slice (from_raw (u @ [1]) (Suc (length u))) = u @ [1]" for u
    by (simp_all add: demo_env_def map_replicate_const as_slice_def from_raw_def del: upt_rec_numeral)
  ultimately obtain x out st3 where "filter offered (db_orders demo_db) = [x]"
    and served: "sys_step demo_lib st2
      (Http (demo_env 1) (BoundPackageRequest (demo_get_package 1)) (Ret out)) st3"
    and "out = ok_json (BoundPackageBody \<lparr> gbr_header = header_success,
      gbr_transaction_id = demo_tid 1, gbr_bound_profile_package = ord_upp x @ [1] \<rparr>)"
    using accepted_downloads_are_served [OF fresh_run(1) run demo_lib_in_bounds auth _ _ quiet,
        of _ bound_entry "demo_env 1" "demo_get_package 1"] st2
    by (auto simp: demo_lib_calls simp del: upt_rec_numeral)
  then have "out = demo_package 1"
    by (auto simp: demo_package_def demo_order_def)
  with run auth quiet served show ?thesis by blast
qed

end
