(* ===== verification/Responses.thy ===== *)
theory Responses
  imports Server
begin

text \<open>
  The reading half of the responses of \<open>crates/smdp/src/es9/mod.rs\<close>: the derived
  \<open>Deserialize\<close> of the status header and of each response body, which is what an LPA built on
  this crate (and the repository's own HTTP tests) reads an answer with. A derived reader of a
  struct takes an object, or an array of the fields in order; a missing or null \<open>Option\<close> field of
  an object is \<open>None\<close>; unknown members are ignored.
\<close>

section \<open>Members\<close>

definition required_member ::
  "(json \<Rightarrow> 'a option outcome) \<Rightarrow> string \<Rightarrow> (string \<times> json) list \<Rightarrow> 'a option outcome"
where
  "required_member de k obj = (case field_values k obj of [v] \<Rightarrow> de v | _ \<Rightarrow> Ret None)"

definition option_value :: "(json \<Rightarrow> 'a option outcome) \<Rightarrow> json \<Rightarrow> 'a option option outcome" where
  "option_value de v =
     (if v = JNull then Ret (Some None) else with_field (de v) (\<lambda>a. Ret (Some (Some a))))"

definition option_member ::
  "(json \<Rightarrow> 'a option outcome) \<Rightarrow> string \<Rightarrow> (string \<times> json) list \<Rightarrow> 'a option option outcome"
where
  "option_member de k obj =
     (case field_values k obj of
        [] \<Rightarrow> Ret (Some None)
      | [v] \<Rightarrow> option_value de v
      | _ \<Rightarrow> Ret None)"

definition string_of_json :: "json \<Rightarrow> string option outcome" where
  "string_of_json d = outcome_bind (string_deserialize d) (\<lambda>r. Ret (ok r))"

section \<open>The status header\<close>

definition execution_status_named :: "string \<Rightarrow> execution_status option" where
  "execution_status_named s =
     (if s = ''Executed-Success'' then Some ExecutedSuccess
      else if s = ''Executed-WithWarning'' then Some ExecutedWithWarning
      else if s = ''Failed'' then Some Failed_status
      else if s = ''Expired'' then Some Expired
      else None)"

text \<open>A unit variant is its name, or an object with that one member, null.\<close>

definition execution_status_of_json :: "json \<Rightarrow> execution_status option outcome" where
  "execution_status_of_json d =
     (case d of
        JStr s \<Rightarrow> Ret (execution_status_named s)
      | JObj [(k, JNull)] \<Rightarrow> Ret (execution_status_named k)
      | _ \<Rightarrow> Ret None)"

definition status_code_data_of_json :: "json \<Rightarrow> status_code_data option outcome" where
  "status_code_data_of_json d =
     (case d of
        JObj obj \<Rightarrow>
          with_field (required_member string_of_json ''subjectCode'' obj) (\<lambda>s.
          with_field (required_member string_of_json ''reasonCode'' obj) (\<lambda>r.
          with_field (option_member string_of_json ''subjectIdentifier'' obj) (\<lambda>i.
          with_field (option_member string_of_json ''message'' obj) (\<lambda>m.
            Ret (Some \<lparr> subject_code = s, reason_code = r, subject_identifier = i,
                        message = m \<rparr>)))))
      | JArr [a, b, c, e] \<Rightarrow>
          with_field (string_of_json a) (\<lambda>s.
          with_field (string_of_json b) (\<lambda>r.
          with_field (option_value string_of_json c) (\<lambda>i.
          with_field (option_value string_of_json e) (\<lambda>m.
            Ret (Some \<lparr> subject_code = s, reason_code = r, subject_identifier = i,
                        message = m \<rparr>)))))
      | _ \<Rightarrow> Ret None)"

definition function_execution_status_of_json :: "json \<Rightarrow> function_execution_status option outcome" where
  "function_execution_status_of_json d =
     (case d of
        JObj obj \<Rightarrow>
          with_field (required_member execution_status_of_json ''status'' obj) (\<lambda>s.
          with_field (option_member status_code_data_of_json ''statusCodeData'' obj) (\<lambda>c.
            Ret (Some \<lparr> fes_status = s, fes_status_code_data = c \<rparr>)))
      | JArr [a, b] \<Rightarrow>
          with_field (execution_status_of_json a) (\<lambda>s.
          with_field (option_value status_code_data_of_json b) (\<lambda>c.
            Ret (Some \<lparr> fes_status = s, fes_status_code_data = c \<rparr>)))
      | _ \<Rightarrow> Ret None)"

definition response_header_of_json :: "json \<Rightarrow> response_header option outcome" where
  "response_header_of_json d =
     (case d of
        JObj obj \<Rightarrow>
          with_field (required_member function_execution_status_of_json
              ''functionExecutionStatus'' obj) (\<lambda>s.
            Ret (Some \<lparr> function_execution_status = s \<rparr>))
      | JArr [a] \<Rightarrow>
          with_field (function_execution_status_of_json a) (\<lambda>s.
            Ret (Some \<lparr> function_execution_status = s \<rparr>))
      | _ \<Rightarrow> Ret None)"

section \<open>The bodies, from the members of an object\<close>

definition failure_response_of_json :: "(string \<times> json) list \<Rightarrow> failure_response option outcome" where
  "failure_response_of_json obj =
     with_field (required_member response_header_of_json ''header'' obj) (\<lambda>h.
       Ret (Some \<lparr> fr_header = h \<rparr>))"

definition initiate_response_of_json ::
  "b64_engine \<Rightarrow> (string \<times> json) list \<Rightarrow> initiate_authentication_response option outcome"
where
  "initiate_response_of_json B obj =
     with_field (required_member response_header_of_json ''header'' obj) (\<lambda>h.
     with_field (required_field hex_deserialize ''transactionId'' obj) (\<lambda>t.
     with_field (required_field (b64_deserialize B) ''serverSigned1'' obj) (\<lambda>s1.
     with_field (required_field (b64_deserialize B) ''serverSignature1'' obj) (\<lambda>g1.
     with_field (required_field (b64_deserialize B) ''euiccCiPKIdToBeUsed'' obj) (\<lambda>ci.
     with_field (required_field (b64_deserialize B) ''serverCertificate'' obj) (\<lambda>sc.
       Ret (Some \<lparr> iar_header = h, iar_transaction_id = t, iar_server_signed1 = s1,
                   iar_server_signature1 = g1, iar_euicc_ci_pkid_to_be_used = ci,
                   iar_server_certificate = sc \<rparr>)))))))"

definition authenticate_response_of_json ::
  "b64_engine \<Rightarrow> (string \<times> json) list \<Rightarrow> authenticate_client_response option outcome"
where
  "authenticate_response_of_json B obj =
     with_field (required_member response_header_of_json ''header'' obj) (\<lambda>h.
     with_field (required_field hex_deserialize ''transactionId'' obj) (\<lambda>t.
     with_field (required_field (b64_deserialize B) ''profileMetadata'' obj) (\<lambda>p.
     with_field (required_field (b64_deserialize B) ''smdpSigned2'' obj) (\<lambda>s2.
     with_field (required_field (b64_deserialize B) ''smdpSignature2'' obj) (\<lambda>g2.
     with_field (required_field (b64_deserialize B) ''smdpCertificate'' obj) (\<lambda>sc.
       Ret (Some \<lparr> acr_header = h, acr_transaction_id = t, acr_profile_metadata = p,
                   acr_smdp_signed2 = s2, acr_smdp_signature2 = g2,
                   acr_smdp_certificate = sc \<rparr>)))))))"

definition bound_package_response_of_json ::
  "b64_engine \<Rightarrow> (string \<times> json) list \<Rightarrow> get_bound_profile_package_response option outcome"
where
  "bound_package_response_of_json B obj =
     with_field (required_member response_header_of_json ''header'' obj) (\<lambda>h.
     with_field (required_field hex_deserialize ''transactionId'' obj) (\<lambda>t.
     with_field (required_field (b64_deserialize B) ''boundProfilePackage'' obj) (\<lambda>p.
       Ret (Some \<lparr> gbr_header = h, gbr_transaction_id = t, gbr_bound_profile_package = p \<rparr>))))"

section \<open>Reading responses back\<close>

lemma string_of_json_JStr [simp]: "string_of_json (JStr s) = Ret (Some s)"
  by (simp add: string_of_json_def string_deserialize_def)

lemma execution_status_round_trip [simp]:
  "execution_status_of_json (execution_status_to_json s) = Ret (Some s)"
  by (cases s) (simp_all add: execution_status_of_json_def execution_status_named_def)

lemma status_code_data_round_trip [simp]:
  "status_code_data_of_json (status_code_data_to_json d) = Ret (Some d)"
  by (cases d; cases "subject_identifier d"; cases "message d")
    (auto simp: status_code_data_to_json_def status_code_data_of_json_def optional_member_def
      required_member_def option_member_def option_value_def field_values_Cons)

lemma status_code_data_not_null [simp]: "status_code_data_to_json d \<noteq> JNull"
  by (simp add: status_code_data_to_json_def)

lemma function_execution_status_round_trip [simp]:
  "function_execution_status_of_json (function_execution_status_to_json s) = Ret (Some s)"
  by (cases s; cases "fes_status_code_data s")
    (auto simp: function_execution_status_to_json_def function_execution_status_of_json_def
      optional_member_def required_member_def option_member_def option_value_def field_values_Cons)

lemma response_header_round_trip [simp]:
  "response_header_of_json (response_header_to_json h) = Ret (Some h)"
  by (cases h) (simp add: response_header_to_json_def response_header_of_json_def
      required_member_def field_values_Cons)

lemma header_member:
  "field_values ''header'' obj = [response_header_to_json h] \<Longrightarrow>
     required_member response_header_of_json ''header'' obj = Ret (Some h)"
  by (simp add: required_member_def)

lemma failure_response_round_trip:
  "failure_response_to_json r = JObj obj \<Longrightarrow> failure_response_of_json obj = Ret (Some r)"
  by (cases r) (auto simp: failure_response_to_json_def failure_response_of_json_def
      required_member_def field_values_Cons)

lemma initiate_response_round_trip:
  assumes "b64_lawful B" and "initiate_response_to_json B r = JObj obj"
  shows "initiate_response_of_json B obj = Ret (Some r)"
  using assms by (cases r)
    (auto simp: initiate_response_to_json_def initiate_response_of_json_def read_fields header_member)

lemma authenticate_response_round_trip:
  assumes "b64_lawful B" and "authenticate_response_to_json B r = JObj obj"
  shows "authenticate_response_of_json B obj = Ret (Some r)"
  using assms by (cases r)
    (auto simp: authenticate_response_to_json_def authenticate_response_of_json_def read_fields
      header_member)

lemma bound_package_response_round_trip:
  assumes "b64_lawful B" and "bound_package_response_to_json B r = JObj obj"
  shows "bound_package_response_of_json B obj = Ret (Some r)"
  using assms by (cases r)
    (auto simp: bound_package_response_to_json_def bound_package_response_of_json_def read_fields
      header_member)

section \<open>Property\<close>

fun body_header :: "body \<Rightarrow> response_header option" where
  "body_header EmptyBody = None"
| "body_header (FailureBody r) = Some (fr_header r)"
| "body_header (InitiateBody r) = Some (iar_header r)"
| "body_header (AuthenticateBody r) = Some (acr_header r)"
| "body_header (BoundPackageBody r) = Some (gbr_header r)"

text \<open>The reader of the body's own type gives the body back.\<close>

fun reads_back :: "b64_engine \<Rightarrow> (string \<times> json) list \<Rightarrow> body \<Rightarrow> bool" where
  "reads_back B obj EmptyBody = False"
| "reads_back B obj (FailureBody r) = (failure_response_of_json obj = Ret (Some r))"
| "reads_back B obj (InitiateBody r) = (initiate_response_of_json B obj = Ret (Some r))"
| "reads_back B obj (AuthenticateBody r) = (authenticate_response_of_json B obj = Ret (Some r))"
| "reads_back B obj (BoundPackageBody r) = (bound_package_response_of_json B obj = Ret (Some r))"

text \<open>A client that only looks for the status finds it in any body.\<close>

lemma header_of_any_body:
  assumes "body_to_json B b = Some (JObj obj)" and "body_header b = Some h"
  shows "failure_response_of_json obj = Ret (Some \<lparr> fr_header = h \<rparr>)"
  using assms
  by (cases b) (auto simp: failure_response_of_json_def failure_response_to_json_def
      initiate_response_to_json_def authenticate_response_to_json_def
      bound_package_response_to_json_def field_values_Cons header_member)

text \<open>
  C30: every answer can be read back. Each of the four kinds of response body the server writes is
  an object, from which the derived reader of its own type recovers exactly the body that was
  written (the bytes the library signed included), and from which the reader of a bare failure
  report recovers exactly its status header, so that a client can tell success from failure before
  it knows which it has. The base64 engine is only assumed to decode what it encodes.
\<close>

theorem responses_survive_json:
  assumes "b64_lawful B" and "b \<noteq> EmptyBody"
  shows "\<exists>obj h. body_to_json B b = Some (JObj obj) \<and> reads_back B obj b
    \<and> body_header b = Some h \<and> failure_response_of_json obj = Ret (Some \<lparr> fr_header = h \<rparr>)"
proof -
  obtain obj where obj: "body_to_json B b = Some (JObj obj)"
    using assms(2) by (cases b) (auto simp: failure_response_to_json_def initiate_response_to_json_def
        authenticate_response_to_json_def bound_package_response_to_json_def)
  obtain h where h: "body_header b = Some h"
    using assms(2) by (cases b) auto
  have "reads_back B obj b"
    using assms obj failure_response_round_trip initiate_response_round_trip [OF assms(1)]
      authenticate_response_round_trip [OF assms(1)] bound_package_response_round_trip [OF assms(1)]
    by (cases b) auto
  with obj h header_of_any_body show ?thesis by blast
qed

theorem responses_survive_json_witness:
  "\<exists>obj. body_to_json hex_engine (FailureBody \<lparr> fr_header = header_failed ''8.1.1'' ''3.9'' ''no'' \<rparr>)
     = Some (JObj obj)
   \<and> failure_response_of_json obj
     = Ret (Some \<lparr> fr_header = header_failed ''8.1.1'' ''3.9'' ''no'' \<rparr>)"
  using responses_survive_json
    [OF hex_engine_lawful, of "FailureBody \<lparr> fr_header = header_failed ''8.1.1'' ''3.9'' ''no'' \<rparr>"]
  by auto

end
