(* ===== verification/UnitTests.thy ===== *)
theory UnitTests
  imports Responses Service Database
begin

text \<open>
  The repository's own unit tests (\<open>mod tests\<close> of \<open>es9/mod.rs\<close>, \<open>store/mod.rs\<close> and
  \<open>service.rs\<close>), transcribed on the model. A test is a boolean: true when it runs to its end
  with every assertion satisfied, false when an assertion or an \<open>unwrap\<close> fails. They are kept as a
  regression test of the model: every definition they use is evaluated on the inputs and against
  the results its authors chose.
\<close>

section \<open>What the tests are written with\<close>

definition unwrap :: "'e + 'a \<Rightarrow> ('a \<Rightarrow> bool) \<Rightarrow> bool" where
  "unwrap r k = (case r of Inl _ \<Rightarrow> False | Inr a \<Rightarrow> k a)"

definition unwrap_some :: "'a option \<Rightarrow> ('a \<Rightarrow> bool) \<Rightarrow> bool" where
  "unwrap_some r k = (case r of None \<Rightarrow> False | Some a \<Rightarrow> k a)"

definition is_err :: "('e + 'a) outcome \<Rightarrow> bool" where
  "is_err r = (case r of Ret (Inl _) \<Rightarrow> True | _ \<Rightarrow> False)"

text \<open>\<open>serde_json::Value\<close>: indexing with a missing key gives null; \<open>get\<close> gives \<open>None\<close>.\<close>

definition json_get :: "json \<Rightarrow> string \<Rightarrow> json option" where
  "json_get v k = (case v of JObj obj \<Rightarrow> map_of obj k | _ \<Rightarrow> None)"

definition json_index :: "json \<Rightarrow> string \<Rightarrow> json" where
  "json_index v k = (case json_get v k of None \<Rightarrow> JNull | Some w \<Rightarrow> w)"

definition in_memory :: "(conn \<Rightarrow> bool) \<Rightarrow> bool" where
  "in_memory k = (case sqlite_open (empty_conn (\<lambda>_. None)) of (s, r) \<Rightarrow> unwrap r (\<lambda>_. k s))"

section \<open>The tests of the message bodies\<close>

definition a_transaction_id_is_uppercase_hex_not_base64 :: "b64_engine \<Rightarrow> bool" where
  "a_transaction_id_is_uppercase_hex_not_base64 B =
     (let v = bound_package_request_to_json B
                \<lparr> grq_transaction_id = [0x01, 0xab, 0xff],
                  grq_prepare_download_response = [0x30, 0x00] \<rparr> in
      json_index v ''transactionId'' = JStr ''01ABFF''
      \<and> json_index v ''prepareDownloadResponse'' = JStr ''MAA='')"

definition the_ci_key_id_keeps_its_spelling :: "b64_engine \<Rightarrow> bool" where
  "the_ci_key_id_keeps_its_spelling B =
     (let v = initiate_response_to_json B
                \<lparr> iar_header = header_success, iar_transaction_id = [0x01],
                  iar_server_signed1 = [0x30], iar_server_signature1 = [0x30],
                  iar_euicc_ci_pkid_to_be_used = [0x04], iar_server_certificate = [0x30] \<rparr> in
      json_get v ''euiccCiPKIdToBeUsed'' \<noteq> None \<and> json_get v ''euiccCiPkidToBeUsed'' = None)"

definition a_request_carries_no_header :: "b64_engine \<Rightarrow> bool" where
  "a_request_carries_no_header B =
     (let v = initiate_request_to_json B
                \<lparr> irq_euicc_challenge = replicate 16 0, irq_euicc_info1 = [0x30, 0x00],
                  irq_smdp_address = ''smdp.example.com'' \<rparr> in
      json_get v ''header'' = None
      \<and> unwrap_some (json_members v) (\<lambda>obj. length obj = 3))"

definition a_failed_response_says_so_in_the_body :: bool where
  "a_failed_response_says_so_in_the_body =
     (let v = failure_response_to_json
                \<lparr> fr_header = header_failed ''8.1.1'' ''3.9'' ''the address is not this server's'' \<rparr>;
          s = json_index (json_index v ''header'') ''functionExecutionStatus'' in
      json_index s ''status'' = JStr ''Failed''
      \<and> json_index (json_index s ''statusCodeData'') ''subjectCode'' = JStr ''8.1.1'')"

definition a_success_header_carries_no_status_code_data :: bool where
  "a_success_header_carries_no_status_code_data =
     (let s = json_index (response_header_to_json header_success) ''functionExecutionStatus'' in
      json_index s ''status'' = JStr ''Executed-Success'' \<and> json_get s ''statusCodeData'' = None)"

definition hex_round_trips_and_rejects_rubbish :: bool where
  "hex_round_trips_and_rejects_rubbish \<longleftrightarrow>
     to_hex_upper [0x0a, 0xf0] = ''0AF0'' \<and> from_hex ''0af0'' = Ret (Inr [0x0a, 0xf0])
     \<and> is_err (from_hex ''zz'') \<and> is_err (from_hex ''abc'')"

text \<open>The recorded response as the library read it: any fields whatever.\<close>

definition a_recorded_response_survives_the_json_round_trip ::
  "b64_engine \<Rightarrow> initiate_fields_t \<Rightarrow> bool"
where
  "a_recorded_response_survives_the_json_round_trip B f =
     (let written = initiate_response_to_json B
                \<lparr> iar_header = header_success, iar_transaction_id = [0x01, 0x02],
                  iar_server_signed1 = if_server_signed1 f,
                  iar_server_signature1 = if_server_signature1 f,
                  iar_euicc_ci_pkid_to_be_used = if_euicc_ci_pkid f,
                  iar_server_certificate = if_server_certificate f \<rparr> in
      case map_option (initiate_response_of_json B) (json_members written) of
        Some (Ret (Some back)) \<Rightarrow>
          iar_server_signed1 back = if_server_signed1 f
          \<and> iar_server_signature1 back = if_server_signature1 f
          \<and> iar_server_certificate back = if_server_certificate f
      | _ \<Rightarrow> False)"

section \<open>The tests of the store\<close>

definition ICCID :: bytes where
  "ICCID = [0x98, 0x00, 0x10, 0x32, 0x54, 0x76, 0x98, 0x10, 0x32, 0x14]"

definition an_order :: new_order where
  "an_order =
     \<lparr> no_matching_id = ''MATCH-0001'', no_iccid = ICCID,
       no_upp = map byte_of_char ''the-uicc-profile-fixture'', no_metadata = [0xbf, 0x25, 0x00] \<rparr>"

definition an_order_survives_a_round_trip :: bool where
  "an_order_survives_a_round_trip =
     in_memory (\<lambda>s.
       case sqlite_add_order s an_order of (s, r) \<Rightarrow> unwrap r (\<lambda>x.
         ord_state x = Available
         \<and> unwrap (sqlite_order_by_matching_id s ''MATCH-0001'') (\<lambda>f. unwrap_some f (\<lambda>found.
             ord_id found = ord_id x \<and> ord_upp found = ord_upp x
             \<and> ord_iccid found = ord_iccid x \<and> ord_metadata found = ord_metadata x))))"

definition an_order_is_findable_by_iccid_too :: bool where
  "an_order_is_findable_by_iccid_too =
     in_memory (\<lambda>s.
       case sqlite_add_order s an_order of (s, r) \<Rightarrow> unwrap r (\<lambda>x.
         unwrap (sqlite_order_by_iccid s ICCID) (\<lambda>f. unwrap_some f (\<lambda>found.
           ord_id found = ord_id x))))"

definition a_matching_id_is_unique :: bool where
  "a_matching_id_is_unique =
     in_memory (\<lambda>s.
       case sqlite_add_order s an_order of (s, r) \<Rightarrow> unwrap r (\<lambda>_.
         case snd (sqlite_add_order s an_order) of
           Inl (DuplicateMatchingId _) \<Rightarrow> True
         | _ \<Rightarrow> False))"

definition binding_an_euicc_records_what_a_notification_will_need :: bool where
  "binding_an_euicc_records_what_a_notification_will_need =
     in_memory (\<lambda>s.
       case sqlite_add_order s an_order of (s, r) \<Rightarrow> unwrap r (\<lambda>x.
         ord_eid x = None \<and> ord_euicc_cert x = None
         \<and> (case sqlite_bind_euicc s (ord_id x) ''89049032123451234512345678901235''
                   [0x30, 0x82, 0x01] of (s, u) \<Rightarrow> unwrap u (\<lambda>_.
              case sqlite_set_state s (ord_id x) Bound of (s, u) \<Rightarrow> unwrap u (\<lambda>_.
                unwrap (sqlite_order_by_iccid s ICCID) (\<lambda>f. unwrap_some f (\<lambda>f.
                  ord_eid f = Some ''89049032123451234512345678901235''
                  \<and> ord_euicc_cert f = Some [0x30, 0x82, 0x01]
                  \<and> ord_state f = Bound)))))))"

text \<open>The file the test prepares by hand: the old notifications table with one row, no more.\<close>

definition older_file :: conn where
  "older_file =
     \<lparr> user_version = 0, orders_tab = None,
       notifications_tab = Some
         \<lparr> has_verified = False,
           q_rows = [\<lparr> q_id = 1, q_order_id = None, q_seq_number = 29, q_operation = 0,
                       q_iccid = None, q_installed = Some 1, q_verified = 0,
                       q_raw = [0xBF, 0x37] \<rparr>] \<rparr>,
       faults = (\<lambda>_. None) \<rparr>"

definition an_older_database_migrates :: bool where
  "an_older_database_migrates =
     (case sqlite_open older_file of (s, r) \<Rightarrow> unwrap r (\<lambda>_.
        unwrap (sqlite_notifications s) (\<lambda>kept.
          length kept = 1 \<and> sn_verified (kept ! 0) \<and> sn_seq_number (kept ! 0) = 29
          \<and> (case sqlite_record_notification s
                \<lparr> nn_verified = False, nn_order_id = None, nn_seq_number = 30, nn_operation = 1,
                  nn_iccid = None, nn_installed = None, nn_raw = [0x30] \<rparr> of
               (s, u) \<Rightarrow> unwrap u (\<lambda>_.
                 unwrap (sqlite_notifications s) (\<lambda>all. length all = 2))))))"

definition an_unknown_matching_id_is_none_not_an_error :: bool where
  "an_unknown_matching_id_is_none_not_an_error =
     in_memory (\<lambda>s. unwrap (sqlite_order_by_matching_id s ''nope'') (\<lambda>f. f = None))"

definition listing_gives_back_what_went_in :: bool where
  "listing_gives_back_what_went_in =
     in_memory (\<lambda>s.
       case sqlite_add_order s an_order of (s, r) \<Rightarrow> unwrap r (\<lambda>_.
         case sqlite_add_order s (an_order\<lparr>no_matching_id := ''MATCH-0002''\<rparr>) of
           (s, r) \<Rightarrow> unwrap r (\<lambda>_.
             unwrap (sqlite_list_orders s) (\<lambda>os. length os = 2))))"

section \<open>The tests of the service\<close>

text \<open>
  \<open>create_order(&s, &ICCID, b"upp".to_vec(), vec![0x30], m)\<close>; a panic fails the test. The two
  draws of the first test are from what the random source gives at each call.
\<close>

definition created ::
  "conn \<Rightarrow> os_random \<Rightarrow> string option \<Rightarrow> (conn \<Rightarrow> order_t \<Rightarrow> bool) \<Rightarrow> bool"
where
  "created s r m k =
     (case create_order sqlite_store r s ICCID (map byte_of_char ''upp'') [0x30] m of
        (_, Panic) \<Rightarrow> False
      | (s', Ret res) \<Rightarrow> unwrap res (k s'))"

definition a_generated_matching_id_is_not_guessable :: "os_random \<Rightarrow> os_random \<Rightarrow> bool" where
  "a_generated_matching_id_is_not_guessable r1 r2 =
     in_memory (\<lambda>s. created s r1 None (\<lambda>s a. created s r2 None (\<lambda>s b.
       ord_matching_id a \<noteq> ord_matching_id b \<and> 16 \<le> length (ord_matching_id a))))"

definition an_explicit_matching_id_is_kept :: "os_random \<Rightarrow> bool" where
  "an_explicit_matching_id_is_kept r =
     in_memory (\<lambda>s. created s r (Some ''MINE'') (\<lambda>s x. ord_matching_id x = ''MINE''))"

definition the_iccid_comes_out_of_the_metadata :: bool where
  "the_iccid_comes_out_of_the_metadata \<longleftrightarrow>
     iccid_from_metadata
       [0xbf, 0x25, 0x27, 0x5a, 0x0a, 0x98, 0x00, 0x10, 0x32, 0x54, 0x76, 0x98, 0x10, 0x32,
        0x14, 0x91, 0x0b] = Inr ICCID"

definition something_that_is_not_metadata_is_refused :: bool where
  "something_that_is_not_metadata_is_refused \<longleftrightarrow>
     is_err (Ret (iccid_from_metadata (map byte_of_char ''nope'')))
     \<and> is_err (Ret (iccid_from_metadata [0xbf, 0x25, 0x02, 0x30, 0x00]))
     \<and> is_err (Ret (iccid_from_metadata [0xbf, 0x25, 0x05, 0x5a, 0x0a, 0x98]))"

definition the_activation_code_has_the_shape_an_lpa_parses :: bool where
  "the_activation_code_has_the_shape_an_lpa_parses \<longleftrightarrow>
     activation_code ''smdp.example.com'' ''MATCH-1'' = ''LPA:1$smdp.example.com$MATCH-1''"

section \<open>They hold\<close>

lemmas test_defs = unwrap_def unwrap_some_def is_err_def json_get_def json_index_def

lemma message_tests:
  "b64_encode B [0x30, 0x00] = ''MAA='' \<Longrightarrow> a_transaction_id_is_uppercase_hex_not_base64 B"
  "the_ci_key_id_keeps_its_spelling B"
  "a_request_carries_no_header B"
  "a_failed_response_says_so_in_the_body"
  "a_success_header_carries_no_status_code_data"
  by (simp_all add: test_defs a_transaction_id_is_uppercase_hex_not_base64_def
      the_ci_key_id_keeps_its_spelling_def a_request_carries_no_header_def
      a_failed_response_says_so_in_the_body_def a_success_header_carries_no_status_code_data_def
      bound_package_request_to_json_def initiate_response_to_json_def initiate_request_to_json_def
      failure_response_to_json_def response_header_to_json_def function_execution_status_to_json_def
      status_code_data_to_json_def header_failed_def header_success_def optional_member_def
      hex_serialize_def b64_serialize_def to_hex_upper_def hex_byte_upper_def hex_digit_upper_def
      char_of_def bit_iff_odd)

lemma hex_test: "hex_round_trips_and_rejects_rubbish"
  by (simp add: hex_round_trips_and_rejects_rubbish_def is_err_def from_hex_eq to_digit16_def
      ascii_digit16_def to_hex_upper_def hex_byte_upper_def hex_digit_upper_def is_cont_def
      char_of_def bit_iff_odd)

lemma recorded_response_test:
  "b64_lawful B \<Longrightarrow> a_recorded_response_survives_the_json_round_trip B f"
  by (simp add: a_recorded_response_survives_the_json_round_trip_def initiate_response_to_json_def
      initiate_response_of_json_def read_fields header_member)

lemma in_memory_fresh:
  "in_memory k = k \<lparr> user_version = 2, orders_tab = Some [],
     notifications_tab = Some \<lparr> has_verified = True, q_rows = [] \<rparr>, faults = (\<lambda>_. None) \<rparr>"
  by (simp add: in_memory_def unwrap_def open_defs empty_conn_def SCHEMA_VERSION_def)

lemmas store_eval = in_memory_fresh sqlite_add_order_def insert_order_def run_stmt_def
  read_stmt_def order_row_of_def sqlite_order_by_matching_id_def sqlite_order_by_iccid_def one_def
  order_rows_def row_to_order_def sqlite_bind_euicc_def sqlite_set_state_def update_rows_def
  sqlite_list_orders_def an_order_def fresh_id_def parse_order_state_def

lemma store_tests:
  "an_order_survives_a_round_trip" "an_order_is_findable_by_iccid_too" "a_matching_id_is_unique"
  "binding_an_euicc_records_what_a_notification_will_need"
  "an_unknown_matching_id_is_none_not_an_error" "listing_gives_back_what_went_in"
  by (simp_all add: test_defs store_eval ICCID_def an_order_survives_a_round_trip_def
      an_order_is_findable_by_iccid_too_def a_matching_id_is_unique_def
      binding_an_euicc_records_what_a_notification_will_need_def
      an_unknown_matching_id_is_none_not_an_error_def listing_gives_back_what_went_in_def)

lemma migration_test: "an_older_database_migrates"
  by (simp add: an_older_database_migrates_def older_file_def unwrap_def open_defs
      SCHEMA_VERSION_def sqlite_notifications_def row_to_notification_def
      sqlite_record_notification_def notification_row_of_def i64_of_bool_def fresh_id_def)

lemma service_tests:
  "an_explicit_matching_id_is_kept r" "the_iccid_comes_out_of_the_metadata"
  "something_that_is_not_metadata_is_refused" "the_activation_code_has_the_shape_an_lpa_parses"
  by (simp_all add: test_defs created_def create_order_def store_eval ICCID_def
      an_explicit_matching_id_is_kept_def the_iccid_comes_out_of_the_metadata_def
      something_that_is_not_metadata_is_refused_def iccid_from_metadata_def get_at_def get_range_def
      the_activation_code_has_the_shape_an_lpa_parses_def activation_code_def byte_of_char_def)

lemma drawn_ids_test:
  assumes "generate_matching_id r1 = Ret m1" and "generate_matching_id r2 = Ret m2" and "m1 \<noteq> m2"
  shows "a_generated_matching_id_is_not_guessable r1 r2"
proof -
  have "length m1 = 22"
    using assms(1) by (auto simp: generate_matching_id_def getrandom_fill_def split: if_splits)
  with assms show ?thesis
    by (simp add: a_generated_matching_id_is_not_guessable_def created_def create_order_def
        test_defs store_eval)
qed

section \<open>All of them\<close>

text \<open>
  The repository's own unit tests hold of the model: the seven of the message bodies, for any
  base64 engine that decodes what it encodes and writes the two bytes 30 00 as \<open>MAA=\<close> and for
  any library-read response; the seven of the store, on a store in memory and on a file of the
  version before the verified column; and the five of the service. The one on drawn MatchingIDs
  asserts that two draws differ, which is a fact about the random source and a hypothesis here; what
  it asserts beyond that, the length and that the order is found under each, is shown.
\<close>

lemma unit_tests_hold:
  assumes "b64_lawful B" and "b64_encode B [0x30, 0x00] = ''MAA=''"
    and "generate_matching_id r1 = Ret m1" and "generate_matching_id r2 = Ret m2" and "m1 \<noteq> m2"
  shows "a_transaction_id_is_uppercase_hex_not_base64 B \<and> the_ci_key_id_keeps_its_spelling B
    \<and> a_request_carries_no_header B \<and> a_failed_response_says_so_in_the_body
    \<and> a_success_header_carries_no_status_code_data \<and> hex_round_trips_and_rejects_rubbish
    \<and> a_recorded_response_survives_the_json_round_trip B f
    \<and> an_order_survives_a_round_trip \<and> an_order_is_findable_by_iccid_too
    \<and> a_matching_id_is_unique \<and> binding_an_euicc_records_what_a_notification_will_need
    \<and> an_older_database_migrates \<and> an_unknown_matching_id_is_none_not_an_error
    \<and> listing_gives_back_what_went_in
    \<and> a_generated_matching_id_is_not_guessable r1 r2 \<and> an_explicit_matching_id_is_kept r1
    \<and> the_iccid_comes_out_of_the_metadata \<and> something_that_is_not_metadata_is_refused
    \<and> the_activation_code_has_the_shape_an_lpa_parses"
  using message_tests(1) [OF assms(2)] message_tests(2-5) hex_test recorded_response_test [OF assms(1)] store_tests
    migration_test service_tests drawn_ids_test [OF assms(3-5)]
  by simp

text \<open>An engine that obeys both hypotheses: hexadecimal, except for the one text of the test.\<close>

definition test_engine :: b64_engine where
  "test_engine =
     \<lparr> b64_encode = (\<lambda>b. if b = [0x30, 0x00] then ''MAA='' else to_hex_upper b),
       b64_decode = (\<lambda>s. if s = ''MAA='' then Inr [0x30, 0x00] else b64_decode hex_engine s) \<rparr>"

lemma test_engine_lawful: "b64_lawful test_engine"
proof -
  have "to_hex_upper b \<noteq> ''MAA=''" for b
  proof
    assume "to_hex_upper b = ''MAA=''"
    then have "from_hex ''MAA='' = Ret (Inr b)"
      using from_hex_to_hex_upper [of b] by simp
    then show False by (simp add: from_hex_eq to_digit16_def ascii_digit16_def is_cont_def)
  qed
  then show ?thesis
    using hex_engine_lawful by (simp add: b64_lawful_def test_engine_def hex_engine_def)
qed

lemma unit_tests_hold_witness:
  "a_generated_matching_id_is_not_guessable
     \<lparr> tape = (\<lambda>_. 0), pos = 0, csprng_up = True \<rparr> \<lparr> tape = (\<lambda>_. 1), pos = 0, csprng_up = True \<rparr>
   \<and> a_transaction_id_is_uppercase_hex_not_base64 test_engine"
proof -
  let ?r0 = "\<lparr> tape = (\<lambda>_. 0), pos = 0, csprng_up = True \<rparr>"
  let ?r1 = "\<lparr> tape = (\<lambda>_. 1), pos = 0, csprng_up = True \<rparr>"
  have draws: "generate_matching_id ?r0 = Ret (replicate 22 CHR ''A'')"
    "generate_matching_id ?r1 = Ret (replicate 22 CHR ''B'')"
    by (simp_all add: generate_matching_id_def getrandom_fill_def map_replicate_const
        matching_char_def ALPHABET_def)
  have "b64_encode test_engine [0x30, 0x00] = ''MAA=''"
    by (simp add: test_engine_def)
  from unit_tests_hold [OF test_engine_lawful this draws] show ?thesis by simp
qed

end
