(* ===== verification/Build.thy ===== *)
theory Build
  imports Prelude "HOL-Library.Char_ord" "HOL-Library.List_Lexorder" "HOL-Library.Multiset"
begin

text \<open>
  \<open>crates/rsp-sys/build.rs\<close>: the build script that makes the C library, bundles the generated
  codec's object files into one archive and tells cargo what to link. The file system and the
  programs it runs (make, ar, bindgen) are the record \<open>build_env\<close>; the script is a function
  from it to what it did, in order, and whether it returned or panicked. Paths are Unix paths.
\<close>

section \<open>Paths\<close>

text \<open>\<open>Path::join\<close>: an absolute second path replaces the first.\<close>

definition path_join :: "string \<Rightarrow> string \<Rightarrow> string" where
  "path_join a b =
     (if b \<noteq> [] \<and> hd b = CHR ''/'' then b
      else if a = [] \<or> last a = CHR ''/'' then a @ b
      else a @ ''/'' @ b)"

text \<open>\<open>Path::extension\<close> of a file name: what follows its last dot, unless that dot leads it.\<close>

definition extension :: "string \<Rightarrow> string option" where
  "extension name =
     (if name = ''..'' \<or> CHR ''.'' \<notin> set name then None
      else
        (let ext = rev (takeWhile (\<lambda>c. c \<noteq> CHR ''.'') (rev name)) in
         if length name = Suc (length ext) then None else Some ext))"

text \<open>\<open>PathBuf\<close>s are ordered by their components.\<close>

fun components_from :: "string \<Rightarrow> string \<Rightarrow> string list" where
  "components_from cur [] = [rev cur]"
| "components_from cur (c # cs) =
     (if c = CHR ''/'' then rev cur # components_from [] cs else components_from (c # cur) cs)"

definition components :: "string \<Rightarrow> string list" where
  "components p = components_from [] p"

section \<open>The script\<close>

text \<open>
  \<open>read_dir\<close> gives the file names in whatever order the system lists them, \<open>None\<close> for an entry
  it cannot read; a program is \<open>None\<close> when it cannot be run, else whether it succeeded.
\<close>

record build_env =
  cargo_manifest_dir :: "string option"
  out_dir :: "string option"
  canonicalize :: "string \<Rightarrow> string option"
  make_in :: "string \<Rightarrow> bool option"
  read_dir :: "string \<Rightarrow> string option list option"
  ar_rcs :: "string \<Rightarrow> string list \<Rightarrow> bool option"
  bindgen :: "string \<Rightarrow> string option"
  can_write :: "string \<Rightarrow> bool"

datatype build_action =
    RunMake string
  | RemoveFile string
  | RunAr string "string list"
  | PrintLine string
  | WriteFile string string

definition object_files :: "string \<Rightarrow> string option list \<Rightarrow> string list" where
  "object_files dir entries =
     List.map_filter
       (\<lambda>e. case e of
              None \<Rightarrow> None
            | Some name \<Rightarrow> if extension name = Some ''o'' then Some (path_join dir name) else None)
       entries"

definition link_lines :: "string \<Rightarrow> string \<Rightarrow> string list" where
  "link_lines vendor out =
     [''cargo:rustc-link-search=native='' @ vendor,
      ''cargo:rustc-link-search=native='' @ out,
      ''cargo:rustc-link-search=native='' @ path_join vendor ''vendor/mbedtls/library'',
      ''cargo:rustc-link-lib=static=rsp'',
      ''cargo:rustc-link-lib=static=dist'',
      ''cargo:rustc-link-lib=static=mbedx509'',
      ''cargo:rustc-link-lib=static=mbedcrypto'']"

definition generate_bindings :: "build_env \<Rightarrow> string \<Rightarrow> string \<Rightarrow> build_action list \<times> unit outcome" where
  "generate_bindings E vendor out =
     (let header = path_join vendor ''include/rsp.h'';
          printed = [PrintLine (''cargo:rerun-if-changed='' @ header)] in
      if \<not> valid_utf8 (map byte_of_char header) then (printed, Panic)
      else
        (case bindgen E header of
           None \<Rightarrow> (printed, Panic)
         | Some code \<Rightarrow>
             (let target = path_join out ''bindings.rs'' in
              if can_write E target then (printed @ [WriteFile target code], Ret ())
              else (printed, Panic))))"

definition bundle_objects ::
  "build_env \<Rightarrow> string \<Rightarrow> string \<Rightarrow> string list \<Rightarrow> build_action list \<times> unit outcome"
where
  "bundle_objects E vendor out objs =
     (let dist_a = path_join out ''libdist.a'';
          acts = [RemoveFile dist_a, RunAr dist_a objs] in
      case ar_rcs E dist_a objs of
        None \<Rightarrow> ([RemoveFile dist_a], Panic)
      | Some False \<Rightarrow> (acts, Panic)
      | Some True \<Rightarrow>
          (case generate_bindings E vendor out of
             (rest, r) \<Rightarrow> (acts @ map PrintLine (link_lines vendor out) @ rest, r)))"

definition make_and_bundle :: "build_env \<Rightarrow> string \<Rightarrow> string \<Rightarrow> build_action list \<times> unit outcome" where
  "make_and_bundle E vendor out =
     (case make_in E vendor of
        None \<Rightarrow> ([], Panic)
      | Some False \<Rightarrow> ([RunMake vendor], Panic)
      | Some True \<Rightarrow>
          (case read_dir E (path_join vendor ''dist'') of
             None \<Rightarrow> ([RunMake vendor], Panic)
           | Some entries \<Rightarrow>
               (let objs = object_files (path_join vendor ''dist'') entries in
                if objs = [] then ([RunMake vendor], Panic)
                else
                  (case bundle_objects E vendor out (sort_key components objs) of
                     (rest, r) \<Rightarrow> (RunMake vendor # rest, r)))))"

definition build_main :: "build_env \<Rightarrow> build_action list \<times> unit outcome" where
  "build_main E =
     (case cargo_manifest_dir E of
        None \<Rightarrow> ([], Panic)
      | Some manifest \<Rightarrow>
          (case canonicalize E (path_join manifest ''../../vendor/euicc-rsp'') of
             None \<Rightarrow> ([], Panic)
           | Some vendor \<Rightarrow>
               (case out_dir E of
                  None \<Rightarrow> ([], Panic)
                | Some out \<Rightarrow> make_and_bundle E vendor out)))"

section \<open>The order of the directory does not matter\<close>

lemma components_from_append:
  "CHR ''/'' \<notin> set name \<Longrightarrow>
     components_from cur (p @ CHR ''/'' # name) = components_from cur p @ [name]"
proof (induction p arbitrary: cur)
  case Nil
  have "components_from acc name = [rev acc @ name]" for acc
    using Nil by (induction name arbitrary: acc) auto
  then show ?case by simp
qed auto

lemma components_join:
  assumes "CHR ''/'' \<notin> set name" and "dir \<noteq> []" and "last dir \<noteq> CHR ''/''"
  shows "components (path_join dir name) = components dir @ [name]"
proof -
  have "name = [] \<or> hd name \<noteq> CHR ''/''"
    using assms(1) by (cases name) auto
  then have "path_join dir name = dir @ CHR ''/'' # name"
    using assms(2,3) by (auto simp: path_join_def)
  then show ?thesis
    using components_from_append [OF assms(1)] by (simp add: components_def)
qed

lemma mset_map_filter: "mset (List.map_filter f xs) =
    image_mset (\<lambda>x. the (f x)) (filter_mset (\<lambda>x. f x \<noteq> None) (mset xs))"
  by (simp add: List.map_filter_def o_def)

lemma object_files_perm: "mset es = mset es' \<Longrightarrow> mset (object_files d es) = mset (object_files d es')"
  by (simp add: object_files_def mset_map_filter)

lemma set_object_files:
  "set (object_files dir es) = {path_join dir n |n. Some n \<in> set es \<and> extension n = Some ''o''}"
  by (induction es)
    (auto simp: object_files_def List.map_filter_simps split: option.split)

text \<open>File names have no slash.\<close>

definition plain_names :: "string option list \<Rightarrow> bool" where
  "plain_names es \<longleftrightarrow> (\<forall>n. Some n \<in> set es \<longrightarrow> CHR ''/'' \<notin> set n)"

lemma object_files_inj:
  assumes "plain_names es" and "dir \<noteq> []" and "last dir \<noteq> CHR ''/''"
  shows "inj_on components (set (object_files dir es))"
proof (rule inj_onI)
  fix p q assume p: "p \<in> set (object_files dir es)" and q: "q \<in> set (object_files dir es)"
    and eq: "components p = components q"
  have "\<exists>n. CHR ''/'' \<notin> set n \<and> r = path_join dir n" if "r \<in> set (object_files dir es)" for r
    using that assms(1) by (auto simp: set_object_files plain_names_def)
  then obtain m n where "CHR ''/'' \<notin> set m" "p = path_join dir m" "CHR ''/'' \<notin> set n" "q = path_join dir n"
    using p q by metis
  with eq components_join [OF _ assms(2,3)] show "p = q" by simp
qed

lemma object_files_sorted_perm:
  assumes "mset es = mset es'" and "plain_names es" and "dir \<noteq> []" and "last dir \<noteq> CHR ''/''"
  shows "sort_key components (object_files dir es) = sort_key components (object_files dir es')"
  by (rule sort_key_inj_key_eq)
    (simp_all add: object_files_perm [OF assms(1)] object_files_inj [OF assms(2-4)])

lemma path_join_dist:
  "path_join vendor ''dist'' \<noteq> []" "last (path_join vendor ''dist'') \<noteq> CHR ''/''"
  by (simp_all add: path_join_def)

section \<open>Properties\<close>

text \<open>
  C39: the archive is reproducible. Two builds that differ only in the order in which the system
  lists the generated object files run exactly the same commands, print exactly the same lines and
  end the same way: the objects are sorted before they are archived.
\<close>

theorem archive_is_reproducible:
  assumes "\<And>d es. read_dir E d = Some es \<Longrightarrow> plain_names es"
    and "\<And>d. rel_option (\<lambda>es es'. mset es = mset es') (read_dir E d) (listing d)"
  shows "build_main (E\<lparr>read_dir := listing\<rparr>) = build_main E"
proof -
  have same: "make_and_bundle (E\<lparr>read_dir := listing\<rparr>) vendor out = make_and_bundle E vendor out"
    for vendor out
  proof (cases "read_dir E (path_join vendor ''dist'')")
    case None
    then have "listing (path_join vendor ''dist'') = None"
      using assms(2) [of "path_join vendor ''dist''"] by simp
    with None show ?thesis by (simp add: make_and_bundle_def split: option.split)
  next
    case (Some es)
    then obtain es' where es': "listing (path_join vendor ''dist'') = Some es'" "mset es = mset es'"
      using assms(2) [of "path_join vendor ''dist''"] by (auto elim: option.rel_cases)
    note perm = object_files_sorted_perm [OF es'(2) assms(1) [OF Some] path_join_dist [of vendor]]
    have "object_files (path_join vendor ''dist'') es' = []
        \<longleftrightarrow> object_files (path_join vendor ''dist'') es = []"
      using object_files_perm [OF es'(2), of "path_join vendor ''dist''"]
      by (metis mset_zero_iff)
    with Some es'(1) perm show ?thesis
      by (simp add: make_and_bundle_def bundle_objects_def generate_bindings_def Let_def
          split: option.split bool.split)
  qed
  show ?thesis
    by (simp add: build_main_def same split: option.split)
qed

text \<open>
  A build that succeeds did all of it. If the script returns, it ran make in the vendored
  directory, replaced the archive by one of exactly the object files listed in dist, each as often
  as it is listed and there is at least one, printed the search paths and then the four libraries
  with librsp before the codec and before mbedTLS, and wrote the bindings; otherwise it panicked,
  and then it never wrote the bindings.
\<close>

theorem build_succeeds_completely:
  "(\<exists>vendor out es objs code. build_main E =
      (RunMake vendor # RemoveFile (path_join out ''libdist.a'')
         # RunAr (path_join out ''libdist.a'') objs
         # map PrintLine (link_lines vendor out)
         @ [PrintLine (''cargo:rerun-if-changed='' @ path_join vendor ''include/rsp.h''),
            WriteFile (path_join out ''bindings.rs'') code], Ret ())
     \<and> read_dir E (path_join vendor ''dist'') = Some es
     \<and> objs \<noteq> [] \<and> mset objs = mset (object_files (path_join vendor ''dist'') es)
     \<and> make_in E vendor = Some True \<and> ar_rcs E (path_join out ''libdist.a'') objs = Some True
     \<and> bindgen E (path_join vendor ''include/rsp.h'') = Some code)
   \<or> (snd (build_main E) = Panic \<and> (\<forall>f code. WriteFile f code \<notin> set (fst (build_main E))))"
proof (cases "snd (build_main E)")
  case (Ret u)
  then obtain manifest vendor out es code where run:
    "cargo_manifest_dir E = Some manifest" "out_dir E = Some out"
    "canonicalize E (path_join manifest ''../../vendor/euicc-rsp'') = Some vendor"
    "make_in E vendor = Some True" "read_dir E (path_join vendor ''dist'') = Some es"
    "object_files (path_join vendor ''dist'') es \<noteq> []"
    "ar_rcs E (path_join out ''libdist.a'')
       (sort_key components (object_files (path_join vendor ''dist'') es)) = Some True"
    "valid_utf8 (map byte_of_char (path_join vendor ''include/rsp.h''))"
    "bindgen E (path_join vendor ''include/rsp.h'') = Some code"
    "can_write E (path_join out ''bindings.rs'')"
    by (auto simp: build_main_def make_and_bundle_def bundle_objects_def generate_bindings_def Let_def
        split: option.splits bool.splits prod.splits if_splits)
  let ?objs = "sort_key components (object_files (path_join vendor ''dist'') es)"
  have "build_main E =
      (RunMake vendor # RemoveFile (path_join out ''libdist.a'')
         # RunAr (path_join out ''libdist.a'') ?objs
         # map PrintLine (link_lines vendor out)
         @ [PrintLine (''cargo:rerun-if-changed='' @ path_join vendor ''include/rsp.h''),
            WriteFile (path_join out ''bindings.rs'') code], Ret ())"
    using run
    by (simp add: build_main_def make_and_bundle_def bundle_objects_def generate_bindings_def Let_def)
  moreover have "?objs \<noteq> []" and "mset ?objs = mset (object_files (path_join vendor ''dist'') es)"
    using run(6) by (metis mset_sort mset_zero_iff, simp)
  ultimately show ?thesis using run by blast
next
  case Panic
  then have "WriteFile f code \<notin> set (fst (build_main E))" for f code
    by (auto simp: build_main_def make_and_bundle_def bundle_objects_def generate_bindings_def Let_def
        split: option.splits bool.splits prod.splits if_splits)
  with Panic show ?thesis by blast
qed

section \<open>The properties at work\<close>

definition demo_build :: build_env where
  "demo_build =
     \<lparr> cargo_manifest_dir = Some ''/w/rsp-sys'', out_dir = Some ''/o'',
       canonicalize = (\<lambda>_. Some ''/w/euicc-rsp''), make_in = (\<lambda>_. Some True),
       read_dir = (\<lambda>_. Some [Some ''b.o'', Some ''a.c'', Some ''a.o'', Some ''.o'']),
       ar_rcs = (\<lambda>_ _. Some True), bindgen = (\<lambda>_. Some ''code''), can_write = (\<lambda>_. True) \<rparr>"

theorem archive_is_reproducible_witness:
  "build_main (demo_build\<lparr>read_dir := \<lambda>_. Some [Some ''a.o'', Some ''.o'', Some ''b.o'', Some ''a.c'']\<rparr>)
     = build_main demo_build
   \<and> RunAr ''/o/libdist.a'' [''/w/euicc-rsp/dist/a.o'', ''/w/euicc-rsp/dist/b.o'']
       \<in> set (fst (build_main demo_build))"
proof
  show "build_main (demo_build\<lparr>read_dir :=
      \<lambda>_. Some [Some ''a.o'', Some ''.o'', Some ''b.o'', Some ''a.c'']\<rparr>) = build_main demo_build"
    by (rule archive_is_reproducible) (auto simp: demo_build_def plain_names_def)
  show "RunAr ''/o/libdist.a'' [''/w/euicc-rsp/dist/a.o'', ''/w/euicc-rsp/dist/b.o'']
       \<in> set (fst (build_main demo_build))"
    by (simp add: build_main_def demo_build_def make_and_bundle_def bundle_objects_def
        generate_bindings_def Let_def object_files_def List.map_filter_simps extension_def path_join_def
        components_def byte_of_char_def)
qed

end
