(* ===== verification/Morphisms.thy ===== *)
theory Morphisms
  imports Programs Runs
begin

text \<open>
  Two stores that a handler cannot tell apart. The locale \<open>store_morphism\<close> relates the calls the
  handlers make on one store to those on another through a map of states and a map of orders that
  keeps what the handlers read; its theorem is that every handler then gives the same answer and
  related states. It is interpreted twice: on the map from the SQLite file to two plain lists, and
  on the map that replaces every MatchingID.
\<close>

section \<open>Stores related by a map\<close>

definition map_store :: "('st \<Rightarrow> 'tt) \<Rightarrow> ('st, 's) app_state \<Rightarrow> ('tt, 's) app_state" where
  "map_store h st = with_store (h (app_store st)) (memory_of st)"

lemma map_store_simps [simp]:
  "app_store (map_store h st) = h (app_store st)"
  "app_sessions (map_store h st) = app_sessions st"
  "app_config (map_store h st) = app_config st"
  "sessions_of (map_store h st) = sessions_of st"
  "with_sessions t (map_store h st) = map_store h (with_sessions t st)"
  "poison (map_store h st) = map_store h (poison st)"
  "(map_store h st)\<lparr>app_store := h db\<rparr> = map_store h (st\<lparr>app_store := db\<rparr>)"
  by (simp_all add: map_store_def with_store_def memory_of_def sessions_of_def with_sessions_def
      poison_def)

locale store_morphism =
  fixes S :: "'st store_ops"
    and T :: "'tt store_ops"
    and inv :: "'st \<Rightarrow> bool"
    and h :: "'st \<Rightarrow> 'tt"
    and g :: "order_t \<Rightarrow> order_t"
  assumes keeps: "ord_id (g x) = ord_id x" "ord_upp (g x) = ord_upp x"
      "ord_metadata (g x) = ord_metadata x" "ord_state (g x) = ord_state x"
      "ord_euicc_cert (g x) = ord_euicc_cert x"
    and on_list: "inv st \<Longrightarrow> list_orders T (h st) = map_sum id (map g) (list_orders S st)"
    and on_iccid:
      "inv st \<Longrightarrow> order_by_iccid T (h st) i = map_sum id (map_option g) (order_by_iccid S st i)"
    and on_bind: "inv st \<Longrightarrow> bind_euicc T (h st) k e c = map_prod h id (bind_euicc S st k e c)"
    and on_set: "inv st \<Longrightarrow> set_state T (h st) k s = map_prod h id (set_state S st k s)"
    and on_record: "inv st \<Longrightarrow> record_notification T (h st) n = map_prod h id (record_notification S st n)"
    and inv_bind: "inv st \<Longrightarrow> inv (fst (bind_euicc S st k e c))"
    and inv_set: "inv st \<Longrightarrow> inv (fst (set_state S st k s))"
    and inv_record: "inv st \<Longrightarrow> inv (fst (record_notification S st n))"
begin

lemma offered_g [simp]: "offered (g x) = offered x"
  by (simp add: offered_def keeps)

lemma filter_offered: "filter offered (map g xs) = map g (filter offered xs)"
  by (simp add: filter_map o_def)

lemma initiate_maps:
  "initiate_authentication L env (map_store h st) req
     = map_prod id (map_store h) (initiate_authentication L env st req)"
  by (simp add: initiate_authentication_def split: outcome.split prod.split sum.split)

lemma remember_maps:
  assumes "inv st"
  shows "remember_euicc T (h st) i e c = h (remember_euicc S st i e c)"
  using assms by (simp add: remember_euicc_def Let_def on_bind on_set inv_bind split: option.split)

lemma authenticate_order_maps:
  assumes "inv (app_store st)"
  shows "authenticate_order T L (map_store h st) req (g ord)
     = map_prod id (map_store h) (authenticate_order S L st req ord)"
  using assms
  by (simp add: authenticate_order_def Let_def keeps remember_maps
      split: option.split outcome.split sum.split prod.split)

lemma authenticate_maps:
  assumes "inv (app_store st)"
  shows "authenticate_client T L (map_store h st) req
     = map_prod id (map_store h) (authenticate_client S L st req)"
  using assms authenticate_order_maps [OF assms]
  by (simp add: authenticate_client_def on_list filter_offered
      split: sum.split list.split)

lemma find_upp_maps:
  assumes "inv db"
  shows "find_upp T (h db) i = find_upp S db i"
proof -
  have "find (\<lambda>x. ord_id x = k) (map g xs) = map_option g (find (\<lambda>x. ord_id x = k) xs)" for k xs
    by (induction xs) (simp_all add: keeps)
  then show ?thesis
    using assms by (auto simp: find_upp_def on_list option.map_comp o_def keeps
        split: option.split sum.split)
qed

lemma bound_package_maps:
  assumes "inv (app_store st)"
  shows "get_bound_profile_package T L env (map_store h st) req
     = map_prod id (map_store h) (get_bound_profile_package S L env st req)"
  using assms
  by (simp add: get_bound_profile_package_def Let_def find_upp_maps on_set
      split: option.split outcome.split sum.split prod.split)

lemma notified_order_maps:
  assumes "inv db"
  shows "notified_order T L (h db) raw = map_option g (notified_order S L db raw)"
proof (cases "Option.bind (ok (notification_metadata L raw)) nt_iccid")
  case None
  then show ?thesis
    by (simp add: notified_order_def del: Option.bind_assoc)
next
  case (Some i)
  with assms show ?thesis
    by (cases "order_by_iccid S db i")
      (simp_all add: notified_order_def on_iccid del: Option.bind_assoc)
qed

lemma keep_maps:
  assumes "inv db"
  shows "keep_notification T (h db) (map_option g ord) v m raw = h (keep_notification S db ord v m raw)"
  using assms
  by (simp add: keep_notification_def kept_notification_def on_record option.map_comp o_def keeps
      split: option.split)

lemma move_maps:
  assumes "inv db"
  shows "move_order T (h db) (map_option g ord) v = h (move_order S db ord v)"
  using assms by (simp add: move_order_def on_set keeps split: option.split)

lemma inv_keep: "inv db \<Longrightarrow> inv (keep_notification S db ord v m raw)"
  by (simp add: keep_notification_def inv_record split: option.split)

lemma notification_maps:
  assumes "inv (app_store st)"
  shows "handle_notification T L (map_store h st) req
     = map_prod id (map_store h) (handle_notification S L st req)"
proof -
  have "Option.bind (map_option g ord) ord_euicc_cert = Option.bind ord ord_euicc_cert" for ord
    by (cases ord) (simp_all add: keeps)
  then show ?thesis
    using assms
    by (simp add: handle_notification_def Let_def notified_order_maps verified_notification_def
        keep_maps move_maps inv_keep)
qed

lemma handle_maps:
  assumes "inv (app_store st)"
  shows "handle T L env (map_store h st) r = map_prod id (map_store h) (handle S L env st r)"
  using assms
  by (cases r) (simp_all add: initiate_maps authenticate_maps bound_package_maps notification_maps)

end

section \<open>Two plain lists\<close>

text \<open>
  The reference store: the orders and the notifications as plain lists, with \<open>f\<close> saying which
  statement the database fails now. It has no rows, no columns and no SQL.
\<close>

definition unless_failing ::
  "(sql_stmt \<Rightarrow> string option) \<Rightarrow> sql_stmt \<Rightarrow> (store_error + 'a) \<Rightarrow> store_error + 'a"
where
  "unless_failing f s r = (case f s of Some t \<Rightarrow> Inl (Db (OtherError t)) | None \<Rightarrow> r)"

definition list_update ::
  "(sql_stmt \<Rightarrow> string option) \<Rightarrow> sql_stmt \<Rightarrow> store_spec \<Rightarrow> store_spec \<Rightarrow>
     store_spec \<times> (store_error + unit)"
where
  "list_update f s sp sp' =
     (case f s of Some t \<Rightarrow> (sp, Inl (Db (OtherError t))) | None \<Rightarrow> (sp', Inr ()))"

definition list_add ::
  "(sql_stmt \<Rightarrow> string option) \<Rightarrow> store_spec \<Rightarrow> new_order \<Rightarrow> store_spec \<times> (store_error + order_t)"
where
  "list_add f sp n =
     (case f InsertOrder of
        Some t \<Rightarrow> (sp, Inl (Db (OtherError t)))
      | None \<Rightarrow>
          if no_matching_id n \<in> set (map ord_matching_id (sp_orders sp))
          then (sp, Inl (DuplicateMatchingId (no_matching_id n)))
          else (let x = new_order_at (fresh_id (map ord_id (sp_orders sp))) n in
                (sp\<lparr>sp_orders := sp_orders sp @ [x]\<rparr>, Inr x)))"

definition list_store :: "(sql_stmt \<Rightarrow> string option) \<Rightarrow> store_spec store_ops" where
  "list_store f =
     \<lparr> add_order = list_add f,
       list_orders = (\<lambda>sp. unless_failing f SelectOrders (Inr (sp_orders sp))),
       order_by_matching_id = (\<lambda>sp m. unless_failing f SelectOneOrder
         (Inr (find (\<lambda>x. ord_matching_id x = m) (sp_orders sp)))),
       order_by_iccid = (\<lambda>sp i. unless_failing f SelectOneOrder
         (Inr (find (\<lambda>x. ord_iccid x = i) (sp_orders sp)))),
       bind_euicc = (\<lambda>sp k e c. list_update f UpdateEuicc sp
         (sp\<lparr>sp_orders := update_order k (\<lambda>x. x\<lparr>ord_eid := Some e, ord_euicc_cert := Some c\<rparr>)
               (sp_orders sp)\<rparr>)),
       set_state = (\<lambda>sp k s. list_update f UpdateState sp
         (sp\<lparr>sp_orders := update_order k (\<lambda>x. x\<lparr>ord_state := s\<rparr>) (sp_orders sp)\<rparr>)),
       record_notification = (\<lambda>sp n. list_update f InsertNotification sp
         (sp\<lparr>sp_notifications := sp_notifications sp
               @ [stored_at (fresh_id (map sn_id (sp_notifications sp))) n]\<rparr>)),
       notifications = (\<lambda>sp. unless_failing f SelectNotifications (Inr (sp_notifications sp))) \<rparr>"

definition current_with :: "(sql_stmt \<Rightarrow> string option) \<Rightarrow> conn \<Rightarrow> bool" where
  "current_with f db \<longleftrightarrow> db_inv db \<and> faults db = f"

lemma faults_of_calls [simp]:
  "faults (fst (sqlite_bind_euicc c k e cert)) = faults c"
  "faults (fst (sqlite_set_state c k s)) = faults c"
  "db_inv c \<Longrightarrow> faults (fst (sqlite_record_notification c n)) = faults c"
  by (simp_all add: sqlite_bind_euicc_def sqlite_set_state_def record_notification_eq
      split: option.split)

lemma bind_euicc_lists:
  assumes "db_inv c"
  shows "bind_euicc (list_store (faults c)) (spec_of c) k e cert
    = map_prod spec_of id (sqlite_bind_euicc c k e cert)"
proof -
  obtain c' u where run: "sqlite_bind_euicc c k e cert = (c', u)" by force
  then show ?thesis
    using sqlite_bind_euicc_effect [OF assms run] bind_euicc_snd [OF assms, of k e cert]
    by (auto simp: list_store_def list_update_def spec_of_def split: option.splits)
qed

lemma set_state_lists:
  assumes "db_inv c"
  shows "set_state (list_store (faults c)) (spec_of c) k s
    = map_prod spec_of id (sqlite_set_state c k s)"
proof -
  obtain c' u where run: "sqlite_set_state c k s = (c', u)" by force
  then show ?thesis
    using sqlite_set_state_effect [OF assms run] set_state_snd [OF assms, of k s]
    by (auto simp: list_store_def list_update_def spec_of_def split: option.splits)
qed

lemma record_notification_lists:
  assumes "db_inv c"
  shows "record_notification (list_store (faults c)) (spec_of c) n
    = map_prod spec_of id (sqlite_record_notification c n)"
proof -
  note views = notification_views_set_rows [OF refl, of c
      "fresh_id (map sn_id (db_notifications c))" n]
  show ?thesis
    by (simp add: list_store_def list_update_def record_notification_eq [OF assms]
        spec_of_eqI [OF views] split: option.split)
qed

interpretation lists: store_morphism sqlite_store "list_store f" "current_with f" spec_of "\<lambda>x. x"
  for f
proof (unfold_locales, goal_cases)
  case (6 st)
  then show ?case
    by (auto simp: current_with_def list_store_def unless_failing_def sqlite_list_orders_eq
        split: option.split)
next
  case (7 st i)
  then have inv: "db_inv st" and "faults st = f"
    by (simp_all add: current_with_def)
  then show ?case
    by (auto simp: list_store_def unless_failing_def sqlite_order_by_iccid_def
        one_eq [OF inv, where P = "\<lambda>x. ord_iccid x = i"] option.map_ident split: option.split)
next
  case (8 st k e c)
  then show ?case using bind_euicc_lists [of st k e c] by (simp add: current_with_def)
next
  case (9 st k s)
  then show ?case using set_state_lists [of st k s] by (simp add: current_with_def)
next
  case (10 st n)
  then show ?case using record_notification_lists [of st n] by (simp add: current_with_def)
next
  case (11 st k e c)
  then show ?case
    using sqlite.bind_euicc_effect [of st k e c "fst (sqlite_bind_euicc st k e c)"]
    by (simp add: current_with_def prod_eq_iff)
next
  case (12 st k s)
  then show ?case
    using sqlite.set_state_effect [of st k s "fst (sqlite_set_state st k s)"]
    by (simp add: current_with_def prod_eq_iff)
next
  case (13 st n)
  then show ?case
    using sqlite.record_notification_effect [of st n "fst (sqlite_record_notification st n)"]
    by (simp add: current_with_def prod_eq_iff)
qed simp_all

section \<open>Other MatchingIDs\<close>

text \<open>The same file with every MatchingID \<open>m\<close> replaced by \<open>f m\<close>.\<close>

definition rename_row :: "(string \<Rightarrow> string) \<Rightarrow> order_row \<Rightarrow> order_row" where
  "rename_row f r = r\<lparr>r_matching_id := f (r_matching_id r)\<rparr>"

definition rename_order :: "(string \<Rightarrow> string) \<Rightarrow> order_t \<Rightarrow> order_t" where
  "rename_order f x = x\<lparr>ord_matching_id := f (ord_matching_id x)\<rparr>"

definition rename_matching_ids :: "(string \<Rightarrow> string) \<Rightarrow> conn \<Rightarrow> conn" where
  "rename_matching_ids f c =
     c\<lparr>orders_tab := map_option (map (rename_row f)) (orders_tab c)\<rparr>"

lemma rename_row_simps [simp]:
  "r_id (rename_row f r) = r_id r" "r_iccid (rename_row f r) = r_iccid r"
  "r_state (rename_row f r) = r_state r"
  by (simp_all add: rename_row_def)

lemma rename_matching_ids_simps [simp]:
  "faults (rename_matching_ids f c) = faults c"
  "orders_tab (rename_matching_ids f c) = map_option (map (rename_row f)) (orders_tab c)"
  "notifications_tab (rename_matching_ids f c) = notifications_tab c"
  "(rename_matching_ids f c)\<lparr>notifications_tab := n\<rparr>
     = rename_matching_ids f (c\<lparr>notifications_tab := n\<rparr>)"
  by (simp_all add: rename_matching_ids_def)

lemma rename_set_rows:
  "(rename_matching_ids f c)\<lparr>orders_tab := Some (map (rename_row f) rows)\<rparr>
     = rename_matching_ids f (c\<lparr>orders_tab := Some rows\<rparr>)"
  by (simp add: rename_matching_ids_def)

lemma row_to_order_rename:
  "row_to_order (rename_row f r) = map_sum id (rename_order f) (row_to_order r)"
  by (simp add: row_to_order_def rename_order_def rename_row_def split: sum.split)

lemma collect_orders_rename:
  "collect_orders (map (rename_row f) rs) = map_sum id (map (rename_order f)) (collect_orders rs)"
  by (induction rs) (simp_all add: row_to_order_rename split: sum.split)

lemma insort_rename:
  "insort_key r_id (rename_row f r) (map (rename_row f) rs) = map (rename_row f) (insort_key r_id r rs)"
  by (induction rs) simp_all

lemma sort_rename: "sort_key r_id (map (rename_row f) rs) = map (rename_row f) (sort_key r_id rs)"
  by (induction rs) (simp_all add: insort_rename)

lemma order_rows_rename:
  "order_rows (rename_matching_ids f c) = map_sum id (map (rename_row f)) (order_rows c)"
  by (simp add: order_rows_def sort_rename split: option.split)

lemma find_rename:
  "(\<And>r. Q (rename_row f r) = Q r) \<Longrightarrow>
     find Q (map (rename_row f) rs) = map_option (rename_row f) (find Q rs)"
  by (induction rs) simp_all

lemma one_rename:
  assumes "\<And>r. Q (rename_row f r) = Q r"
  shows "one (rename_matching_ids f c) Q = map_sum id (map_option (rename_order f)) (one c Q)"
proof -
  have "find Q (map (rename_row f) rs) = map_option (rename_row f) (find Q rs)" for rs
    using assms by (rule find_rename)
  moreover have "(case map_option (rename_row f) found of None \<Rightarrow> Inr None
        | Some r \<Rightarrow> (case row_to_order r of Inl e \<Rightarrow> Inl e | Inr x \<Rightarrow> Inr (Some x)))
      = map_sum id (map_option (rename_order f)) (case found of None \<Rightarrow> Inr None
        | Some r \<Rightarrow> (case row_to_order r of Inl e \<Rightarrow> Inl e | Inr x \<Rightarrow> Inr (Some x)))" for found
    by (simp add: row_to_order_rename split: option.split sum.split)
  ultimately show ?thesis
    by (cases "faults c SelectOneOrder"; cases "order_rows c")
      (simp_all add: one_def read_stmt_def order_rows_rename)
qed

lemma list_orders_rename:
  "sqlite_list_orders (rename_matching_ids f c)
     = map_sum id (map (rename_order f)) (sqlite_list_orders c)"
  by (simp add: sqlite_list_orders_def read_stmt_def order_rows_rename collect_orders_rename
      split: option.split sum.split)

lemma update_rows_rename:
  assumes "\<And>r. u (rename_row f r) = rename_row f (u r)"
  shows "update_rows (rename_matching_ids f c) s k u
    = map_prod (rename_matching_ids f) id (update_rows c s k u)"
proof -
  have "map (\<lambda>r. if r_id r = k then u r else r) (map (rename_row f) rows)
      = map (rename_row f) (map (\<lambda>r. if r_id r = k then u r else r) rows)" for rows
    by (simp add: assms)
  then show ?thesis
    by (simp add: update_rows_def run_stmt_def rename_set_rows del: map_map split: option.split)
qed

lemma bind_euicc_rename:
  "sqlite_bind_euicc (rename_matching_ids f c) k e cert
     = map_prod (rename_matching_ids f) id (sqlite_bind_euicc c k e cert)"
  by (subst sqlite_bind_euicc_def, subst update_rows_rename)
    (simp_all add: sqlite_bind_euicc_def rename_row_def prod_eq_iff)

lemma set_state_rename:
  "sqlite_set_state (rename_matching_ids f c) k s
     = map_prod (rename_matching_ids f) id (sqlite_set_state c k s)"
  by (subst sqlite_set_state_def, subst update_rows_rename)
    (simp_all add: sqlite_set_state_def rename_row_def prod_eq_iff)

lemma record_notification_rename:
  "sqlite_record_notification (rename_matching_ids f c) n
     = map_prod (rename_matching_ids f) id (sqlite_record_notification c n)"
  by (simp add: sqlite_record_notification_def run_stmt_def Let_def prod_eq_iff split: option.split)

interpretation renamed: store_morphism sqlite_store sqlite_store "\<lambda>_. True"
    "rename_matching_ids f" "rename_order f" for f
proof (unfold_locales, goal_cases)
  case (7 st i)
  then show ?case by (simp add: sqlite_order_by_iccid_def one_rename)
qed (simp_all add: rename_order_def list_orders_rename [simplified] bind_euicc_rename set_state_rename
      record_notification_rename list_orders_rename)

section \<open>Requests under changing weather\<close>

text \<open>
  Requests one after another on the SQLite file and on the plain lists, the database failing the
  statements of each request as its \<open>f\<close> says.
\<close>

fun sqlite_requests ::
  "'s rsp_lib \<Rightarrow> (conn, 's) app_state \<Rightarrow> ((sql_stmt \<Rightarrow> string option) \<times> env \<times> request) list \<Rightarrow>
     response outcome list \<times> (conn, 's) app_state"
where
  "sqlite_requests L st [] = ([], st)"
| "sqlite_requests L st ((f, env, r) # rest) =
     (let (out, st1) = handle sqlite_store L env (st\<lparr>app_store := (app_store st)\<lparr>faults := f\<rparr>\<rparr>) r;
          (outs, st2) = sqlite_requests L st1 rest in (out # outs, st2))"

fun list_requests ::
  "'s rsp_lib \<Rightarrow> (store_spec, 's) app_state \<Rightarrow>
     ((sql_stmt \<Rightarrow> string option) \<times> env \<times> request) list \<Rightarrow>
     response outcome list \<times> (store_spec, 's) app_state"
where
  "list_requests L st [] = ([], st)"
| "list_requests L st ((f, env, r) # rest) =
     (let (out, st1) = handle (list_store f) L env st r;
          (outs, st2) = list_requests L st1 rest in (out # outs, st2))"

lemma map_store_weather:
  "map_store h (st\<lparr>app_store := db\<rparr>) = (map_store h st)\<lparr>app_store := h db\<rparr>"
  by simp

lemma spec_of_weather:
  "map_store spec_of (st\<lparr>app_store := (app_store st)\<lparr>faults := f\<rparr>\<rparr>) = map_store spec_of st"
  by (simp add: map_store_def with_store_def memory_of_def)

lemma rename_weather:
  "(rename_matching_ids f c)\<lparr>faults := g\<rparr> = rename_matching_ids f (c\<lparr>faults := g\<rparr>)"
  by (simp add: rename_matching_ids_def)

lemma sqlite_requests_lists:
  "db_inv (app_store st) \<Longrightarrow>
     list_requests L (map_store spec_of st) reqs
       = map_prod id (map_store spec_of) (sqlite_requests L st reqs)"
proof (induction reqs arbitrary: st)
  case (Cons q reqs)
  obtain f env r where q: "q = (f, env, r)" by (cases q)
  let ?st = "st\<lparr>app_store := (app_store st)\<lparr>faults := f\<rparr>\<rparr>"
  obtain out st1 where one: "handle sqlite_store L env ?st r = (out, st1)" by force
  have "db_inv (app_store ?st)"
    using Cons.prems by simp
  from sqlite.handle_step [OF this one] have "db_inv (app_store st1)" by simp
  note IH = Cons.IH [OF this]
  have "current_with f (app_store ?st)"
    using Cons.prems by (simp add: current_with_def)
  from lists.handle_maps [OF this, of L env r]
  have "handle (list_store f) L env (map_store spec_of st) r = (out, map_store spec_of st1)"
    unfolding one spec_of_weather by simp
  with IH one show ?case
    by (simp add: q split: prod.split)
qed simp

lemma sqlite_requests_rename:
  "sqlite_requests L (map_store (rename_matching_ids f) st) reqs
     = map_prod id (map_store (rename_matching_ids f)) (sqlite_requests L st reqs)"
proof (induction reqs arbitrary: st)
  case (Cons q reqs)
  obtain g env r where q: "q = (g, env, r)" by (cases q)
  let ?st = "st\<lparr>app_store := (app_store st)\<lparr>faults := g\<rparr>\<rparr>"
  obtain out st1 where one: "handle sqlite_store L env ?st r = (out, st1)" by force
  have "handle sqlite_store L env (map_store (rename_matching_ids f) ?st) r
      = (out, map_store (rename_matching_ids f) st1)"
    using renamed.handle_maps [OF TrueI, of L env f ?st r] one by simp
  with Cons.IH [of st1] one show ?case
    by (simp add: q rename_weather split: prod.split)
qed simp

section \<open>Properties\<close>

text \<open>
  C11: over a database this version can work with, the server behaves as one whose store is two
  plain lists: whatever requests arrive, and whatever statements the database fails for each of
  them, every answer is the same and the file afterwards holds exactly the lists.
\<close>

theorem server_over_sqlite_is_server_over_lists:
  assumes "db_inv (app_store st)"
  shows "list_requests L (map_store spec_of st) reqs
    = map_prod id (map_store spec_of) (sqlite_requests L st reqs)"
  using assms by (rule sqlite_requests_lists)

theorem server_over_sqlite_is_server_over_lists_witness:
  "db_inv (app_store demo_server)
   \<and> list_requests demo_lib (map_store spec_of demo_server)
       [(\<lambda>_. None, demo_env 1, InitiateRequest demo_initiate),
        (\<lambda>_. Some ''database is locked'', demo_env 1, AuthenticateRequest (demo_authenticate 1))]
     = map_prod id (map_store spec_of) (sqlite_requests demo_lib demo_server
       [(\<lambda>_. None, demo_env 1, InitiateRequest demo_initiate),
        (\<lambda>_. Some ''database is locked'', demo_env 1, AuthenticateRequest (demo_authenticate 1))])"
proof -
  have "db_inv (app_store demo_server)"
    using demo_db_inv by (simp add: demo_server_def router_state_def)
  with server_over_sqlite_is_server_over_lists [OF this] show ?thesis by blast
qed

text \<open>
  C21: no answer depends on a MatchingID. If every MatchingID in the file is replaced by anything
  else, the same ones by the same or all of them by one, every request is answered with the same
  bytes and the sessions are the same; only the replaced MatchingIDs tell the files apart. The
  secret that is meant to authorise a download plays no part in one. This holds of any file
  and any requests, whatever statements the database fails.
\<close>

theorem answers_ignore_matching_ids:
  "sqlite_requests L (map_store (rename_matching_ids f) st) reqs
     = map_prod id (map_store (rename_matching_ids f)) (sqlite_requests L st reqs)"
  by (rule sqlite_requests_rename)

end
