(* ===== verification/Ownership.thy ===== *)
theory Ownership
  imports Runs "HOL-Library.AList" "HOL-Library.Monad_Syntax"
begin

text \<open>
  The memory the C library hands out. \<open>DpSession\<close> (\<open>rsp/mod.rs\<close>) and \<open>OwnedDer\<close>
  (\<open>rsp/owned.rs\<close>) each hold a pointer and free it when they are dropped; the session table
  (\<open>server/sessions.rs\<close>) owns sessions and drops those it lets go of. Here the handlers run on
  pointers into an explicit heap, with the drops the language inserts at the end of each scope
  written out, on early returns and panics too. \<open>None\<close> is undefined behaviour: a pointer that is
  used or freed and does not point at a live object. The lemmas show that this never happens,
  that nothing leaks, and that the server over pointers is the server over values of \<open>Server\<close>.
\<close>

section \<open>The heap\<close>

type_synonym ptr = nat

text \<open>
  The heap of the C library: live sessions, live buffers, and the next address. No address is
  handed out twice, so that every use of a stale pointer is found out.
\<close>

record 's c_heap =
  heap_sessions :: "ptr \<Rightarrow> 's option"
  heap_buffers :: "ptr \<Rightarrow> bytes option"
  heap_next :: ptr

definition empty_heap :: "'s c_heap" where
  "empty_heap = \<lparr> heap_sessions = (\<lambda>_. None), heap_buffers = (\<lambda>_. None), heap_next = 1 \<rparr>"

definition new_session :: "'s \<Rightarrow> 's c_heap \<Rightarrow> ptr \<times> 's c_heap" where
  "new_session s hp =
     (heap_next hp,
      hp\<lparr>heap_sessions := (heap_sessions hp)(heap_next hp \<mapsto> s), heap_next := Suc (heap_next hp)\<rparr>)"

definition new_buffer :: "bytes \<Rightarrow> 's c_heap \<Rightarrow> ptr \<times> 's c_heap" where
  "new_buffer b hp =
     (heap_next hp,
      hp\<lparr>heap_buffers := (heap_buffers hp)(heap_next hp \<mapsto> b), heap_next := Suc (heap_next hp)\<rparr>)"

definition rsp_dp_session_free :: "ptr \<Rightarrow> 's c_heap \<Rightarrow> 's c_heap option" where
  "rsp_dp_session_free p hp =
     (case heap_sessions hp p of
        None \<Rightarrow> None
      | Some _ \<Rightarrow> Some (hp\<lparr>heap_sessions := (heap_sessions hp)(p := None)\<rparr>))"

definition libc_free :: "ptr \<Rightarrow> 's c_heap \<Rightarrow> 's c_heap option" where
  "libc_free p hp =
     (case heap_buffers hp p of
        None \<Rightarrow> None
      | Some _ \<Rightarrow> Some (hp\<lparr>heap_buffers := (heap_buffers hp)(p := None)\<rparr>))"

section \<open>Owners\<close>

text \<open>\<open>OwnedDer\<close>: the pointer and the length that came with it. \<open>DpSession\<close> is \<open>ptr dp_session\<close>.\<close>

record raw_der =
  rd_ptr :: ptr
  rd_len :: nat

definition box_der :: "owned_der \<Rightarrow> 's c_heap \<Rightarrow> raw_der \<times> 's c_heap" where
  "box_der d hp =
     (let (p, hp1) = new_buffer (der_ptr d) hp in (\<lparr> rd_ptr = p, rd_len = der_len d \<rparr>, hp1))"

definition slice_mem :: "raw_der \<Rightarrow> 's c_heap \<Rightarrow> bytes option" where
  "slice_mem d hp = map_option (take (rd_len d)) (heap_buffers hp (rd_ptr d))"

definition drop_der :: "raw_der \<Rightarrow> 's c_heap \<Rightarrow> 's c_heap option" where
  "drop_der d hp = libc_free (rd_ptr d) hp"

definition drop_session :: "ptr dp_session \<Rightarrow> 's c_heap \<Rightarrow> 's c_heap option" where
  "drop_session s hp = rsp_dp_session_free (dp_raw s) hp"

text \<open>
  The wrapper's calls. The library allocates its out-parameters when it returns 0 and leaves them
  alone otherwise; a call on a session changes what its pointer points at.
\<close>

definition initiate_mem ::
  "'s rsp_lib \<Rightarrow> bytes \<Rightarrow> bytes \<Rightarrow> bytes \<Rightarrow> bytes \<Rightarrow> string \<Rightarrow> string option \<Rightarrow> 's c_heap \<Rightarrow>
     (rsp_error + (ptr dp_session \<times> raw_der)) \<times> 's c_heap"
where
  "initiate_mem L euicc_challenge euicc_info1 transaction_id server_challenge
      own_address requested_address hp =
     (case initiate L euicc_challenge euicc_info1 transaction_id server_challenge
             own_address requested_address of
        Inl e \<Rightarrow> (Inl e, hp)
      | Inr (sess, resp) \<Rightarrow>
          (let (p, hp1) = new_session (dp_raw sess) hp;
               (d, hp2) = box_der resp hp1 in
           (Inr (\<lparr> dp_raw = p \<rparr>, d), hp2)))"

definition on_session ::
  "ptr dp_session \<Rightarrow> ('s dp_session \<Rightarrow> 's dp_session \<times> (rsp_error + owned_der)) \<Rightarrow> 's c_heap \<Rightarrow>
     ((rsp_error + raw_der) \<times> 's c_heap) option"
where
  "on_session self call hp =
     do { s \<leftarrow> heap_sessions hp (dp_raw self);
          let (sess, r) = call \<lparr> dp_raw = s \<rparr>;
          let hp1 = hp\<lparr>heap_sessions := (heap_sessions hp)(dp_raw self \<mapsto> dp_raw sess)\<rparr>;
          Some (case r of
                  Inl e \<Rightarrow> (Inl e, hp1)
                | Inr out \<Rightarrow> map_prod Inr id (box_der out hp1)) }"

definition authenticate_client_mem ::
  "'s rsp_lib \<Rightarrow> ptr dp_session \<Rightarrow> bytes \<Rightarrow> bytes \<Rightarrow> 's c_heap \<Rightarrow>
     ((rsp_error + raw_der) \<times> 's c_heap) option"
where
  "authenticate_client_mem L self auth_server_resp metadata =
     on_session self (\<lambda>s. dp_authenticate_client L s auth_server_resp metadata)"

definition bound_profile_package_mem ::
  "'s rsp_lib \<Rightarrow> ptr dp_session \<Rightarrow> bytes \<Rightarrow> bytes \<Rightarrow> bytes \<Rightarrow> 's c_heap \<Rightarrow>
     ((rsp_error + raw_der) \<times> 's c_heap) option"
where
  "bound_profile_package_mem L self prepare_download_resp upp otsk_dp =
     on_session self (\<lambda>s. dp_get_bound_profile_package L s prepare_download_resp upp otsk_dp)"

definition eid_mem ::
  "'s rsp_lib \<Rightarrow> ptr dp_session \<Rightarrow> 's c_heap \<Rightarrow> (rsp_error + string) outcome option" where
  "eid_mem L self hp = map_option (\<lambda>s. eid L \<lparr> dp_raw = s \<rparr>) (heap_sessions hp (dp_raw self))"

definition euicc_cert_mem ::
  "'s rsp_lib \<Rightarrow> ptr dp_session \<Rightarrow> 's c_heap \<Rightarrow> (rsp_error + bytes) option" where
  "euicc_cert_mem L self hp =
     map_option (\<lambda>s. euicc_cert L \<lparr> dp_raw = s \<rparr>) (heap_sessions hp (dp_raw self))"

section \<open>The session table\<close>

text \<open>The hash map as an association list; what is taken out of it is dropped.\<close>

type_synonym ptr_table = "(bytes \<times> ptr entry) list"

definition is_young :: "instant \<Rightarrow> bytes \<times> ptr entry \<Rightarrow> bool" where
  "is_young clock ke \<longleftrightarrow> clock - born (snd ke) < MAX_AGE"

fun drop_entries :: "ptr_table \<Rightarrow> 's c_heap \<Rightarrow> 's c_heap option" where
  "drop_entries [] hp = Some hp"
| "drop_entries (ke # kes) hp =
     do { hp1 \<leftarrow> drop_session (session (snd ke)) hp; drop_entries kes hp1 }"

definition sweep_mem :: "instant \<Rightarrow> ptr_table \<Rightarrow> 's c_heap \<Rightarrow> (ptr_table \<times> 's c_heap) option" where
  "sweep_mem clock t hp =
     do { hp1 \<leftarrow> drop_entries (filter (\<lambda>ke. \<not> is_young clock ke) t) hp;
          Some (filter (is_young clock) t, hp1) }"

definition insert_mem ::
  "instant \<Rightarrow> bytes \<Rightarrow> ptr dp_session \<Rightarrow> ptr_table \<Rightarrow> 's c_heap \<Rightarrow> (ptr_table \<times> 's c_heap) option"
where
  "insert_mem clock transaction_id sess t hp =
     do { (t1, hp1) \<leftarrow> sweep_mem clock t hp;
          hp2 \<leftarrow> (case map_of t1 transaction_id of
                    None \<Rightarrow> Some hp1
                  | Some old \<Rightarrow> drop_session (session old) hp1);
          Some (AList.update transaction_id
                  \<lparr> session = sess, entry_order_id = None, born = clock \<rparr> t1, hp2) }"

definition remove_mem :: "bytes \<Rightarrow> ptr_table \<Rightarrow> 's c_heap \<Rightarrow> (ptr_table \<times> 's c_heap) option" where
  "remove_mem transaction_id t hp =
     (case map_of t transaction_id of
        None \<Rightarrow> Some (t, hp)
      | Some e \<Rightarrow>
          do { hp1 \<leftarrow> drop_session (session e) hp; Some (AList.delete transaction_id t, hp1) })"

section \<open>The handlers\<close>

record ('st, 's) mem_server =
  ms_store :: 'st
  ms_table :: ptr_table
  ms_poisoned :: bool
  ms_config :: server_config
  ms_heap :: "'s c_heap"

text \<open>The server as it starts.\<close>

definition mem_start :: "'st \<Rightarrow> server_config \<Rightarrow> ('st, 's) mem_server" where
  "mem_start store cfg =
     \<lparr> ms_store = store, ms_table = [], ms_poisoned = False, ms_config = cfg,
       ms_heap = empty_heap \<rparr>"

text \<open>The end of a scope that owns a buffer, reached by returning or by unwinding.\<close>

definition leave ::
  "raw_der \<Rightarrow> response outcome \<Rightarrow> ('st, 's) mem_server \<Rightarrow>
     (response outcome \<times> ('st, 's) mem_server) option"
where
  "leave d out ms = do { hp \<leftarrow> drop_der d (ms_heap ms); Some (out, ms\<lparr>ms_heap := hp\<rparr>) }"

text \<open>The end of a scope that owns a buffer and a session; drops run in reverse order.\<close>

definition leave_session ::
  "ptr dp_session \<Rightarrow> raw_der \<Rightarrow> response outcome \<Rightarrow> ('st, 's) mem_server \<Rightarrow>
     (response outcome \<times> ('st, 's) mem_server) option"
where
  "leave_session s d out ms =
     do { hp1 \<leftarrow> drop_der d (ms_heap ms);
          hp2 \<leftarrow> drop_session s hp1;
          Some (out, ms\<lparr>ms_heap := hp2\<rparr>) }"

definition initiate_authentication_mem ::
  "'s rsp_lib \<Rightarrow> env \<Rightarrow> ('st, 's) mem_server \<Rightarrow> initiate_authentication_request \<Rightarrow>
     (response outcome \<times> ('st, 's) mem_server) option"
where
  "initiate_authentication_mem L env ms req =
     (if length (irq_euicc_challenge req) \<noteq> 16
      then Some (Ret (failed EXECUTION EXECUTION ''euiccChallenge is not 16 bytes''), ms)
      else
        (case nonce_transaction_id (cfg_nonces (ms_config ms)) (rng env) of
           (Panic, _) \<Rightarrow> Some (Panic, ms)
         | (Ret transaction_id, rng1) \<Rightarrow>
             (case nonce_server_challenge (cfg_nonces (ms_config ms)) rng1 of
                (Panic, _) \<Rightarrow> Some (Panic, ms)
              | (Ret server_challenge, _) \<Rightarrow>
                  (case initiate_mem L (irq_euicc_challenge req) (irq_euicc_info1 req)
                          transaction_id server_challenge (server_address (ms_config ms))
                          (Some (irq_smdp_address req)) (ms_heap ms) of
                     (Inl e, hp1) \<Rightarrow>
                       Some (Ret (from_rsp_error e SMDP_ADDRESS), ms\<lparr>ms_heap := hp1\<rparr>)
                   | (Inr (sess, resp), hp1) \<Rightarrow>
                       do { b \<leftarrow> slice_mem resp hp1;
                            case initiate_fields L b of
                              Inl e \<Rightarrow>
                                leave_session sess resp (Ret (from_rsp_error e EXECUTION))
                                  (ms\<lparr>ms_heap := hp1\<rparr>)
                            | Inr f \<Rightarrow>
                                if ms_poisoned ms
                                then leave_session sess resp Panic (ms\<lparr>ms_heap := hp1\<rparr>)
                                else do {
                                  (t, hp2) \<leftarrow> insert_mem (now env) transaction_id sess
                                               (ms_table ms) hp1;
                                  leave resp (Ret (ok_json (InitiateBody
                                     \<lparr> iar_header = header_success,
                                       iar_transaction_id = transaction_id,
                                       iar_server_signed1 = if_server_signed1 f,
                                       iar_server_signature1 = if_server_signature1 f,
                                       iar_euicc_ci_pkid_to_be_used = if_euicc_ci_pkid f,
                                       iar_server_certificate = if_server_certificate f \<rparr>)))
                                    (ms\<lparr>ms_table := t, ms_heap := hp2\<rparr>) } }))))"

definition authenticate_order_mem ::
  "'st store_ops \<Rightarrow> 's rsp_lib \<Rightarrow> ('st, 's) mem_server \<Rightarrow> authenticate_client_request \<Rightarrow> order_t \<Rightarrow>
     (response outcome \<times> ('st, 's) mem_server) option"
where
  "authenticate_order_mem S L ms req ord =
     (let tid = arq_transaction_id req in
      if ms_poisoned ms then Some (Panic, ms)
      else
        (case map_of (ms_table ms) tid of
           None \<Rightarrow>
             Some (Ret (failed TRANSACTION_ID UNKNOWN ''no session with this transactionId''), ms)
         | Some ent \<Rightarrow>
             do { (r, hp1) \<leftarrow> authenticate_client_mem L (session ent)
                                (arq_authenticate_server_response req) (ord_metadata ord)
                                (ms_heap ms);
                  let ms1 = ms\<lparr>ms_heap := hp1\<rparr>;
                  case r of
                    Inl e \<Rightarrow> Some (Ret (from_rsp_error e TRANSACTION_ID), ms1)
                  | Inr resp \<Rightarrow>
                      do { e \<leftarrow> eid_mem L (session ent) hp1;
                           case e of
                             Panic \<Rightarrow> leave resp Panic (ms1\<lparr>ms_poisoned := True\<rparr>)
                           | Ret eid_result \<Rightarrow>
                               do { cert_result \<leftarrow> euicc_cert_mem L (session ent) hp1;
                                    let ms2 = ms1\<lparr>ms_table :=
                                      AList.update tid
                                        (ent\<lparr>entry_order_id := Some (ord_id ord)\<rparr>)
                                        (ms_table ms)\<rparr>;
                                    b \<leftarrow> slice_mem resp hp1;
                                    case authenticate_fields L b of
                                      Inl e \<Rightarrow>
                                        leave resp (Ret (from_rsp_error e EXECUTION)) ms2
                                    | Inr g \<Rightarrow>
                                        leave resp (Ret (ok_json (AuthenticateBody
                                           \<lparr> acr_header = header_success,
                                             acr_transaction_id = tid,
                                             acr_profile_metadata = af_profile_metadata g,
                                             acr_smdp_signed2 = af_smdp_signed2 g,
                                             acr_smdp_signature2 = af_smdp_signature2 g,
                                             acr_smdp_certificate = af_smdp_certificate g \<rparr>)))
                                          (ms2\<lparr>ms_store :=
                                             remember_euicc S (ms_store ms2) (ord_id ord)
                                               (ok eid_result) (ok cert_result)\<rparr>) } } }))"

definition authenticate_client_handler_mem ::
  "'st store_ops \<Rightarrow> 's rsp_lib \<Rightarrow> ('st, 's) mem_server \<Rightarrow> authenticate_client_request \<Rightarrow>
     (response outcome \<times> ('st, 's) mem_server) option"
where
  "authenticate_client_handler_mem S L ms req =
     (case list_orders S (ms_store ms) of
        Inl e \<Rightarrow> Some (Ret (failed PROFILE EXECUTION (display_store_error e)), ms)
      | Inr orders \<Rightarrow>
          (case filter offered orders of
             [ord] \<Rightarrow> authenticate_order_mem S L ms req ord
           | [] \<Rightarrow>
               Some (Ret (failed PROFILE UNKNOWN
                  (''no order is available -- add one, or reset one that has ''
                   @ ''already been downloaded (smdp order list shows their state)'')), ms)
           | available \<Rightarrow>
               Some (Ret (failed PROFILE UNKNOWN
                  (show_nat (length available)
                   @ '' orders are available and the MatchingID is not read from ctxParams1 yet, ''
                   @ ''so this server cannot tell which is wanted'')), ms)))"

definition get_bound_profile_package_mem ::
  "'st store_ops \<Rightarrow> 's rsp_lib \<Rightarrow> env \<Rightarrow> ('st, 's) mem_server \<Rightarrow>
     get_bound_profile_package_request \<Rightarrow> (response outcome \<times> ('st, 's) mem_server) option"
where
  "get_bound_profile_package_mem S L env ms req =
     (let tid = grq_transaction_id req in
      case fst (nonce_otsk_dp (cfg_nonces (ms_config ms)) (rng env)) of
        Panic \<Rightarrow> Some (Panic, ms)
      | Ret otsk_dp \<Rightarrow>
          if ms_poisoned ms then Some (Panic, ms)
          else
            (case map_of (ms_table ms) tid of
               None \<Rightarrow>
                 Some (Ret (failed TRANSACTION_ID UNKNOWN
                   ''no session with this transactionId''), ms)
             | Some ent \<Rightarrow>
                 (case find_upp S (ms_store ms) (entry_order_id ent) of
                    None \<Rightarrow>
                      Some (Ret (failed PROFILE UNKNOWN
                         ''this session has not authenticated against an order yet''), ms)
                  | Some upp \<Rightarrow>
                      do { (r, hp1) \<leftarrow> bound_profile_package_mem L (session ent)
                                         (grq_prepare_download_response req) upp otsk_dp
                                         (ms_heap ms);
                           case r of
                             Inl e \<Rightarrow>
                               Some (Ret (from_rsp_error e TRANSACTION_ID), ms\<lparr>ms_heap := hp1\<rparr>)
                           | Inr bpp \<Rightarrow>
                               do { b \<leftarrow> slice_mem bpp hp1;
                                    (t, hp2) \<leftarrow> remove_mem tid (ms_table ms) hp1;
                                    leave bpp (Ret (ok_json (BoundPackageBody
                                       \<lparr> gbr_header = header_success,
                                         gbr_transaction_id = tid,
                                         gbr_bound_profile_package = b \<rparr>)))
                                      (ms\<lparr>ms_table := t, ms_heap := hp2,
                                          ms_store :=
                                            (case entry_order_id ent of
                                               None \<Rightarrow> ms_store ms
                                             | Some i \<Rightarrow>
                                                 fst (set_state S (ms_store ms) i Downloaded))\<rparr>)
                                  } })))"

text \<open>HandleNotification takes nothing from the C library's heap.\<close>

definition handle_notification_mem ::
  "'st store_ops \<Rightarrow> 's rsp_lib \<Rightarrow> ('st, 's) mem_server \<Rightarrow> handle_notification_request \<Rightarrow>
     (response outcome \<times> ('st, 's) mem_server) option"
where
  "handle_notification_mem S L ms req =
     (let raw = hrq_pending_notification req;
          ord = notified_order S L (ms_store ms) raw;
          verified = verified_notification L ord raw;
          meta = ok (notification_metadata L raw);
          store1 = keep_notification S (ms_store ms) ord verified meta raw in
      Some (Ret no_content, ms\<lparr>ms_store := move_order S store1 ord verified\<rparr>))"

fun handle_mem ::
  "'st store_ops \<Rightarrow> 's rsp_lib \<Rightarrow> env \<Rightarrow> ('st, 's) mem_server \<Rightarrow> request \<Rightarrow>
     (response outcome \<times> ('st, 's) mem_server) option"
where
  "handle_mem S L env ms (InitiateRequest r) = initiate_authentication_mem L env ms r"
| "handle_mem S L env ms (AuthenticateRequest r) = authenticate_client_handler_mem S L ms r"
| "handle_mem S L env ms (BoundPackageRequest r) = get_bound_profile_package_mem S L env ms r"
| "handle_mem S L env ms (NotificationRequest r) = handle_notification_mem S L ms r"

fun http_run_mem ::
  "'st store_ops \<Rightarrow> 's rsp_lib \<Rightarrow> ('st, 's) mem_server \<Rightarrow> (env \<times> request) list \<Rightarrow>
     (response outcome list \<times> ('st, 's) mem_server) option"
where
  "http_run_mem S L ms [] = Some ([], ms)"
| "http_run_mem S L ms ((env, r) # rest) =
     do { (out, ms1) \<leftarrow> handle_mem S L env ms r;
          (outs, ms2) \<leftarrow> http_run_mem S L ms1 rest;
          Some (out # outs, ms2) }"

section \<open>Who owns what\<close>

text \<open>The live objects of one kind are exactly those with an owner, and each has one.\<close>

definition allocated :: "(ptr \<Rightarrow> 'v option) \<Rightarrow> ptr \<Rightarrow> ptr list \<Rightarrow> bool" where
  "allocated cells limit ps \<longleftrightarrow> distinct ps \<and> dom cells = set ps \<and> (\<forall>p \<in> set ps. p < limit)"

locale heap_kind =
  fixes cells :: "'h \<Rightarrow> ptr \<Rightarrow> 'v option"
    and create :: "'v \<Rightarrow> 'h \<Rightarrow> ptr \<times> 'h"
    and release :: "ptr \<Rightarrow> 'h \<Rightarrow> 'h option"
    and limit :: "'h \<Rightarrow> ptr"
  assumes create_ptr: "fst (create v h) = limit h"
    and create_cells: "cells (snd (create v h)) = (cells h)(limit h \<mapsto> v)"
    and create_limit: "limit (snd (create v h)) = Suc (limit h)"
    and release_None: "cells h p = None \<Longrightarrow> release p h = None"
    and release_Some: "cells h p \<noteq> None \<Longrightarrow>
      \<exists>h'. release p h = Some h' \<and> cells h' = (cells h)(p := None) \<and> limit h' = limit h"
begin

lemma create_allocated:
  assumes "allocated (cells h) (limit h) ps"
  shows "allocated (cells (snd (create v h))) (limit (snd (create v h))) (fst (create v h) # ps)"
  using assms
  by (auto simp: allocated_def create_ptr create_cells create_limit less_SucI split: if_splits)

lemma release_allocated:
  assumes "allocated (cells h) (limit h) ps" and "p \<in> set ps"
  shows "\<exists>h'. release p h = Some h' \<and> cells h' = (cells h)(p := None) \<and> limit h' = limit h
    \<and> allocated (cells h') (limit h') (remove1 p ps)"
proof -
  have "cells h p \<noteq> None"
    using assms by (auto simp: allocated_def)
  from release_Some [OF this] assms show ?thesis
    by (auto simp: allocated_def set_remove1_eq)
qed

end

interpretation session_heap: heap_kind heap_sessions new_session rsp_dp_session_free heap_next
  by unfold_locales (auto simp: new_session_def rsp_dp_session_free_def)

interpretation buffer_heap: heap_kind heap_buffers new_buffer libc_free heap_next
  by unfold_locales (auto simp: new_buffer_def libc_free_def)

lemma frames [simp]:
  "heap_buffers (snd (new_session v hp)) = heap_buffers hp"
  "heap_sessions (snd (new_buffer b hp)) = heap_sessions hp"
  by (simp_all add: new_session_def new_buffer_def)

lemma release_frames:
  "rsp_dp_session_free p hp = Some hp' \<Longrightarrow> heap_buffers hp' = heap_buffers hp"
  "libc_free p hp = Some hp' \<Longrightarrow> heap_sessions hp' = heap_sessions hp"
  by (auto simp: rsp_dp_session_free_def libc_free_def split: option.splits)

lemma allocated_later: "allocated c n ps \<Longrightarrow> n \<le> m \<Longrightarrow> allocated c m ps"
  by (auto simp: allocated_def)

lemma allocated_perm: "allocated c n ps \<Longrightarrow> distinct qs \<Longrightarrow> set qs = set ps \<Longrightarrow> allocated c n qs"
  by (simp add: allocated_def)

definition table_ptrs :: "ptr_table \<Rightarrow> ptr list" where
  "table_ptrs t = map (\<lambda>ke. dp_raw (session (snd ke))) t"

text \<open>
  The table owns its sessions, the running code owns the sessions \<open>ps\<close> and the buffers \<open>bs\<close>,
  and nothing else is live.
\<close>

definition owned :: "ptr_table \<Rightarrow> ptr list \<Rightarrow> ptr list \<Rightarrow> 's c_heap \<Rightarrow> bool" where
  "owned t ps bs hp \<longleftrightarrow>
     distinct (map fst t)
     \<and> allocated (heap_sessions hp) (heap_next hp) (ps @ table_ptrs t)
     \<and> allocated (heap_buffers hp) (heap_next hp) bs"

text \<open>What the table stands for: each pointer replaced by what it points at.\<close>

definition entry_value :: "('s c_heap) \<Rightarrow> ptr entry \<Rightarrow> 's entry" where
  "entry_value hp e =
     \<lparr> session = \<lparr> dp_raw = the (heap_sessions hp (dp_raw (session e))) \<rparr>,
       entry_order_id = entry_order_id e, born = born e \<rparr>"

definition table_value :: "ptr_table \<Rightarrow> 's c_heap \<Rightarrow> 's sessions" where
  "table_value t hp = \<lparr> by_transaction = (\<lambda>k. map_option (entry_value hp) (map_of t k)) \<rparr>"

definition value_of :: "('st, 's) mem_server \<Rightarrow> ('st, 's) app_state" where
  "value_of ms =
     \<lparr> app_store = ms_store ms,
       app_sessions = \<lparr> guarded = table_value (ms_table ms) (ms_heap ms), poisoned = ms_poisoned ms \<rparr>,
       app_config = ms_config ms \<rparr>"

definition mem_ok :: "('st, 's) mem_server \<Rightarrow> bool" where
  "mem_ok ms \<longleftrightarrow> owned (ms_table ms) [] [] (ms_heap ms)"

lemma entry_value_simps [simp]:
  "entry_order_id (entry_value hp e) = entry_order_id e" "born (entry_value hp e) = born e"
  "session (entry_value hp e) = \<lparr> dp_raw = the (heap_sessions hp (dp_raw (session e))) \<rparr>"
  by (simp_all add: entry_value_def)

lemma get_session_table [simp]:
  "get_session k (table_value t hp) = map_option (entry_value hp) (map_of t k)"
  by (simp add: get_session_def table_value_def)

lemma table_value_same: "heap_sessions hp' = heap_sessions hp \<Longrightarrow> table_value t hp' = table_value t hp"
  by (simp add: table_value_def entry_value_def [abs_def])

lemma map_of_ptr: "map_of t k = Some e \<Longrightarrow> dp_raw (session e) \<in> set (table_ptrs t)"
  by (force simp: table_ptrs_def dest: map_of_SomeD)

lemma owned_lookup:
  assumes "owned t ps bs hp" and "map_of t k = Some e"
  shows "\<exists>s. heap_sessions hp (dp_raw (session e)) = Some s"
  using assms map_of_ptr [OF assms(2)] by (auto simp: owned_def allocated_def)

section \<open>Each step keeps the books\<close>

lemma new_buffer_owned:
  assumes "owned t ps bs hp"
  shows "owned t ps (fst (new_buffer b hp) # bs) (snd (new_buffer b hp))"
proof -
  have books: "distinct (map fst t)" "allocated (heap_sessions hp) (heap_next hp) (ps @ table_ptrs t)"
      "allocated (heap_buffers hp) (heap_next hp) bs"
    using assms by (simp_all add: owned_def)
  have "allocated (heap_sessions hp) (heap_next (snd (new_buffer b hp))) (ps @ table_ptrs t)"
    by (rule allocated_later [OF books(2)]) (simp add: buffer_heap.create_limit)
  with books(1) buffer_heap.create_allocated [OF books(3)] show ?thesis
    by (simp add: owned_def)
qed

lemma new_session_owned:
  assumes "owned t ps bs hp"
  shows "owned t (fst (new_session s hp) # ps) bs (snd (new_session s hp))"
    and "heap_sessions hp (fst (new_session s hp)) = None"
proof -
  have books: "distinct (map fst t)" "allocated (heap_sessions hp) (heap_next hp) (ps @ table_ptrs t)"
      "allocated (heap_buffers hp) (heap_next hp) bs"
    using assms by (simp_all add: owned_def)
  have "allocated (heap_buffers hp) (heap_next (snd (new_session s hp))) bs"
    by (rule allocated_later [OF books(3)]) (simp add: session_heap.create_limit)
  with books(1) session_heap.create_allocated [OF books(2)]
  show "owned t (fst (new_session s hp) # ps) bs (snd (new_session s hp))"
    by (simp add: owned_def)
  have "heap_next hp \<notin> dom (heap_sessions hp)"
    using books(2) by (auto simp: allocated_def)
  then show "heap_sessions hp (fst (new_session s hp)) = None"
    by (simp add: session_heap.create_ptr domIff)
qed

lemma drop_der_owned:
  assumes "owned t ps bs hp" and "rd_ptr d \<in> set bs"
  shows "\<exists>hp'. drop_der d hp = Some hp' \<and> owned t ps (remove1 (rd_ptr d) bs) hp'
    \<and> heap_sessions hp' = heap_sessions hp"
proof -
  have "allocated (heap_buffers hp) (heap_next hp) bs"
    using assms(1) by (simp add: owned_def)
  from buffer_heap.release_allocated [OF this assms(2)]
  obtain hp' where "libc_free (rd_ptr d) hp = Some hp'" and "heap_next hp' = heap_next hp"
    and "allocated (heap_buffers hp') (heap_next hp') (remove1 (rd_ptr d) bs)"
    by blast
  with assms(1) show ?thesis
    by (simp add: drop_der_def owned_def release_frames)
qed

lemma drop_session_allocated:
  assumes "allocated (heap_sessions hp) (heap_next hp) ps" and "dp_raw s \<in> set ps"
  shows "\<exists>hp'. drop_session s hp = Some hp' \<and> heap_next hp' = heap_next hp
    \<and> heap_sessions hp' = (heap_sessions hp)(dp_raw s := None)
    \<and> heap_buffers hp' = heap_buffers hp
    \<and> allocated (heap_sessions hp') (heap_next hp') (remove1 (dp_raw s) ps)"
proof -
  from session_heap.release_allocated [OF assms]
  obtain hp' where "rsp_dp_session_free (dp_raw s) hp = Some hp'"
    and "heap_sessions hp' = (heap_sessions hp)(dp_raw s := None)"
    and "heap_next hp' = heap_next hp"
    and "allocated (heap_sessions hp') (heap_next hp') (remove1 (dp_raw s) ps)"
    by blast
  then show ?thesis
    by (intro exI [of _ hp']) (simp add: drop_session_def release_frames)
qed

lemma drop_entries_allocated:
  assumes "allocated (heap_sessions hp) (heap_next hp) (ps @ table_ptrs es)"
  shows "\<exists>hp'. drop_entries es hp = Some hp' \<and> heap_next hp' = heap_next hp
    \<and> (\<forall>p. p \<notin> set (table_ptrs es) \<longrightarrow> heap_sessions hp' p = heap_sessions hp p)
    \<and> heap_buffers hp' = heap_buffers hp
    \<and> allocated (heap_sessions hp') (heap_next hp') ps"
  using assms
proof (induction es arbitrary: hp)
  case (Cons ke es)
  let ?p = "dp_raw (session (snd ke))"
  have "?p \<in> set (ps @ table_ptrs (ke # es))"
    by (simp add: table_ptrs_def)
  from drop_session_allocated [OF Cons.prems this]
  obtain h1 where h1: "drop_session (session (snd ke)) hp = Some h1"
      "heap_next h1 = heap_next hp" "heap_sessions h1 = (heap_sessions hp)(?p := None)"
      "heap_buffers h1 = heap_buffers hp"
    and "allocated (heap_sessions h1) (heap_next h1) (remove1 ?p (ps @ table_ptrs (ke # es)))"
    by blast
  moreover have "remove1 ?p (ps @ table_ptrs (ke # es)) = ps @ table_ptrs es"
    using Cons.prems by (auto simp: allocated_def table_ptrs_def remove1_append)
  ultimately have "allocated (heap_sessions h1) (heap_next h1) (ps @ table_ptrs es)"
    by simp
  from Cons.IH [OF this] obtain h2 where "drop_entries es h1 = Some h2" "heap_next h2 = heap_next h1"
      "\<forall>p. p \<notin> set (table_ptrs es) \<longrightarrow> heap_sessions h2 p = heap_sessions h1 p"
      "heap_buffers h2 = heap_buffers h1" "allocated (heap_sessions h2) (heap_next h2) ps"
    by blast
  with h1 show ?case
    by (intro exI [of _ h2]) (simp add: table_ptrs_def)
qed (simp add: table_ptrs_def)

lemma table_ptrs_split:
  "set (table_ptrs t) = set (table_ptrs (filter P t)) \<union> set (table_ptrs (filter (\<lambda>ke. \<not> P ke) t))"
  by (auto simp: table_ptrs_def)

lemma distinct_table_ptrs_split:
  "distinct (table_ptrs t) \<Longrightarrow>
     distinct (table_ptrs (filter P t) @ table_ptrs (filter (\<lambda>ke. \<not> P ke) t))"
  by (induction t) (auto simp: table_ptrs_def)

lemma map_of_filter_young:
  "distinct (map fst t) \<Longrightarrow>
     map_of (filter (is_young clock) t) k =
       (case map_of t k of None \<Rightarrow> None
        | Some e \<Rightarrow> if clock - born e < MAX_AGE then Some e else None)"
  by (induction t)
    (auto simp: is_young_def map_of_eq_None_iff [symmetric] split: option.split
      dest: map_of_SomeD)

lemma sweep_owned:
  assumes "owned t ps bs hp"
  shows "\<exists>t' hp'. sweep_mem clock t hp = Some (t', hp') \<and> owned t' ps bs hp'
    \<and> table_value t' hp' = sweep clock (table_value t hp)
    \<and> (\<forall>p \<in> set ps. heap_sessions hp' p = heap_sessions hp p)
    \<and> heap_buffers hp' = heap_buffers hp"
proof -
  let ?young = "filter (is_young clock) t" and ?old = "filter (\<lambda>ke. \<not> is_young clock ke) t"
  have books: "distinct (map fst t)" "allocated (heap_sessions hp) (heap_next hp) (ps @ table_ptrs t)"
      "allocated (heap_buffers hp) (heap_next hp) bs"
    using assms by (simp_all add: owned_def)
  have split: "distinct ((ps @ table_ptrs ?young) @ table_ptrs ?old)"
      "set ((ps @ table_ptrs ?young) @ table_ptrs ?old) = set (ps @ table_ptrs t)"
    using books(2) distinct_table_ptrs_split [of t "is_young clock"]
      table_ptrs_split [of t "is_young clock"] by (auto simp: allocated_def)
  from drop_entries_allocated [OF allocated_perm [OF books(2) this]]
  obtain hp' where hp': "drop_entries ?old hp = Some hp'" "heap_next hp' = heap_next hp"
      "\<forall>p. p \<notin> set (table_ptrs ?old) \<longrightarrow> heap_sessions hp' p = heap_sessions hp p"
      "heap_buffers hp' = heap_buffers hp"
    and alloc: "allocated (heap_sessions hp') (heap_next hp') (ps @ table_ptrs ?young)"
    by blast
  have "owned ?young ps bs hp'"
    using books alloc hp'(2,4) by (simp add: owned_def distinct_map_filter)
  moreover have "entry_value hp' e = entry_value hp e"
    if "map_of t k = Some e" and "clock - born e < MAX_AGE" for k e
  proof -
    have "map_of ?young k = Some e"
      using that by (simp add: map_of_filter_young [OF books(1)])
    from map_of_ptr [OF this] split(1) hp'(3) show ?thesis
      by (auto simp: entry_value_def)
  qed
  then have "table_value ?young hp' = sweep clock (table_value t hp)"
    by (auto simp: table_value_def sweep_def fun_eq_iff map_of_filter_young [OF books(1)]
        split: option.splits if_splits)
  moreover have "heap_sessions hp' p = heap_sessions hp p" if "p \<in> set ps" for p
    using that split(1) hp'(3) by auto
  ultimately show ?thesis
    using hp'(1,4) by (auto simp: sweep_mem_def)
qed

lemma delete_table_ptrs:
  assumes "distinct (map fst t)" and "distinct (table_ptrs t)" and "map_of t k = Some e"
  shows "distinct (table_ptrs (AList.delete k t))"
    and "set (table_ptrs (AList.delete k t)) = set (table_ptrs t) - {dp_raw (session e)}"
proof -
  show "distinct (table_ptrs (AList.delete k t))"
    using assms(2) by (simp add: table_ptrs_def AList.delete_eq distinct_map_filter)
  show "set (table_ptrs (AList.delete k t)) = set (table_ptrs t) - {dp_raw (session e)}"
    using assms
  proof (induction t)
    case (Cons ke t)
    then show ?case
      by (cases "fst ke = k")
        (auto simp: table_ptrs_def delete_notin_dom image_iff dest!: map_of_SomeD; force)+
  qed simp
qed

lemma update_table_ptrs:
  assumes "distinct (map fst t)" and "distinct (dp_raw (session e) # table_ptrs (AList.delete k t))"
  shows "distinct (table_ptrs (AList.update k e t))
    \<and> set (table_ptrs (AList.update k e t))
      = insert (dp_raw (session e)) (set (table_ptrs (AList.delete k t)))"
  using assms
proof (induction t)
  case (Cons ke t)
  obtain k' e' where ke: "ke = (k', e')" by force
  show ?case
  proof (cases "k' = k")
    case True
    then have "AList.delete k t = t"
      using Cons.prems by (intro delete_id) (auto simp: ke)
    with Cons.prems True show ?thesis
      by (simp add: ke table_ptrs_def)
  next
    case False
    with Cons show ?thesis
      by (auto simp: ke table_ptrs_def)
  qed
qed (simp add: table_ptrs_def)

lemma drop_taken_out:
  assumes "owned t ps bs hp" and "map_of t k = Some e"
  shows "\<exists>hp'. drop_session (session e) hp = Some hp' \<and> owned (AList.delete k t) ps bs hp'
    \<and> table_value (AList.delete k t) hp' = remove_session k (table_value t hp)
    \<and> (\<forall>p. p \<noteq> dp_raw (session e) \<longrightarrow> heap_sessions hp' p = heap_sessions hp p)
    \<and> dp_raw (session e) \<notin> set ps \<and> heap_buffers hp' = heap_buffers hp"
proof -
  let ?p = "dp_raw (session e)"
  have books: "distinct (map fst t)" "allocated (heap_sessions hp) (heap_next hp) (ps @ table_ptrs t)"
      "allocated (heap_buffers hp) (heap_next hp) bs"
    using assms(1) by (simp_all add: owned_def)
  then have ptrs: "distinct (table_ptrs t)" and p: "?p \<in> set (table_ptrs t)" "?p \<notin> set ps"
    using map_of_ptr [OF assms(2)] by (auto simp: allocated_def)
  note del = delete_table_ptrs [OF books(1) ptrs assms(2)]
  have "?p \<in> set (ps @ table_ptrs t)" using p by simp
  from drop_session_allocated [OF books(2) this]
  obtain hp' where hp': "drop_session (session e) hp = Some hp'" "heap_next hp' = heap_next hp"
      "heap_sessions hp' = (heap_sessions hp)(?p := None)" "heap_buffers hp' = heap_buffers hp"
    and alloc: "allocated (heap_sessions hp') (heap_next hp') (remove1 ?p (ps @ table_ptrs t))"
    by blast
  have "distinct (ps @ table_ptrs (AList.delete k t))"
    using books(2) del by (auto simp: allocated_def)
  moreover have "set (ps @ table_ptrs (AList.delete k t)) = set (remove1 ?p (ps @ table_ptrs t))"
    using books(2) del p by (auto simp: allocated_def set_remove1_eq)
  ultimately have "allocated (heap_sessions hp') (heap_next hp') (ps @ table_ptrs (AList.delete k t))"
    using allocated_perm [OF alloc] by blast
  then have "owned (AList.delete k t) ps bs hp'"
    using books hp' by (simp add: owned_def distinct_delete)
  moreover have "entry_value hp' x = entry_value hp x" if "map_of (AList.delete k t) k' = Some x" for k' x
    using map_of_ptr [OF that] del(2) hp'(3) by (auto simp: entry_value_def)
  then have "map_option (entry_value hp') (map_of (AList.delete k t) k')
      = map_option (entry_value hp) (map_of (AList.delete k t) k')" for k'
    by (cases "map_of (AList.delete k t) k'") simp_all
  then have "table_value (AList.delete k t) hp' = remove_session k (table_value t hp)"
    by (auto simp: table_value_def remove_session_def delete_conv')
  ultimately show ?thesis
    using hp' p by simp
qed

lemma remove_owned:
  assumes "owned t ps bs hp"
  shows "\<exists>hp'. remove_mem k t hp = Some (AList.delete k t, hp')
    \<and> owned (AList.delete k t) ps bs hp'
    \<and> table_value (AList.delete k t) hp' = remove_session k (table_value t hp)
    \<and> (\<forall>p \<in> set ps. heap_sessions hp' p = heap_sessions hp p)
    \<and> heap_buffers hp' = heap_buffers hp"
proof (cases "map_of t k")
  case None
  then have "k \<notin> fst ` set t"
    by (simp add: map_of_eq_None_iff)
  then have "AList.delete k t = t" by (rule delete_id)
  moreover have "remove_session k (table_value t hp) = table_value t hp"
    using None by (auto simp: remove_session_def table_value_def)
  ultimately show ?thesis
    using assms None by (simp add: remove_mem_def)
next
  case (Some e)
  from drop_taken_out [OF assms Some] obtain hp' where
    "drop_session (session e) hp = Some hp'" "owned (AList.delete k t) ps bs hp'"
    "table_value (AList.delete k t) hp' = remove_session k (table_value t hp)"
    "\<forall>p. p \<noteq> dp_raw (session e) \<longrightarrow> heap_sessions hp' p = heap_sessions hp p"
    "dp_raw (session e) \<notin> set ps" "heap_buffers hp' = heap_buffers hp"
    by blast
  moreover from this(4,5) have "\<forall>p \<in> set ps. heap_sessions hp' p = heap_sessions hp p"
    by metis
  ultimately show ?thesis
    using Some by (intro exI [of _ hp']) (simp add: remove_mem_def)
qed

lemma insert_mem_remove:
  "insert_mem clock k s t hp =
     do { (t1, hp1) \<leftarrow> sweep_mem clock t hp;
          (t2, hp2) \<leftarrow> remove_mem k t1 hp1;
          Some (AList.update k \<lparr> session = s, entry_order_id = None, born = clock \<rparr> t1, hp2) }"
  by (cases "sweep_mem clock t hp")
    (auto simp: insert_mem_def remove_mem_def split: option.split)

lemma table_value_update:
  "table_value (AList.update k e t) hp = put_entry k (entry_value hp e) (table_value t hp)"
  by (auto simp: table_value_def put_entry_def update_conv' fun_eq_iff)

lemma update_owned:
  assumes "owned (AList.delete k t) (dp_raw (session e) # ps) bs hp" and "distinct (map fst t)"
  shows "owned (AList.update k e t) ps bs hp"
proof -
  let ?p = "dp_raw (session e)"
  have alloc: "allocated (heap_sessions hp) (heap_next hp) ((?p # ps) @ table_ptrs (AList.delete k t))"
    using assms(1) unfolding owned_def by (elim conjE)
  then have "distinct (?p # table_ptrs (AList.delete k t))"
    by (auto simp: allocated_def)
  note up = update_table_ptrs [OF assms(2) this]
  have "allocated (heap_sessions hp) (heap_next hp) (ps @ table_ptrs (AList.update k e t))"
    using alloc up by (intro allocated_perm [OF alloc]) (auto simp: allocated_def)
  with assms show ?thesis
    by (simp add: owned_def distinct_update)
qed

lemma insert_owned:
  assumes "owned t [dp_raw sess] bs hp" and "heap_sessions hp (dp_raw sess) = Some s"
  shows "\<exists>t' hp'. insert_mem clock k sess t hp = Some (t', hp') \<and> owned t' [] bs hp'
    \<and> table_value t' hp' = insert_session clock k \<lparr> dp_raw = s \<rparr> (table_value t hp)
    \<and> heap_buffers hp' = heap_buffers hp"
proof -
  let ?e = "\<lparr> session = sess, entry_order_id = None, born = clock \<rparr>"
  obtain t1 h1 where sweep: "sweep_mem clock t hp = Some (t1, h1)" "owned t1 [dp_raw sess] bs h1"
      "table_value t1 h1 = sweep clock (table_value t hp)"
      "heap_sessions h1 (dp_raw sess) = Some s" "heap_buffers h1 = heap_buffers hp"
    using sweep_owned [OF assms(1), of clock] assms(2) by auto
  obtain h2 where remove: "remove_mem k t1 h1 = Some (AList.delete k t1, h2)"
      "owned (AList.delete k t1) [dp_raw sess] bs h2"
      "table_value (AList.delete k t1) h2 = remove_session k (table_value t1 h1)"
      "heap_sessions h2 (dp_raw sess) = Some s" "heap_buffers h2 = heap_buffers h1"
    using remove_owned [OF sweep(2), of k] sweep(4) by auto
  have "insert_mem clock k sess t hp = Some (AList.update k ?e t1, h2)"
    unfolding insert_mem_remove by (simp add: sweep(1) remove(1))
  moreover have "owned (AList.update k ?e t1) [] bs h2"
    using remove(2) sweep(2) by (intro update_owned) (simp_all add: owned_def)
  moreover have "table_value (AList.update k ?e t1) h2
      = put_entry k (entry_value h2 ?e) (table_value (AList.delete k t1) h2)"
    by (simp add: table_value_def put_entry_def update_conv' delete_conv' fun_eq_iff)
  then have "table_value (AList.update k ?e t1) h2
      = insert_session clock k \<lparr> dp_raw = s \<rparr> (table_value t hp)"
    by (simp add: remove(3,4) sweep(3) insert_session_def Let_def put_entry_def
        remove_session_def entry_value_def)
  ultimately show ?thesis
    using sweep(5) remove(5) by auto
qed

text \<open>Writing the order id, and a call on a session of the table.\<close>

lemma set_order_owned:
  assumes "owned t ps bs hp" and "map_of t k = Some e"
  shows "owned (AList.update k (e\<lparr>entry_order_id := i\<rparr>) t) ps bs hp"
proof -
  have "table_ptrs (AList.update k (e\<lparr>entry_order_id := i\<rparr>) t) = table_ptrs t"
    using assms(2) by (induction t) (auto simp: table_ptrs_def split: if_splits)
  with assms(1) show ?thesis
    by (simp add: owned_def distinct_update)
qed

lemma write_owned:
  assumes "owned t ps bs hp" and "heap_sessions hp p \<noteq> None"
  shows "owned t ps bs (hp\<lparr>heap_sessions := (heap_sessions hp)(p \<mapsto> s)\<rparr>)"
  using assms by (auto simp: owned_def allocated_def)

lemma table_value_write:
  assumes "owned t ps bs hp" and "map_of t k = Some e"
  shows "table_value t (hp\<lparr>heap_sessions := (heap_sessions hp)(dp_raw (session e) \<mapsto> s)\<rparr>)
    = put_entry k ((entry_value hp e)\<lparr>session := \<lparr> dp_raw = s \<rparr>\<rparr>) (table_value t hp)"
proof -
  have inj: "k' = k" if "map_of t k' = Some e'" and "dp_raw (session e') = dp_raw (session e)" for k' e'
  proof -
    have "distinct (table_ptrs t)"
      using assms(1) by (simp add: owned_def allocated_def)
    then have "inj_on (\<lambda>ke. dp_raw (session (snd ke))) (set t)"
      by (simp add: table_ptrs_def distinct_map)
    from inj_onD [OF this, of "(k', e')" "(k, e)"] that assms(2) show ?thesis
      by (auto dest: map_of_SomeD)
  qed
  let ?hp = "hp\<lparr>heap_sessions := (heap_sessions hp)(dp_raw (session e) \<mapsto> s)\<rparr>"
  have other: "entry_value ?hp e' = entry_value hp e'" if "map_of t k' = Some e'" "k' \<noteq> k" for k' e'
    using inj [OF that(1)] that(2) by (auto simp: entry_value_def)
  have here: "entry_value ?hp e = (entry_value hp e)\<lparr>session := \<lparr> dp_raw = s \<rparr>\<rparr>"
    by (simp add: entry_value_def)
  have "map_option (entry_value ?hp) (map_of t k') =
      (if k' = k then Some ((entry_value hp e)\<lparr>session := \<lparr> dp_raw = s \<rparr>\<rparr>)
       else map_option (entry_value hp) (map_of t k'))" for k'
  proof (cases "k' = k")
    case True
    with assms(2) here show ?thesis by simp
  next
    case False
    then show ?thesis
      by (cases "map_of t k'") (simp_all add: other)
  qed
  then show ?thesis
    unfolding table_value_def put_entry_def by (simp add: fun_eq_iff)
qed

section \<open>The handlers over pointers are the handlers over values\<close>

definition simulates ::
  "(response outcome \<times> ('st, 's) mem_server) option \<Rightarrow> response outcome \<times> ('st, 's) app_state \<Rightarrow> bool"
where
  "simulates m v \<longleftrightarrow> (\<exists>out ms. m = Some (out, ms) \<and> mem_ok ms \<and> v = (out, value_of ms))"

lemma value_of_simps [simp]:
  "app_store (value_of ms) = ms_store ms"
  "app_config (value_of ms) = ms_config ms"
  "poisoned (app_sessions (value_of ms)) = ms_poisoned ms"
  "sessions_of (value_of ms) = table_value (ms_table ms) (ms_heap ms)"
  "(value_of ms)\<lparr>app_store := db\<rparr> = value_of (ms\<lparr>ms_store := db\<rparr>)"
  "poison (value_of ms) = value_of (ms\<lparr>ms_poisoned := True\<rparr>)"
  by (simp_all add: value_of_def sessions_of_def poison_def)

lemma value_of_eqI:
  "ms_store ms' = ms_store ms \<Longrightarrow> ms_config ms' = ms_config ms \<Longrightarrow> ms_poisoned ms' = ms_poisoned ms \<Longrightarrow>
     table_value (ms_table ms') (ms_heap ms') = t \<Longrightarrow> value_of ms' = with_sessions t (value_of ms)"
  by (simp add: value_of_def with_sessions_def)

lemma sim_return: "mem_ok ms \<Longrightarrow> v = (out, value_of ms) \<Longrightarrow> simulates (Some (out, ms)) v"
  by (simp add: simulates_def)

lemma sim_leave:
  assumes "owned (ms_table ms) [] [rd_ptr d] (ms_heap ms)" and "v = (out, value_of ms)"
  shows "simulates (leave d out ms) v"
proof -
  have "rd_ptr d \<in> set [rd_ptr d]" by simp
  from drop_der_owned [OF assms(1) this] obtain hp' where
    "drop_der d (ms_heap ms) = Some hp'" "owned (ms_table ms) [] [] hp'"
    and same: "heap_sessions hp' = heap_sessions (ms_heap ms)"
    by auto
  with assms(2) table_value_same [OF same] show ?thesis
    by (simp add: simulates_def leave_def mem_ok_def value_of_def)
qed

lemma table_value_away:
  assumes "\<forall>p \<in> set (table_ptrs t). heap_sessions hp' p = heap_sessions hp p"
  shows "table_value t hp' = table_value t hp"
proof -
  have "map_option (entry_value hp') (map_of t k) = map_option (entry_value hp) (map_of t k)" for k
  proof (cases "map_of t k")
    case (Some e)
    with assms map_of_ptr [OF Some] show ?thesis
      by (simp add: entry_value_def)
  qed simp
  then show ?thesis
    by (simp add: table_value_def)
qed

lemma sim_leave_session:
  assumes "owned (ms_table ms) [dp_raw s] [rd_ptr d] (ms_heap ms)" and "v = (out, value_of ms)"
  shows "simulates (leave_session s d out ms) v"
proof -
  have "rd_ptr d \<in> set [rd_ptr d]" by simp
  from drop_der_owned [OF assms(1) this] obtain h1 where
    h1: "drop_der d (ms_heap ms) = Some h1" "owned (ms_table ms) [dp_raw s] [] h1"
      "heap_sessions h1 = heap_sessions (ms_heap ms)"
    by auto
  have alloc: "allocated (heap_sessions h1) (heap_next h1) ([dp_raw s] @ table_ptrs (ms_table ms))"
    using h1(2) unfolding owned_def by (elim conjE)
  have "dp_raw s \<in> set ([dp_raw s] @ table_ptrs (ms_table ms))" by simp
  from drop_session_allocated [OF alloc this] obtain h2 where
    h2: "drop_session s h1 = Some h2" "heap_next h2 = heap_next h1"
      "heap_sessions h2 = (heap_sessions h1)(dp_raw s := None)" "heap_buffers h2 = heap_buffers h1"
      "allocated (heap_sessions h2) (heap_next h2) (table_ptrs (ms_table ms))"
    by auto
  have "owned (ms_table ms) [] [] h2"
    using h1(2) h2 by (simp add: owned_def)
  moreover have "dp_raw s \<notin> set (table_ptrs (ms_table ms))"
    using alloc by (simp add: allocated_def)
  then have "table_value (ms_table ms) h2 = table_value (ms_table ms) (ms_heap ms)"
    using h1(3) h2(3) by (intro table_value_away) auto
  ultimately show ?thesis
    using assms(2) h1(1) h2(1)
    by (simp add: simulates_def leave_session_def mem_ok_def value_of_def)
qed

lemma on_session_owned:
  assumes own: "owned t [] [] hp" and ent: "map_of t k = Some ent"
    and call: "call \<lparr> dp_raw = the (heap_sessions hp (dp_raw (session ent))) \<rparr> = (sess, r)"
  shows "case r of
      Inl e \<Rightarrow> \<exists>hp'. on_session (session ent) call hp = Some (Inl e, hp') \<and> owned t [] [] hp'
        \<and> heap_sessions hp' (dp_raw (session ent)) = Some (dp_raw sess)
        \<and> table_value t hp' = put_entry k ((entry_value hp ent)\<lparr>session := sess\<rparr>) (table_value t hp)
    | Inr d \<Rightarrow> \<exists>q hp'. on_session (session ent) call hp
          = Some (Inr \<lparr> rd_ptr = q, rd_len = der_len d \<rparr>, hp')
        \<and> owned t [] [q] hp' \<and> heap_buffers hp' q = Some (der_ptr d)
        \<and> heap_sessions hp' (dp_raw (session ent)) = Some (dp_raw sess)
        \<and> table_value t hp' = put_entry k ((entry_value hp ent)\<lparr>session := sess\<rparr>) (table_value t hp)"
proof -
  obtain s where s: "heap_sessions hp (dp_raw (session ent)) = Some s"
    using owned_lookup [OF own ent] by blast
  let ?h1 = "hp\<lparr>heap_sessions := (heap_sessions hp)(dp_raw (session ent) \<mapsto> dp_raw sess)\<rparr>"
  have own1: "owned t [] [] ?h1"
    using write_owned [OF own] s by simp
  have same: "table_value t ?h1
      = put_entry k ((entry_value hp ent)\<lparr>session := sess\<rparr>) (table_value t hp)"
    using table_value_write [OF own ent, of "dp_raw sess"] by (cases sess) simp
  show ?thesis
  proof (cases r)
    case (Inl e)
    with call s own1 same show ?thesis
      by (simp add: on_session_def)
  next
    case (Inr d)
    let ?q = "fst (new_buffer (der_ptr d) ?h1)" and ?h2 = "snd (new_buffer (der_ptr d) ?h1)"
    have "on_session (session ent) call hp = Some (Inr \<lparr> rd_ptr = ?q, rd_len = der_len d \<rparr>, ?h2)"
      using call s Inr by (simp add: on_session_def box_der_def split: prod.split)
    moreover have "heap_buffers ?h2 ?q = Some (der_ptr d)"
      by (simp add: buffer_heap.create_cells buffer_heap.create_ptr)
    moreover have "table_value t ?h2 = table_value t ?h1"
      by (rule table_value_same) simp
    ultimately show ?thesis
      using new_buffer_owned [OF own1, of "der_ptr d"] same Inr by auto
  qed
qed

lemma dp_raw_again [simp]: "\<lparr> dp_raw = dp_raw sess \<rparr> = sess"
  by (cases sess) simp

lemma slice_boxed:
  "heap_buffers hp q = Some (der_ptr d) \<Longrightarrow> slice_mem \<lparr> rd_ptr = q, rd_len = der_len d \<rparr> hp
     = Some (as_slice d)"
  by (simp add: slice_mem_def as_slice_def)

lemma authenticate_order_sim:
  assumes "mem_ok ms"
  shows "simulates (authenticate_order_mem S L ms req ord) (authenticate_order S L (value_of ms) req ord)"
proof (cases "ms_poisoned ms")
  case True
  then show ?thesis
    using assms by (auto simp: authenticate_order_mem_def authenticate_order_def intro: sim_return)
next
  case fine: False
  let ?tid = "arq_transaction_id req" and ?hp = "ms_heap ms" and ?t = "ms_table ms"
  show ?thesis
  proof (cases "map_of ?t ?tid")
    case None
    with fine assms show ?thesis
      by (auto simp: authenticate_order_mem_def authenticate_order_def intro: sim_return)
  next
    case ent: (Some ent)
    let ?call = "\<lambda>s. dp_authenticate_client L s (arq_authenticate_server_response req) (ord_metadata ord)"
    have own: "owned ?t [] [] ?hp" using assms by (simp add: mem_ok_def)
    obtain sess r where call: "?call \<lparr> dp_raw = the (heap_sessions ?hp (dp_raw (session ent))) \<rparr> = (sess, r)"
      by force
    note step = on_session_owned [OF own ent, of ?call, OF call]
    let ?st1 = "with_sessions (put_entry ?tid ((entry_value ?hp ent)\<lparr>session := sess\<rparr>)
      (table_value ?t ?hp)) (value_of ms)"
    show ?thesis
    proof (cases r)
      case (Inl e)
      then obtain hp1 where "on_session (session ent) ?call ?hp = Some (Inl e, hp1)"
          "owned ?t [] [] hp1"
          "table_value ?t hp1 = put_entry ?tid ((entry_value ?hp ent)\<lparr>session := sess\<rparr>) (table_value ?t ?hp)"
        using step by auto
      moreover from this(3) have "value_of (ms\<lparr>ms_heap := hp1\<rparr>) = ?st1"
        by (intro value_of_eqI) simp_all
      ultimately show ?thesis
        using fine ent call Inl
        by (auto simp: authenticate_order_mem_def authenticate_order_def authenticate_client_mem_def
            mem_ok_def Let_def intro!: sim_return)
    next
      case (Inr d)
      then obtain q hp1 where on: "on_session (session ent) ?call ?hp
            = Some (Inr \<lparr> rd_ptr = q, rd_len = der_len d \<rparr>, hp1)"
          and own1: "owned ?t [] [q] hp1" and buf: "heap_buffers hp1 q = Some (der_ptr d)"
          and cell: "heap_sessions hp1 (dp_raw (session ent)) = Some (dp_raw sess)"
          and tab: "table_value ?t hp1
            = put_entry ?tid ((entry_value ?hp ent)\<lparr>session := sess\<rparr>) (table_value ?t ?hp)"
        using step by auto
      let ?ms1 = "ms\<lparr>ms_heap := hp1\<rparr>"
      let ?ent2 = "ent\<lparr>entry_order_id := Some (ord_id ord)\<rparr>"
      let ?ms2 = "?ms1\<lparr>ms_table := AList.update ?tid ?ent2 ?t\<rparr>"
      have st1: "value_of ?ms1 = ?st1"
        using tab by (intro value_of_eqI) simp_all
      have "entry_value hp1 ?ent2
          = (entry_value ?hp ent)\<lparr>session := sess, entry_order_id := Some (ord_id ord)\<rparr>"
        by (simp add: entry_value_def cell)
      then have st2: "value_of ?ms2 = with_sessions (put_entry ?tid
          ((entry_value ?hp ent)\<lparr>session := sess, entry_order_id := Some (ord_id ord)\<rparr>)
          (sessions_of ?st1)) ?st1"
        unfolding st1 [symmetric] by (intro value_of_eqI) (simp_all add: table_value_update)
      then have st3: "value_of (?ms2\<lparr>ms_store := db\<rparr>) = (with_sessions (put_entry ?tid
          ((entry_value ?hp ent)\<lparr>session := sess, entry_order_id := Some (ord_id ord)\<rparr>)
          (sessions_of ?st1)) ?st1)\<lparr>app_store := db\<rparr>" for db
        by (metis value_of_simps(5))
      have own2: "owned (AList.update ?tid ?ent2 ?t) [] [q] hp1"
        using set_order_owned [OF own1 ent] .
      have e: "eid_mem L (session ent) hp1 = Some (eid L sess)"
        and c: "euicc_cert_mem L (session ent) hp1 = Some (euicc_cert L sess)"
        by (simp_all add: eid_mem_def euicc_cert_mem_def cell)
      note code = authenticate_order_mem_def authenticate_order_def authenticate_client_mem_def Let_def
      show ?thesis
      proof (cases "eid L sess")
        case Panic
        have "poison ?st1 = value_of (?ms1\<lparr>ms_poisoned := True\<rparr>)"
          unfolding st1 [symmetric] by simp
        then show ?thesis
          using fine ent call Inr on e Panic own1
          by (auto simp: code intro!: sim_leave)
      next
        case (Ret eid_result)
        show ?thesis
          using fine ent call Inr on e c Ret own2 st2 st3 slice_boxed [OF buf]
          by (cases "authenticate_fields L (as_slice d)") (auto simp: code intro!: sim_leave)
      qed
    qed
  qed
qed

lemma authenticate_client_sim:
  assumes "mem_ok ms"
  shows "simulates (authenticate_client_handler_mem S L ms req)
    (authenticate_client S L (value_of ms) req)"
  using authenticate_order_sim [OF assms] assms
  by (auto simp: authenticate_client_handler_mem_def authenticate_client_def
      intro: sim_return split: sum.split list.split)

lemma find_upp_unbound: "find_upp S db None = Some upp \<Longrightarrow> False"
  by (simp add: find_upp_def)

lemma bound_package_sim:
  assumes "mem_ok ms"
  shows "simulates (get_bound_profile_package_mem S L env ms req)
    (get_bound_profile_package S L env (value_of ms) req)"
proof -
  let ?tid = "grq_transaction_id req" and ?hp = "ms_heap ms" and ?t = "ms_table ms"
  note code = get_bound_profile_package_mem_def get_bound_profile_package_def
    bound_profile_package_mem_def Let_def
  have own: "owned ?t [] [] ?hp" using assms by (simp add: mem_ok_def)
  show ?thesis
  proof (cases "\<exists>otsk ent upp. fst (nonce_otsk_dp (cfg_nonces (ms_config ms)) (rng env)) = Ret otsk
      \<and> \<not> ms_poisoned ms \<and> map_of ?t ?tid = Some ent
      \<and> find_upp S (ms_store ms) (entry_order_id ent) = Some upp")
    case False
    with assms show ?thesis
      by (auto simp: code intro!: sim_return split: outcome.split option.split)
  next
    case True
    then obtain otsk ent upp where
      otsk: "fst (nonce_otsk_dp (cfg_nonces (ms_config ms)) (rng env)) = Ret otsk"
      and fine: "\<not> ms_poisoned ms" and ent: "map_of ?t ?tid = Some ent"
      and upp: "find_upp S (ms_store ms) (entry_order_id ent) = Some upp"
      by blast
    let ?call = "\<lambda>s. dp_get_bound_profile_package L s (grq_prepare_download_response req) upp otsk"
    obtain sess r where call: "?call \<lparr> dp_raw = the (heap_sessions ?hp (dp_raw (session ent))) \<rparr> = (sess, r)"
      by force
    note step = on_session_owned [OF own ent, of ?call, OF call]
    show ?thesis
    proof (cases r)
      case (Inl e)
      then obtain hp1 where "on_session (session ent) ?call ?hp = Some (Inl e, hp1)"
          "owned ?t [] [] hp1"
          "table_value ?t hp1 = put_entry ?tid ((entry_value ?hp ent)\<lparr>session := sess\<rparr>) (table_value ?t ?hp)"
        using step by auto
      moreover from this(3) have "value_of (ms\<lparr>ms_heap := hp1\<rparr>) = with_sessions
          (put_entry ?tid ((entry_value ?hp ent)\<lparr>session := sess\<rparr>) (table_value ?t ?hp)) (value_of ms)"
        by (intro value_of_eqI) simp_all
      ultimately show ?thesis
        using otsk fine ent upp call Inl by (auto simp: code mem_ok_def intro!: sim_return)
    next
      case (Inr d)
      then obtain q hp1 where on: "on_session (session ent) ?call ?hp
            = Some (Inr \<lparr> rd_ptr = q, rd_len = der_len d \<rparr>, hp1)"
          and own1: "owned ?t [] [q] hp1" and buf: "heap_buffers hp1 q = Some (der_ptr d)"
          and tab: "table_value ?t hp1
            = put_entry ?tid ((entry_value ?hp ent)\<lparr>session := sess\<rparr>) (table_value ?t ?hp)"
        using step by auto
      let ?t2 = "AList.delete ?tid ?t"
      from remove_owned [OF own1] obtain hp2 where
        rem: "remove_mem ?tid ?t hp1 = Some (?t2, hp2)" and own2: "owned ?t2 [] [q] hp2"
        and tab2: "table_value ?t2 hp2 = remove_session ?tid (table_value ?t hp1)"
        by blast
      have "table_value ?t2 hp2 = remove_session ?tid (table_value ?t ?hp)"
        unfolding tab2 tab by (simp add: remove_session_def put_entry_def)
      then have "value_of (ms\<lparr>ms_table := ?t2, ms_heap := hp2\<rparr>)
          = with_sessions (remove_session ?tid (table_value ?t ?hp)) (value_of ms)"
        by (intro value_of_eqI) simp_all
      then have st: "value_of (ms\<lparr>ms_table := ?t2, ms_heap := hp2, ms_store := db\<rparr>)
          = (with_sessions (remove_session ?tid (table_value ?t ?hp)) (value_of ms))\<lparr>app_store := db\<rparr>"
        for db by (metis value_of_simps(5))
      show ?thesis
        using otsk fine ent upp call Inr on rem own2 st slice_boxed [OF buf]
        by (cases "entry_order_id ent")
          (auto simp: code intro!: sim_leave dest: find_upp_unbound)
    qed
  qed
qed

lemma notification_sim:
  "mem_ok ms \<Longrightarrow> simulates (handle_notification_mem S L ms req) (handle_notification S L (value_of ms) req)"
  by (simp add: handle_notification_mem_def handle_notification_def Let_def simulates_def mem_ok_def)

lemma initiate_mem_owned:
  assumes own: "owned t [] [] hp"
    and run: "initiate L ch info tid sc a r = Inr (sess, resp)"
  shows "\<exists>p q hp1. initiate_mem L ch info tid sc a r hp
      = (Inr (\<lparr> dp_raw = p \<rparr>, \<lparr> rd_ptr = q, rd_len = der_len resp \<rparr>), hp1)
    \<and> owned t [p] [q] hp1 \<and> heap_sessions hp1 p = Some (dp_raw sess)
    \<and> heap_buffers hp1 q = Some (der_ptr resp) \<and> table_value t hp1 = table_value t hp"
proof -
  let ?p = "fst (new_session (dp_raw sess) hp)" and ?h1 = "snd (new_session (dp_raw sess) hp)"
  let ?q = "fst (new_buffer (der_ptr resp) ?h1)" and ?h2 = "snd (new_buffer (der_ptr resp) ?h1)"
  note books = new_session_owned(1) [OF own, of "dp_raw sess"]
  have "owned t [?p] [?q] ?h2"
    by (rule new_buffer_owned) (rule books)
  moreover have "heap_sessions ?h2 ?p = Some (dp_raw sess)"
    and "heap_buffers ?h2 ?q = Some (der_ptr resp)"
    by (simp_all add: session_heap.create_cells session_heap.create_ptr
        buffer_heap.create_cells buffer_heap.create_ptr)
  moreover have "?p \<notin> set (table_ptrs t)"
    using books by (simp add: owned_def allocated_def)
  then have "table_value t ?h2 = table_value t hp"
    by (intro table_value_away) (auto simp: session_heap.create_cells session_heap.create_ptr)
  moreover have "initiate_mem L ch info tid sc a r hp
      = (Inr (\<lparr> dp_raw = ?p \<rparr>, \<lparr> rd_ptr = ?q, rd_len = der_len resp \<rparr>), ?h2)"
    by (simp add: run initiate_mem_def box_der_def case_prod_unfold Let_def)
  ultimately show ?thesis by blast
qed

lemma initiate_sim:
  assumes "mem_ok ms"
  shows "simulates (initiate_authentication_mem L env ms req)
    (initiate_authentication L env (value_of ms) req)"
proof -
  let ?hp = "ms_heap ms" and ?t = "ms_table ms" and ?nonces = "cfg_nonces (ms_config ms)"
  note code = initiate_authentication_mem_def initiate_authentication_def
  have own: "owned ?t [] [] ?hp" using assms by (simp add: mem_ok_def)
  show ?thesis
  proof (cases "\<exists>tid rng1 sc rng2 sess resp. length (irq_euicc_challenge req) = 16
      \<and> nonce_transaction_id ?nonces (rng env) = (Ret tid, rng1)
      \<and> nonce_server_challenge ?nonces rng1 = (Ret sc, rng2)
      \<and> initiate L (irq_euicc_challenge req) (irq_euicc_info1 req) tid sc
          (server_address (ms_config ms)) (Some (irq_smdp_address req)) = Inr (sess, resp)")
    case False
    have same: "ms\<lparr>ms_heap := ?hp\<rparr> = ms" by simp
    from False assms show ?thesis
      by (auto simp: code initiate_mem_def same intro!: sim_return
          split: outcome.split prod.split sum.split)
  next
    case True
    then obtain tid rng1 sc rng2 sess resp where len: "length (irq_euicc_challenge req) = 16"
      and n1: "nonce_transaction_id ?nonces (rng env) = (Ret tid, rng1)"
      and n2: "nonce_server_challenge ?nonces rng1 = (Ret sc, rng2)"
      and lib: "initiate L (irq_euicc_challenge req) (irq_euicc_info1 req) tid sc
          (server_address (ms_config ms)) (Some (irq_smdp_address req)) = Inr (sess, resp)"
      by blast
    from initiate_mem_owned [OF own lib] obtain p q hp1 where
      mem: "initiate_mem L (irq_euicc_challenge req) (irq_euicc_info1 req) tid sc
          (server_address (ms_config ms)) (Some (irq_smdp_address req)) ?hp
        = (Inr (\<lparr> dp_raw = p \<rparr>, \<lparr> rd_ptr = q, rd_len = der_len resp \<rparr>), hp1)"
      and own1: "owned ?t [p] [q] hp1" and cell: "heap_sessions hp1 p = Some (dp_raw sess)"
      and buf: "heap_buffers hp1 q = Some (der_ptr resp)"
      and tab: "table_value ?t hp1 = table_value ?t ?hp"
      by blast
    have st1: "value_of (ms\<lparr>ms_heap := hp1\<rparr>) = value_of ms"
      using tab by (simp add: value_of_def)
    have "owned ?t [dp_raw \<lparr> dp_raw = p \<rparr>] [q] hp1" using own1 by simp
    from insert_owned [OF this, of "dp_raw sess" "now env" tid] cell obtain t2 hp2 where
      ins: "insert_mem (now env) tid \<lparr> dp_raw = p \<rparr> ?t hp1 = Some (t2, hp2)"
      and own2: "owned t2 [] [q] hp2"
      and tab2: "table_value t2 hp2 = insert_session (now env) tid sess (table_value ?t hp1)"
      by auto
    have st2: "value_of (ms\<lparr>ms_table := t2, ms_heap := hp2\<rparr>)
        = with_sessions (insert_session (now env) tid sess (table_value ?t ?hp)) (value_of ms)"
      using tab2 tab by (intro value_of_eqI) simp_all
    show ?thesis
      using len n1 n2 lib mem own1 st1 ins own2 st2 slice_boxed [OF buf]
      by (cases "initiate_fields L (as_slice resp)")
        (auto simp: code intro!: sim_leave sim_leave_session)
  qed
qed

lemma handle_sim:
  "mem_ok ms \<Longrightarrow> simulates (handle_mem S L env ms r) (handle S L env (value_of ms) r)"
  by (cases r) (simp_all add: initiate_sim authenticate_client_sim bound_package_sim notification_sim)

lemma http_run_sim:
  "mem_ok ms \<Longrightarrow> \<exists>outs ms'. http_run_mem S L ms rs = Some (outs, ms') \<and> mem_ok ms'
     \<and> http_run S L (value_of ms) rs = (outs, value_of ms')"
proof (induction rs arbitrary: ms)
  case (Cons q rs)
  obtain env r where q: "q = (env, r)" by force
  from handle_sim [OF Cons.prems, of S L env r] obtain out ms1 where
    one: "handle_mem S L env ms r = Some (out, ms1)" "mem_ok ms1"
      "handle S L env (value_of ms) r = (out, value_of ms1)"
    by (auto simp: simulates_def)
  from Cons.IH [OF one(2)] obtain outs ms2 where
    "http_run_mem S L ms1 rs = Some (outs, ms2)" "mem_ok ms2"
    "http_run S L (value_of ms1) rs = (outs, value_of ms2)"
    by blast
  with one show ?case by (simp add: q)
qed simp

lemma start_ok: "mem_ok (mem_start store cfg)"
  by (simp add: mem_ok_def mem_start_def owned_def allocated_def table_ptrs_def empty_heap_def)

lemma value_of_start: "value_of (mem_start store cfg) = router_state store cfg"
  by (simp add: value_of_def mem_start_def router_state_def table_value_def sessions_default_def)

section \<open>Properties\<close>

text \<open>
  C22: the server that works on pointers is the server that works on values. Started on any
  store and given any requests, it never uses or frees a pointer that is not live, and its
  answers, its store, its configuration and its sessions (each pointer read as what it points
  at) are those of the handlers of \<open>Server\<close>, on which every other property is proved.
\<close>

theorem pointers_refine_values:
  "\<exists>outs ms. http_run_mem S L (mem_start store cfg) rs = Some (outs, ms)
     \<and> http_run S L (router_state store cfg) rs = (outs, value_of ms)"
  using http_run_sim [OF start_ok, of S L store cfg rs] by (auto simp: value_of_start)

text \<open>
  C10: nothing the C library hands out is leaked, freed twice or used after it was freed. After
  any requests, answered, refused or cut short by a panic, no buffer is left, the live sessions
  are exactly those of the table, and no session has two owners.
\<close>

theorem nothing_leaks_nothing_dangles:
  "\<exists>outs ms. http_run_mem S L (mem_start store cfg) rs = Some (outs, ms)
     \<and> heap_buffers (ms_heap ms) = (\<lambda>_. None)
     \<and> dom (heap_sessions (ms_heap ms)) = set (table_ptrs (ms_table ms))
     \<and> distinct (table_ptrs (ms_table ms)) \<and> distinct (map fst (ms_table ms))"
proof -
  obtain outs ms where "http_run_mem S L (mem_start store cfg) rs = Some (outs, ms)" "mem_ok ms"
    using http_run_sim [OF start_ok, of S L store cfg rs] by blast
  then show ?thesis
    by (auto simp: mem_ok_def owned_def allocated_def)
qed

end
