(* ===== verification/Openings.thy ===== *)
theory Openings
  imports Programs Runs
begin

text \<open>
  Several processes opening one file. \<open>SqliteStore::open\<close> (\<open>store/sqlite.rs\<close>) is cut at its SQL
  statements, each of which SQLite runs as a transaction of its own and between any two of which
  another process may run statements on the same file: open it too, or, having opened it, use it.
  A process may be killed at any point and any statement may fail.
\<close>

section \<open>Opening as a program of statements\<close>

type_synonym opening_program = "(sql_stmt, db_error + int, store_error + unit) program"

text \<open>One statement of opening and its answer: a value read, 0 for a statement without one.\<close>

fun open_stmt :: "conn \<Rightarrow> sql_stmt \<Rightarrow> conn \<times> (db_error + int)" where
  "open_stmt c OpenConnection = run_stmt c OpenConnection (\<lambda>c. (c, Inr 0))"
| "open_stmt c ReadVersion = (c, read_version c)"
| "open_stmt c CountNotificationTables = (c, count_notification_tables c)"
| "open_stmt c CreateOrders = map_prod id (map_sum id (\<lambda>_. 0)) (create_orders c)"
| "open_stmt c CreateIndex = map_prod id (map_sum id (\<lambda>_. 0)) (create_index c)"
| "open_stmt c CreateNotifications = map_prod id (map_sum id (\<lambda>_. 0)) (create_notifications c)"
| "open_stmt c AlterNotifications = map_prod id (map_sum id (\<lambda>_. 0)) (alter_notifications c)"
| "open_stmt c StampVersion = map_prod id (map_sum id (\<lambda>_. 0)) (stamp_version c)"
| "open_stmt c _ = (c, Inr 0)"

text \<open>\<open>.map_err(StoreError::Db)?\<close> after a statement.\<close>

definition ask :: "sql_stmt \<Rightarrow> (int \<Rightarrow> opening_program) \<Rightarrow> opening_program" where
  "ask s k = Call s (\<lambda>r. case r of Inl e \<Rightarrow> Return (Inl (Db e)) | Inr v \<Rightarrow> k v)"

definition stamp_program :: opening_program where
  "stamp_program = ask StampVersion (\<lambda>_. Return (Inr ()))"

definition schema_program :: "opening_program \<Rightarrow> opening_program" where
  "schema_program p =
     ask CreateOrders (\<lambda>_. ask CreateIndex (\<lambda>_. ask CreateNotifications (\<lambda>_. p)))"

definition migrate_program :: opening_program where
  "migrate_program =
     ask ReadVersion (\<lambda>version.
       if version = 0 then
         ask CountNotificationTables (\<lambda>existing.
           if existing = 0 then schema_program stamp_program
           else ask AlterNotifications (\<lambda>_. stamp_program))
       else if version > SCHEMA_VERSION then Return (Inl (SchemaTooNew version))
       else stamp_program)"

definition open_program :: opening_program where
  "open_program = ask OpenConnection (\<lambda>_. migrate_program)"

lemma exec_ask:
  "exec open_stmt (ask s k) c =
     (case open_stmt c s of
        (c', Inl e) \<Rightarrow> (c', Inl (Db e)) | (c', Inr v) \<Rightarrow> exec open_stmt (k v) c')"
  by (simp add: ask_def split: prod.split sum.split)

lemma exec_stamp:
  "exec open_stmt stamp_program c = db_then (stamp_version c) (\<lambda>_ c. (c, Inr ()))"
  by (cases "stamp_version c"; cases "snd (stamp_version c)")
    (auto simp: stamp_program_def exec_ask)

lemma exec_schema_program:
  "exec open_stmt (schema_program p) c = db_then (exec_schema c) (\<lambda>_ c. exec open_stmt p c)"
proof -
  have *: "(case map_prod id (map_sum id (\<lambda>_. 0)) q of
        (c', Inl e) \<Rightarrow> (c', Inl (Db e)) | (c', Inr v) \<Rightarrow> k c') = db_then q (\<lambda>_. k)"
    for q :: "conn \<times> (db_error + unit)" and k :: "conn \<Rightarrow> conn \<times> (store_error + unit)"
    by (cases q; cases "snd q") auto
  have "db_then (exec_schema c) k = db_then (create_orders c) (\<lambda>_ c1.
      db_then (create_index c1) (\<lambda>_ c2. db_then (create_notifications c2) k))"
    for k :: "unit \<Rightarrow> conn \<Rightarrow> conn \<times> (store_error + unit)"
    by (auto simp: exec_schema_def split: prod.split sum.split)
  then show ?thesis
    by (simp add: schema_program_def exec_ask *)
qed

lemma exec_migrate: "exec open_stmt migrate_program c = migrate c"
  by (cases "read_version c"; cases "count_notification_tables c"; cases "alter_notifications c";
      cases "snd (alter_notifications c)")
    (auto simp: migrate_program_def migrate_def exec_ask exec_stamp exec_schema_program)

lemma exec_open: "exec open_stmt open_program c = sqlite_open c"
  by (simp add: open_program_def exec_ask sqlite_open_def run_stmt_def exec_migrate
      split: option.split)

section \<open>What holds of a file throughout\<close>

definition complete_schema :: "conn \<Rightarrow> bool" where
  "complete_schema c \<longleftrightarrow>
     orders_tab c \<noteq> None
     \<and> (case notifications_tab c of None \<Rightarrow> False | Some t \<Rightarrow> has_verified t)"

text \<open>
  The files these processes can leave behind at any moment: the tables well-formed as far as
  they are there, notifications only with orders, and the current version only on a file whose
  schema is complete.
\<close>

definition file_ok :: "conn \<Rightarrow> bool" where
  "file_ok c \<longleftrightarrow>
     (user_version c = 0 \<or> user_version c = SCHEMA_VERSION \<and> complete_schema c)
     \<and> (notifications_tab c \<noteq> None \<longrightarrow> orders_tab c \<noteq> None)
     \<and> sorted_wrt (<) (map r_id (db_rows c)) \<and> distinct (map r_matching_id (db_rows c))
     \<and> list_all row_ok (db_rows c) \<and> sorted_wrt (<) (map q_id (db_qrows c))"

text \<open>Notifications stay, in order, at most with their mark backfilled, and new ones follow.\<close>

definition notifications_extend :: "stored_notification list \<Rightarrow> stored_notification list \<Rightarrow> bool" where
  "notifications_extend xs ys \<longleftrightarrow>
     list_all2 (\<lambda>x y. y = x \<or> y = as_verified x) xs (take (length xs) ys)"

text \<open>What no process ever undoes.\<close>

definition grows :: "conn \<Rightarrow> conn \<Rightarrow> bool" where
  "grows c c' \<longleftrightarrow>
     (file_ok c \<longrightarrow>
        file_ok c'
        \<and> (orders_tab c \<noteq> None \<longrightarrow> orders_tab c' \<noteq> None)
        \<and> (notifications_tab c \<noteq> None \<longrightarrow> notifications_tab c' \<noteq> None)
        \<and> ((\<forall>t. notifications_tab c = Some t \<longrightarrow> has_verified t) \<longrightarrow>
              (\<forall>t. notifications_tab c' = Some t \<longrightarrow> has_verified t))
        \<and> (user_version c = SCHEMA_VERSION \<longrightarrow> user_version c' = SCHEMA_VERSION)
        \<and> orders_extend (db_orders c) (db_orders c')
        \<and> notifications_extend (db_notifications c) (db_notifications c'))"

lemma notifications_extend_refl [simp]: "notifications_extend xs xs"
  by (simp add: notifications_extend_def list_all2_refl)

lemma notifications_extend_trans:
  assumes "notifications_extend xs ys" and "notifications_extend ys zs"
  shows "notifications_extend xs zs"
proof -
  have len: "length xs \<le> length ys"
    using list_all2_lengthD [OF assms(1) [unfolded notifications_extend_def]] by simp
  then have "list_all2 (\<lambda>x y. y = x \<or> y = as_verified x)
      (take (length xs) ys) (take (length xs) zs)"
    using list_all2_takeI [OF assms(2) [unfolded notifications_extend_def], of "length xs"]
    by (simp add: min_def)
  with assms(1) show ?thesis
    unfolding notifications_extend_def
    by (rule list_all2_trans [rotated]) (auto simp: as_verified_def)
qed

lemma grows_refl [simp]: "grows c c"
  by (simp add: grows_def)

lemma grows_trans: "grows c c1 \<Longrightarrow> grows c1 c2 \<Longrightarrow> grows c c2"
  unfolding grows_def by (blast intro: orders_extend_trans notifications_extend_trans)

lemma grows_star: "grows\<^sup>*\<^sup>* c c' \<Longrightarrow> grows c c'"
  by (induction rule: rtranclp_induct) (auto intro: grows_trans)

lemma db_inv_file: "db_inv c \<longleftrightarrow> file_ok c \<and> user_version c = SCHEMA_VERSION"
  by (cases "notifications_tab c")
    (auto simp: db_inv_def file_ok_def complete_schema_def SCHEMA_VERSION_def)

lemma grows_file_ok: "grows c c' \<Longrightarrow> file_ok c \<Longrightarrow> file_ok c'"
  by (simp add: grows_def)

lemma grows_db_inv: "grows c c' \<Longrightarrow> db_inv c \<Longrightarrow> db_inv c'"
  unfolding db_inv_file by (simp add: grows_def)

lemma grows_complete: "grows c c' \<Longrightarrow> file_ok c \<Longrightarrow> complete_schema c \<Longrightarrow> complete_schema c'"
  by (cases "notifications_tab c"; cases "notifications_tab c'")
    (simp_all add: grows_def complete_schema_def)

section \<open>Every statement grows the file\<close>

lemma grows_unchanged:
  "orders_tab c' = orders_tab c \<Longrightarrow> notifications_tab c' = notifications_tab c \<Longrightarrow>
     user_version c' = user_version c \<Longrightarrow> grows c c'"
  by (simp add: grows_def file_ok_def complete_schema_def db_orders_def db_notifications_def
      db_rows_def db_qrows_def)

lemma create_orders_grows: "grows c (fst (create_orders c))"
  by (auto simp: create_orders_def run_stmt_def grows_def file_ok_def complete_schema_def
      db_orders_def db_notifications_def db_rows_def db_qrows_def split: option.split)

lemma create_index_same: "fst (create_index c) = c"
  by (simp add: create_index_def run_stmt_def split: option.split)

lemma create_notifications_grows:
  "orders_tab c \<noteq> None \<Longrightarrow> grows c (fst (create_notifications c))"
  by (auto simp: create_notifications_def run_stmt_def grows_def file_ok_def complete_schema_def
      db_orders_def db_notifications_def db_rows_def db_qrows_def split: option.split)

lemma alter_grows: "grows c (fst (alter_notifications c))"
proof -
  have "notifications_extend (map row_to_notification rs)
      (map (\<lambda>r. as_verified (row_to_notification r)) rs)" for rs
    by (simp add: notifications_extend_def list_all2_map1 list_all2_map2 list_all2_refl)
  then show ?thesis
    by (auto simp: alter_notifications_def run_stmt_def grows_def file_ok_def complete_schema_def
        db_orders_def db_notifications_def db_rows_def db_qrows_def o_def
        row_to_notification_verified split: option.split)
qed

lemma stamp_grows: "complete_schema c \<Longrightarrow> grows c (fst (stamp_version c))"
  by (auto simp: stamp_version_def run_stmt_def grows_def file_ok_def complete_schema_def
      db_orders_def db_notifications_def db_rows_def db_qrows_def split: option.split)

section \<open>An opening is safe whatever comes in between\<close>

definition opened :: "store_error + unit \<Rightarrow> conn \<Rightarrow> bool" where
  "opened r c \<longleftrightarrow> (r = Inr () \<longrightarrow> db_inv c)"

abbreviation opens_safely :: "opening_program \<Rightarrow> conn \<Rightarrow> bool" where
  "opens_safely \<equiv> assured grows open_stmt grows opened"

lemma ask_safely:
  assumes "file_ok c" and "P c"
    and stable: "\<And>c c'. file_ok c \<Longrightarrow> P c \<Longrightarrow> grows c c' \<Longrightarrow> P c'"
    and step: "\<And>c. file_ok c \<Longrightarrow> P c \<Longrightarrow> grows c (fst (open_stmt c s))"
    and continue: "\<And>c v. file_ok c \<Longrightarrow> P c \<Longrightarrow> snd (open_stmt c s) = Inr v \<Longrightarrow>
      opens_safely (k v) (fst (open_stmt c s))"
  shows "opens_safely (ask s k) c"
proof -
  have "grows c1 c2 \<and> opens_safely (case r of Inl e \<Rightarrow> Return (Inl (Db e)) | Inr v \<Rightarrow> k v) c2"
    if "grows\<^sup>*\<^sup>* c c1" and run: "open_stmt c1 s = (c2, r)" for c1 c2 r
  proof -
    have "grows c c1" using that(1) by (rule grows_star)
    then have c1: "file_ok c1" "P c1"
      using assms(1,2) by (blast intro: grows_file_ok stable)+
    from step [OF c1] continue [OF c1] run show ?thesis
      by (cases r) (auto simp: opened_def)
  qed
  then show ?thesis
    unfolding ask_def by auto
qed

lemma stamp_safely:
  assumes "file_ok c" and "complete_schema c"
  shows "opens_safely stamp_program c"
  unfolding stamp_program_def
proof (rule ask_safely [where P = complete_schema, OF assms])
  fix c :: conn and v
  assume c: "file_ok c" "complete_schema c" and run: "snd (open_stmt c StampVersion) = Inr v"
  have "user_version (fst (open_stmt c StampVersion)) = SCHEMA_VERSION"
    using run by (auto simp: stamp_version_def run_stmt_def split: option.splits)
  moreover have "file_ok (fst (open_stmt c StampVersion))"
    using grows_file_ok [OF stamp_grows [OF c(2)] c(1)] by simp
  ultimately have "db_inv (fst (open_stmt c StampVersion))"
    by (simp add: db_inv_file)
  then show "opens_safely (Return (Inr ())) (fst (open_stmt c StampVersion))"
    by (auto simp: opened_def dest: grows_star grows_db_inv)
qed (auto intro: grows_complete stamp_grows)

definition never_old :: "conn \<Rightarrow> bool" where
  "never_old c \<longleftrightarrow> (\<forall>t. notifications_tab c = Some t \<longrightarrow> has_verified t)"

lemma never_old_grows: "file_ok c \<Longrightarrow> never_old c \<Longrightarrow> grows c c' \<Longrightarrow> never_old c'"
  by (simp add: grows_def never_old_def)

lemma orders_grow:
  "file_ok c \<Longrightarrow> never_old c \<and> orders_tab c \<noteq> None \<Longrightarrow> grows c c' \<Longrightarrow>
     never_old c' \<and> orders_tab c' \<noteq> None"
  by (simp add: grows_def never_old_def)

lemma notifications_grow:
  "file_ok c \<Longrightarrow> notifications_tab c \<noteq> None \<Longrightarrow> grows c c' \<Longrightarrow> notifications_tab c' \<noteq> None"
  by (simp add: grows_def)

lemma schema_safely:
  assumes "file_ok c" and "never_old c"
  shows "opens_safely (schema_program stamp_program) c"
  unfolding schema_program_def
proof (rule ask_safely [where P = never_old, OF assms])
  fix c :: conn and v
  assume c: "file_ok c" "never_old c" and run: "snd (open_stmt c CreateOrders) = Inr v"
  let ?c1 = "fst (open_stmt c CreateOrders)"
  let ?P = "\<lambda>c. never_old c \<and> orders_tab c \<noteq> None"
  have c1: "file_ok ?c1" "never_old ?c1"
    using c create_orders_grows [of c] by (auto intro: grows_file_ok never_old_grows)
  have "orders_tab ?c1 \<noteq> None"
    using run by (auto simp: create_orders_def run_stmt_def split: option.splits)
  with c1 have P1: "?P ?c1" by simp
  show "opens_safely (ask CreateIndex (\<lambda>_. ask CreateNotifications (\<lambda>_. stamp_program))) ?c1"
  proof (rule ask_safely [where P = ?P, OF c1(1) P1])
    fix c :: conn and v
    assume c: "file_ok c" "?P c"
    have "opens_safely (ask CreateNotifications (\<lambda>_. stamp_program)) c"
    proof (rule ask_safely [where P = ?P, OF c])
      fix c :: conn and v
      assume c: "file_ok c" "?P c" and run: "snd (open_stmt c CreateNotifications) = Inr v"
      have "complete_schema (fst (open_stmt c CreateNotifications))"
        using c run
        by (auto simp: create_notifications_def run_stmt_def complete_schema_def never_old_def
            split: option.splits)
      moreover have "file_ok (fst (open_stmt c CreateNotifications))"
        using c create_notifications_grows [of c] by (auto intro: grows_file_ok)
      ultimately show "opens_safely stamp_program (fst (open_stmt c CreateNotifications))"
        by (intro stamp_safely)
    qed (erule (2) orders_grow, simp add: create_notifications_grows)
    then show "opens_safely (ask CreateNotifications (\<lambda>_. stamp_program)) (fst (open_stmt c CreateIndex))"
      by (simp add: create_index_same)
  qed (erule (2) orders_grow, simp add: create_index_same)
qed (auto intro: never_old_grows create_orders_grows)

lemma alter_safely:
  assumes "file_ok c" and "notifications_tab c \<noteq> None"
  shows "opens_safely (ask AlterNotifications (\<lambda>_. stamp_program)) c"
proof (rule ask_safely [where P = "\<lambda>c. notifications_tab c \<noteq> None", OF assms])
  fix c :: conn and v
  assume c: "file_ok c" "notifications_tab c \<noteq> None"
    and run: "snd (open_stmt c AlterNotifications) = Inr v"
  have "complete_schema (fst (open_stmt c AlterNotifications))"
    using c run
    by (auto simp: alter_notifications_def run_stmt_def complete_schema_def file_ok_def
        split: option.splits if_splits)
  moreover have "file_ok (fst (open_stmt c AlterNotifications))"
    using c alter_grows [of c] by (auto intro: grows_file_ok)
  ultimately show "opens_safely stamp_program (fst (open_stmt c AlterNotifications))"
    by (intro stamp_safely)
qed (erule (2) notifications_grow, simp add: alter_grows)

lemma migrate_safely:
  assumes "file_ok c"
  shows "opens_safely migrate_program c"
  unfolding migrate_program_def
proof (rule ask_safely [where P = "\<lambda>_. True", OF assms TrueI])
  fix c :: conn and version
  assume c: "file_ok c" and run: "snd (open_stmt c ReadVersion) = Inr version"
  have version: "version = user_version c"
    using run by (auto simp: read_version_def read_stmt_def split: option.splits)
  show "opens_safely (if version = 0 then
         ask CountNotificationTables (\<lambda>existing.
           if existing = 0 then schema_program stamp_program
           else ask AlterNotifications (\<lambda>_. stamp_program))
       else if version > SCHEMA_VERSION then Return (Inl (SchemaTooNew version))
       else stamp_program) (fst (open_stmt c ReadVersion))"
  proof (cases "version = 0")
    case True
    have "opens_safely (ask CountNotificationTables (\<lambda>existing.
           if existing = 0 then schema_program stamp_program
           else ask AlterNotifications (\<lambda>_. stamp_program))) c"
    proof (rule ask_safely [where P = "\<lambda>_. True", OF c TrueI])
      fix c :: conn and n
      assume c: "file_ok c" and run: "snd (open_stmt c CountNotificationTables) = Inr n"
      have "n = (if notifications_tab c = None then 0 else 1)"
        using run by (auto simp: count_notification_tables_def read_stmt_def split: option.splits)
      then show "opens_safely (if n = 0 then schema_program stamp_program
           else ask AlterNotifications (\<lambda>_. stamp_program)) (fst (open_stmt c CountNotificationTables))"
        using schema_safely [OF c] alter_safely [OF c] by (simp add: never_old_def)
    qed simp_all
    with True show ?thesis by simp
  next
    case False
    then have "user_version c = SCHEMA_VERSION" "complete_schema c"
      using c version by (auto simp: file_ok_def)
    with version False stamp_safely [OF c] show ?thesis by simp
  qed
qed simp_all

lemma open_safely:
  assumes "file_ok c"
  shows "opens_safely open_program c"
  unfolding open_program_def
  by (rule ask_safely [where P = "\<lambda>_. True", OF assms TrueI])
    (auto simp: run_stmt_def migrate_safely split: option.splits)

section \<open>Processes on one file\<close>

lemma spec_call_extends:
  "orders_extend (sp_orders sp) (sp_orders (fst (spec_call sp call)))
   \<and> notifications_extend (sp_notifications sp) (sp_notifications (fst (spec_call sp call)))"
  by (cases call)
    (auto simp: orders_extend_def notifications_extend_def update_order_def list_all2_map2
      list_all2_refl same_order_def Let_def)

lemma store_call_grows:
  assumes "db_inv c" and "call_typed call"
  shows "grows c (fst (call_store sqlite_store c call))"
proof -
  let ?c1 = "fst (call_store sqlite_store c call)"
  have spec: "spec_of ?c1 = fst (expected c call)"
    using arg_cong [OF call_store_refines [OF assms(1), of call], of fst] by simp
  have views: "db_orders ?c1 = sp_orders (fst (expected c call))"
      "db_notifications ?c1 = sp_notifications (fst (expected c call))"
    unfolding spec [symmetric] by simp_all
  have "orders_extend (db_orders c) (db_orders ?c1)
      \<and> notifications_extend (db_notifications c) (db_notifications ?c1)"
    unfolding views using spec_call_extends [of "spec_of c" call]
    by (cases "faults c (stmt_of call)") (simp_all add: expected_def)
  moreover have "db_inv ?c1"
    using assms by (rule call_store_inv)
  ultimately show ?thesis
    using assms(1) unfolding grows_def
    by (auto simp: db_inv_file file_ok_def complete_schema_def SCHEMA_VERSION_def
        split: option.splits)
qed

text \<open>
  The file, the processes that are opening it, and whether one of them has opened it.
\<close>

record deployment =
  dep_db :: conn
  dep_opening :: "opening_program list"
  dep_open :: bool

datatype dep_event =
    Launch
  | OpenStatement nat
  | OpenEnd nat "store_error + unit"
  | OpenKilled nat
  | StoreCall store_call
  | Weathered "sql_stmt \<Rightarrow> string option"

definition without :: "nat \<Rightarrow> 'a list \<Rightarrow> 'a list" where
  "without i xs = take i xs @ drop (Suc i) xs"

inductive dep_step :: "deployment \<Rightarrow> dep_event \<Rightarrow> deployment \<Rightarrow> bool" where
  launch: "dep_step d Launch (d\<lparr>dep_opening := dep_opening d @ [open_program]\<rparr>)"
| statement: "i < length (dep_opening d) \<Longrightarrow> dep_opening d ! i = Call s k \<Longrightarrow>
     open_stmt (dep_db d) s = (c', r) \<Longrightarrow>
     dep_step d (OpenStatement i) (d\<lparr>dep_db := c', dep_opening := (dep_opening d)[i := k r]\<rparr>)"
| ends: "i < length (dep_opening d) \<Longrightarrow> dep_opening d ! i = Return r \<Longrightarrow>
     dep_step d (OpenEnd i r)
       (d\<lparr>dep_opening := without i (dep_opening d), dep_open := (dep_open d \<or> r = Inr ())\<rparr>)"
| killed: "i < length (dep_opening d) \<Longrightarrow>
     dep_step d (OpenKilled i) (d\<lparr>dep_opening := without i (dep_opening d)\<rparr>)"
| store_call: "dep_open d \<Longrightarrow> call_typed call \<Longrightarrow>
     dep_step d (StoreCall call)
       (d\<lparr>dep_db := fst (call_store sqlite_store (dep_db d) call)\<rparr>)"
| weathered: "dep_step d (Weathered f) (d\<lparr>dep_db := (dep_db d)\<lparr>faults := f\<rparr>\<rparr>)"

definition dep_inv :: "deployment \<Rightarrow> bool" where
  "dep_inv d \<longleftrightarrow>
     file_ok (dep_db d) \<and> (\<forall>p \<in> set (dep_opening d). opens_safely p (dep_db d))
     \<and> (dep_open d \<longrightarrow> db_inv (dep_db d))"

text \<open>A file before anybody has opened it: new, of the older version, or current.\<close>

definition dep_init :: "deployment \<Rightarrow> bool" where
  "dep_init d \<longleftrightarrow>
     ((\<exists>f. dep_db d = empty_conn f) \<or> version_1 (dep_db d) \<or> db_inv (dep_db d))
     \<and> dep_opening d = [] \<and> \<not> dep_open d"

lemma set_without: "set (without i xs) \<subseteq> set xs"
  by (auto simp: without_def dest: in_set_takeD in_set_dropD)

lemma dep_init_inv:
  assumes "dep_init d"
  shows "dep_inv d"
proof -
  have "file_ok (dep_db d)"
    using assms
    by (auto simp: dep_init_def db_inv_file file_ok_def empty_conn_def version_1_def db_rows_def
        db_qrows_def)
  with assms show ?thesis by (simp add: dep_init_def dep_inv_def)
qed

lemma dep_step_inv:
  assumes "dep_inv d" and "dep_step d ev d'"
  shows "dep_inv d' \<and> grows (dep_db d) (dep_db d')"
proof -
  have ok: "file_ok (dep_db d)" "\<forall>p \<in> set (dep_opening d). opens_safely p (dep_db d)"
      "dep_open d \<longrightarrow> db_inv (dep_db d)"
    using assms(1) by (simp_all add: dep_inv_def)
  have others: "file_ok c \<and> (\<forall>p \<in> set (dep_opening d). opens_safely p c)
      \<and> (dep_open d \<longrightarrow> db_inv c)" if "grows (dep_db d) c" for c
    using ok that by (auto intro: grows_file_ok grows_db_inv assured_stable)
  show ?thesis
    using assms(2)
  proof cases
    case launch
    with ok open_safely [OF ok(1)] show ?thesis by (simp add: dep_inv_def)
  next
    case (statement i s k c' r)
    have "opens_safely (Call s k) (dep_db d)"
      using ok(2) nth_mem [OF statement(3)] unfolding statement(4) by blast
    from assured_Call [OF this statement(5)]
    have g: "grows (dep_db d) c'" and k: "opens_safely (k r) c'" by simp_all
    with others [OF g] show ?thesis
      using set_update_subset_insert [of "dep_opening d" i "k r"]
      by (auto simp: statement(2) dep_inv_def)
  next
    case (ends i r)
    have "opens_safely (Return r) (dep_db d)"
      using ok(2) nth_mem [OF ends(3)] unfolding ends(4) by blast
    then have "opened r (dep_db d)" by (rule assured_Return)
    with ok set_without [of i "dep_opening d"] show ?thesis
      by (auto simp: ends(2) dep_inv_def opened_def)
  next
    case (killed i)
    with ok set_without [of i "dep_opening d"] show ?thesis
      by (auto simp: dep_inv_def)
  next
    case (store_call call)
    have "grows (dep_db d) (fst (call_store sqlite_store (dep_db d) call))"
      using store_call ok(3) by (intro store_call_grows) simp_all
    with others [OF this] show ?thesis
      by (simp add: store_call(2) dep_inv_def)
  next
    case (weathered f)
    have "grows (dep_db d) ((dep_db d)\<lparr>faults := f\<rparr>)"
      by (rule grows_unchanged) simp_all
    with others [OF this] show ?thesis
      by (simp add: weathered dep_inv_def)
  qed
qed

interpretation deployments: invariant_system dep_init dep_step dep_inv
  by unfold_locales (use dep_init_inv dep_step_inv in blast)+

lemma dep_run_grows:
  "run_of dep_step d evs d' \<Longrightarrow> dep_inv d \<Longrightarrow> dep_inv d' \<and> grows (dep_db d) (dep_db d')
     \<and> (dep_open d' \<longleftrightarrow> dep_open d \<or> (\<exists>i. OpenEnd i (Inr ()) \<in> set evs))"
proof (induction rule: run_of.induct)
  case (run_snoc st evs st' ev st'')
  then have IH: "dep_inv st'" "grows (dep_db st) (dep_db st')"
      "dep_open st' \<longleftrightarrow> dep_open st \<or> (\<exists>i. OpenEnd i (Inr ()) \<in> set evs)"
    by simp_all
  have "dep_open st'' \<longleftrightarrow> dep_open st' \<or> (\<exists>i. ev = OpenEnd i (Inr ()))"
    using run_snoc.hyps(2) by cases auto
  with dep_step_inv [OF IH(1) run_snoc.hyps(2)] IH(2,3) show ?case
    by (auto intro: grows_trans)
qed simp

section \<open>Running events\<close>

fun dep_exec :: "deployment \<Rightarrow> dep_event \<Rightarrow> deployment option" where
  "dep_exec d Launch = Some (d\<lparr>dep_opening := dep_opening d @ [open_program]\<rparr>)"
| "dep_exec d (OpenStatement i) =
     (if i < length (dep_opening d) then
        (case dep_opening d ! i of
           Return _ \<Rightarrow> None
         | Call s k \<Rightarrow>
             (case open_stmt (dep_db d) s of
                (c', r) \<Rightarrow>
                  Some (d\<lparr>dep_db := c', dep_opening := (dep_opening d)[i := k r]\<rparr>)))
      else None)"
| "dep_exec d (OpenEnd i r) =
     (if i < length (dep_opening d) then
        (case dep_opening d ! i of
           Call _ _ \<Rightarrow> None
         | Return r' \<Rightarrow>
             if r' = r
             then Some (d\<lparr>dep_opening := without i (dep_opening d),
                         dep_open := (dep_open d \<or> r = Inr ())\<rparr>)
             else None)
      else None)"
| "dep_exec d (OpenKilled i) =
     (if i < length (dep_opening d)
      then Some (d\<lparr>dep_opening := without i (dep_opening d)\<rparr>) else None)"
| "dep_exec d (StoreCall call) =
     (if dep_open d \<and> call_typed call
      then Some (d\<lparr>dep_db := fst (call_store sqlite_store (dep_db d) call)\<rparr>) else None)"
| "dep_exec d (Weathered f) = Some (d\<lparr>dep_db := (dep_db d)\<lparr>faults := f\<rparr>\<rparr>)"

fun dep_execs :: "deployment \<Rightarrow> dep_event list \<Rightarrow> deployment option" where
  "dep_execs d [] = Some d"
| "dep_execs d (ev # evs) = Option.bind (dep_exec d ev) (\<lambda>d'. dep_execs d' evs)"

lemma dep_exec_step: "dep_exec d ev = Some d' \<Longrightarrow> dep_step d ev d'"
  by (cases ev)
    (auto intro: dep_step.intros split: if_splits program.splits prod.splits)

lemma dep_execs_run: "dep_execs d evs = Some d' \<Longrightarrow> run_of dep_step d evs d'"
proof (induction evs arbitrary: d)
  case (Cons ev evs)
  then obtain d1 where one: "dep_exec d ev = Some d1" and rest: "dep_execs d1 evs = Some d'"
    by (auto simp: Option.bind_eq_Some_conv)
  have "run_of dep_step d [ev] d1"
    using dep_exec_step [OF one] by (rule run_of_one)
  from run_of_append [OF Cons.IH [OF rest] this] show ?case by simp
qed (simp add: run_of.run_nil)

text \<open>
  Two processes open a new file. The first reads the version before the second has stamped it and
  looks for the table after the second has created it.
\<close>

definition race :: "dep_event list" where
  "race =
     [Launch, Launch, OpenStatement 0, OpenStatement 0,
      OpenStatement 1, OpenStatement 1, OpenStatement 1,
      OpenStatement 1, OpenStatement 1, OpenStatement 1,
      OpenStatement 0, OpenStatement 0,
      OpenEnd 0 (Inl (Db (OtherError ''duplicate column name: verified''))),
      OpenStatement 0, OpenEnd 0 (Inr ())]"

definition new_deployment :: deployment where
  "new_deployment = \<lparr> dep_db = empty_conn (\<lambda>_. None), dep_opening = [], dep_open = False \<rparr>"

lemmas open_programs = open_program_def migrate_program_def schema_program_def stamp_program_def
  ask_def

lemma race_runs:
  "dep_execs new_deployment race =
     Some \<lparr> dep_db = fst (sqlite_open (empty_conn (\<lambda>_. None))), dep_opening = [], dep_open = True \<rparr>"
  by (simp add: race_def new_deployment_def open_programs open_defs empty_conn_def without_def
      nth_Cons' numeral_eq_Suc)

section \<open>Properties\<close>

text \<open>
  The statements of opening, made one after another with nothing in between, are \<open>sqlite_open\<close>.
\<close>

theorem opening_is_its_statements: "exec open_stmt open_program c = sqlite_open c"
  by (rule exec_open)

text \<open>
  C31: whoever has opened the file finds it current, whoever else is opening it. Any number of
  processes open a new file, one of the older version or a current one, their statements
  interleaved in any way with each other and with the store calls of the processes that have
  opened it; any of them may be killed between two statements and any statement may fail. Once one
  of them has opened the file it has both tables in their current form and the current version,
  and stays so. Orders keep their place and what they are an order for; notifications are never
  lost, and change at most by being marked verified.
\<close>

theorem opened_files_are_current:
  assumes "dep_init d" and "run_of dep_step d evs d'"
  shows "((\<exists>i. OpenEnd i (Inr ()) \<in> set evs) \<longrightarrow> db_inv (dep_db d'))
    \<and> orders_extend (db_orders (dep_db d)) (db_orders (dep_db d'))
    \<and> notifications_extend (db_notifications (dep_db d)) (db_notifications (dep_db d'))"
proof -
  have inv: "dep_inv d"
    using assms(1) by (rule dep_init_inv)
  from dep_run_grows [OF assms(2) inv] inv show ?thesis
    by (auto simp: dep_inv_def grows_def)
qed

text \<open>
  C34: of two processes that open a new file at the same time one can fail. No statement fails and
  nobody is killed, and either process alone would succeed; but one reads the version before the
  other has stamped it and looks for the table after the other has created it, takes the file for
  one of the older version and reports that the column \<open>verified\<close> is there already.
\<close>

theorem racing_openers_can_fail:
  "\<exists>evs d'. run_of dep_step new_deployment evs d'
     \<and> dep_db new_deployment = empty_conn (\<lambda>_. None)
     \<and> snd (sqlite_open (dep_db new_deployment)) = Inr ()
     \<and> list_all (\<lambda>ev. case ev of OpenKilled _ \<Rightarrow> False | Weathered _ \<Rightarrow> False | _ \<Rightarrow> True) evs
     \<and> OpenEnd 0 (Inl (Db (OtherError ''duplicate column name: verified''))) \<in> set evs
     \<and> OpenEnd 0 (Inr ()) \<in> set evs \<and> db_inv (dep_db d')"
proof (intro exI conjI)
  show "run_of dep_step new_deployment race
      \<lparr> dep_db = fst (sqlite_open (empty_conn (\<lambda>_. None))), dep_opening = [], dep_open = True \<rparr>"
    by (rule dep_execs_run [OF race_runs])
  show "db_inv (dep_db \<lparr> dep_db = fst (sqlite_open (empty_conn (\<lambda>_. None))), dep_opening = [],
      dep_open = True \<rparr>)"
    using open_fresh_no_faults open_fresh(1) by fastforce
qed (simp_all add: new_deployment_def race_def open_defs empty_conn_def)

text \<open>The properties at work.\<close>

lemma new_deployment_init: "dep_init new_deployment"
  by (auto simp: dep_init_def new_deployment_def)

theorem opened_files_are_current_witness:
  "dep_init new_deployment
   \<and> db_inv (fst (sqlite_open (empty_conn (\<lambda>_. None))))
   \<and> orders_extend (db_orders (dep_db new_deployment))
       (db_orders (fst (sqlite_open (empty_conn (\<lambda>_. None)))))"
  using opened_files_are_current [OF new_deployment_init dep_execs_run [OF race_runs]]
    new_deployment_init by (auto simp: race_def)

end
